(* ===== verification/Mx_Prelude.thy ===== *)
theory Mx_Prelude
  imports Main "HOL-Library.Word" "HOL-Library.Char_ord" "HOL-Library.List_Lexorder"
    "HOL-Library.Sublist"
begin

text \<open>
  Shared vocabulary of the development.

  \<^item> Rust values: a \<open>u64\<close> is a 64 bit word, an \<open>i64\<close> a 64 bit word read as
    signed where the code does so; a \<open>String\<close>, \<open>&str\<close> or \<open>PathBuf\<close> is the list of
    its bytes (Isabelle's \<open>char\<close> is one byte), so that comparing strings is comparing UTF-8
    bytes, as Rust does; a \<open>Result<T, E>\<close> is \<open>E + T\<close>; the question mark operator is
    \<open>and_then\<close>.
  \<^item> A \<open>BTreeMap<String, V>\<close> is an association list sorted by key (\<open>bmap\<close>): its
    iteration order is the list order. The laws its clients use are the locale
    \<open>string_map\<close>, interpreted on \<open>bm_get\<close>, \<open>bm_insert\<close>, \<open>bm_remove\<close>.
  \<^item> Slices of text: \<open>split_on\<close> is \<open>str::split\<close> with a one byte separator, \<open>trim\<close> is
    \<open>str::trim\<close> with Unicode white space spelled out in UTF-8.
\<close>

type_synonym u64 = "64 word"
type_synonym u32 = "32 word"
type_synonym ('e, 'a) result = "'e + 'a"
type_synonym 'v bmap = "(string \<times> 'v) list"

text \<open>An \<open>std::io::Error\<close>: its kind, as far as the program distinguishes kinds, and its text.\<close>

datatype io_kind = NotFound | OtherKind

datatype io_error = IoError (io_kind: io_kind) (io_text: string)

named_theorems mx_defs \<open>unfoldings of the operations of the model\<close>
named_theorems mx_inv \<open>an operation keeps the invariant of its component\<close>

subsection \<open>Results and options\<close>

definition and_then :: "('e, 'a) result \<Rightarrow> ('a \<Rightarrow> ('e, 'b) result) \<Rightarrow> ('e, 'b) result" where
  "and_then r f = (case r of Inl e \<Rightarrow> Inl e | Inr x \<Rightarrow> f x)"

definition map_err :: "('e \<Rightarrow> 'f) \<Rightarrow> ('e, 'a) result \<Rightarrow> ('f, 'a) result" where
  "map_err g r = (case r of Inl e \<Rightarrow> Inl (g e) | Inr x \<Rightarrow> Inr x)"

definition ok_or :: "'a option \<Rightarrow> 'e \<Rightarrow> ('e, 'a) result" where
  "ok_or v e = (case v of None \<Rightarrow> Inl e | Some x \<Rightarrow> Inr x)"

definition or_opt :: "'a option \<Rightarrow> 'a option \<Rightarrow> 'a option" where
  "or_opt a b = (case a of None \<Rightarrow> b | Some x \<Rightarrow> Some x)"

definition unwrap_or :: "'a option \<Rightarrow> 'a \<Rightarrow> 'a" where
  "unwrap_or a d = (case a of None \<Rightarrow> d | Some x \<Rightarrow> x)"

definition guard_err :: "bool \<Rightarrow> 'e \<Rightarrow> ('e, unit) result" where
  "guard_err bad e = (if bad then Inl e else Inr ())"

text \<open>A loop \<open>for x in xs { f(x)?; }\<close>.\<close>

primrec for_each :: "('a \<Rightarrow> ('e, unit) result) \<Rightarrow> 'a list \<Rightarrow> ('e, unit) result" where
  "for_each f [] = Inr ()"
| "for_each f (x # xs) = and_then (f x) (\<lambda>_. for_each f xs)"

subsection \<open>Text\<close>

fun split_on :: "'a \<Rightarrow> 'a list \<Rightarrow> 'a list list" where
  "split_on c [] = [[]]"
| "split_on c (x # xs) =
     (if x = c then [] # split_on c xs
      else case split_on c xs of [] \<Rightarrow> [[x]] | y # ys \<Rightarrow> (x # y) # ys)"

fun join_with :: "'a list \<Rightarrow> 'a list list \<Rightarrow> 'a list" where
  "join_with sep [] = []"
| "join_with sep [x] = x"
| "join_with sep (x # y # ys) = x @ sep @ join_with sep (y # ys)"

definition starts_with_str :: "string \<Rightarrow> string \<Rightarrow> bool" where
  "starts_with_str s p = prefix p s"

text \<open>
  \<open>ws_char s\<close> is the number of bytes of the white space character at the head of \<open>s\<close>
  (0 when there is none): U+0009--U+000D, U+0020, U+0085, U+00A0, U+1680, U+2000--U+200A,
  U+2028, U+2029, U+202F, U+205F and U+3000.
\<close>

definition ws_char :: "nat list \<Rightarrow> nat" where
  "ws_char s = (case s of
       [] \<Rightarrow> 0
     | a # r \<Rightarrow>
        if 9 \<le> a \<and> a \<le> 13 \<or> a = 32 then 1
        else (case r of
           [] \<Rightarrow> 0
         | b # q \<Rightarrow>
            if a = 194 \<and> (b = 133 \<or> b = 160) then 2
            else (case q of
               [] \<Rightarrow> 0
             | c # _ \<Rightarrow>
                if a = 225 \<and> b = 154 \<and> c = 128
                 \<or> a = 226 \<and> b = 128 \<and> (128 \<le> c \<and> c \<le> 138 \<or> c = 168 \<or> c = 169 \<or> c = 175)
                 \<or> a = 226 \<and> b = 129 \<and> c = 159
                 \<or> a = 227 \<and> b = 128 \<and> c = 128 then 3 else 0)))"

definition bytes :: "string \<Rightarrow> nat list" where
  "bytes s = map of_char s"

function trim_start :: "string \<Rightarrow> string" where
  "trim_start s =
     (if s = [] \<or> ws_char (bytes s) = 0 then s else trim_start (drop (ws_char (bytes s)) s))"
  by pat_completeness auto
termination by (relation "measure length") auto

declare trim_start.simps [simp del]

text \<open>\<open>s.trim().is_empty()\<close>: nothing is left once the leading white space is gone.\<close>

definition is_blank :: "string \<Rightarrow> bool" where
  "is_blank s \<longleftrightarrow> trim_start s = []"

subsection \<open>Maps keyed by strings\<close>

definition bm_get :: "'v bmap \<Rightarrow> string \<Rightarrow> 'v option" where
  "bm_get m k = map_of m k"

fun bm_insert :: "string \<Rightarrow> 'v \<Rightarrow> 'v bmap \<Rightarrow> 'v bmap" where
  "bm_insert k v [] = [(k, v)]"
| "bm_insert k v ((j, w) # m) =
     (if k < j then (k, v) # (j, w) # m
      else if k = j then (k, v) # m
      else (j, w) # bm_insert k v m)"

definition bm_remove :: "string \<Rightarrow> 'v bmap \<Rightarrow> 'v bmap" where
  "bm_remove k m = filter (\<lambda>kv. fst kv \<noteq> k) m"

definition bm_wf :: "'v bmap \<Rightarrow> bool" where
  "bm_wf m \<longleftrightarrow> sorted_wrt (<) (map fst m)"

definition bm_of_list :: "(string \<times> 'v) list \<Rightarrow> 'v bmap" where
  "bm_of_list kvs = fold (\<lambda>(k, v). bm_insert k v) kvs []"

subsection \<open>Saturating arithmetic on machine words\<close>

definition sat_add :: "'a::len word \<Rightarrow> 'a word \<Rightarrow> 'a word" where
  "sat_add a b = (if unat a + unat b < 2 ^ LENGTH('a) then a + b else - 1)"

definition sat_sub :: "'a::len word \<Rightarrow> 'a word \<Rightarrow> 'a word" where
  "sat_sub a b = (if b \<le> a then a - b else 0)"

subsection \<open>Laws\<close>

lemma and_then_simps [simp]:
  "and_then (Inl e) f = Inl e" "and_then (Inr x) f = f x"
  by (simp_all add: and_then_def)

lemma and_then_eq_Inr [simp]: "and_then r f = Inr y \<longleftrightarrow> (\<exists>x. r = Inr x \<and> f x = Inr y)"
  by (cases r) simp_all

lemma and_then_eq_Inl: "and_then r f = Inl e \<longleftrightarrow> r = Inl e \<or> (\<exists>x. r = Inr x \<and> f x = Inl e)"
  by (cases r) simp_all

lemma map_err_simps [simp]:
  "map_err g (Inl e) = Inl (g e)" "map_err g (Inr x) = Inr x"
  by (simp_all add: map_err_def)

lemma map_err_eq_Inr [simp]: "map_err g r = Inr y \<longleftrightarrow> r = Inr y"
  by (cases r) simp_all

lemma ok_or_simps [simp]: "ok_or None e = Inl e" "ok_or (Some x) e = Inr x"
  by (simp_all add: ok_or_def)

lemma ok_or_eq_Inr [simp]: "ok_or v e = Inr x \<longleftrightarrow> v = Some x"
  by (cases v) simp_all

lemma or_opt_simps [simp]: "or_opt None b = b" "or_opt (Some x) b = Some x"
  by (simp_all add: or_opt_def)

lemma or_opt_eq_Some: "or_opt a b = Some x \<longleftrightarrow> a = Some x \<or> a = None \<and> b = Some x"
  by (cases a) auto

lemma unwrap_or_simps [simp]: "unwrap_or None d = d" "unwrap_or (Some x) d = x"
  by (simp_all add: unwrap_or_def)

lemma guard_err_simps [simp]:
  "guard_err bad e = Inr u \<longleftrightarrow> \<not> bad" "guard_err bad e = Inl e' \<longleftrightarrow> bad \<and> e' = e"
  by (auto simp: guard_err_def)

lemma for_each_ok [simp]: "for_each f xs = Inr u \<longleftrightarrow> (\<forall>x\<in>set xs. f x = Inr ())"
  by (induction xs) auto

lemma for_each_first_err:
  "for_each f xs = Inl e \<longleftrightarrow>
   (\<exists>ys x zs. xs = ys @ x # zs \<and> (\<forall>y\<in>set ys. f y = Inr ()) \<and> f x = Inl e)"
proof (induction xs)
  case (Cons a xs)
  have *: "(\<exists>ys x zs. a # xs = ys @ x # zs \<and> (\<forall>y\<in>set ys. f y = Inr ()) \<and> f x = Inl e) \<longleftrightarrow>
    f a = Inl e \<or> f a = Inr () \<and>
      (\<exists>ys x zs. xs = ys @ x # zs \<and> (\<forall>y\<in>set ys. f y = Inr ()) \<and> f x = Inl e)"
    (is "?L \<longleftrightarrow> ?R")
  proof
    assume ?L
    then show ?R
      by (fastforce simp: Cons_eq_append_conv)
  next
    assume ?R
    then show ?L
      by (metis append_Cons append_Nil empty_iff list.set(1) set_ConsD)
  qed
  show ?case
    using Cons.IH unfolding * by (cases "f a") auto
qed simp

lemma split_on_not_Nil [simp]: "split_on c s \<noteq> []"
  by (induction s) (auto split: list.splits)

lemma split_on_no_sep: "p \<in> set (split_on c s) \<Longrightarrow> c \<notin> set p"
  by (induction s arbitrary: p) (auto split: list.splits if_splits)

lemma join_split_on: "join_with [c] (split_on c s) = s"
proof (induction s)
  case (Cons x xs)
  then show ?case
    by (cases "split_on c xs"; cases "tl (split_on c xs)") auto
qed simp

lemma split_on_append_sep: "split_on c (a @ c # b) = split_on c a @ split_on c b"
proof (induction a)
  case (Cons x a)
  then show ?case
    by (cases "split_on c a") auto
qed simp

lemma split_on_single: "c \<notin> set s \<Longrightarrow> split_on c s = [s]"
  by (induction s) auto

lemma trim_start_le: "length (trim_start s) \<le> length s"
proof (induction s rule: trim_start.induct)
  case (1 s)
  then show ?case
    by (subst trim_start.simps) (auto intro: order.trans)
qed

lemma is_blank_Nil [simp]: "is_blank []"
  by (simp add: is_blank_def trim_start.simps)

lemma sat_sub_unat: "unat (sat_sub a b) = unat a - unat b"
  by (auto simp: sat_sub_def unat_sub word_le_nat_alt)

lemma sat_add_unat: "unat (sat_add (a :: 'a::len word) b) = min (unat a + unat b) (2 ^ LENGTH('a) - 1)"
proof (cases "unat a + unat b < 2 ^ LENGTH('a)")
  case True
  then show ?thesis
    by (simp add: sat_add_def unat_word_ariths)
next
  case False
  have "unat (- 1 :: 'a word) = 2 ^ LENGTH('a) - 1"
    by (simp add: unsigned_minus_1_eq_mask mask_eq_exp_minus_1)
  with False show ?thesis
    by (simp add: sat_add_def)
qed

subsection \<open>The map interface\<close>

text \<open>
  What a client of a string keyed map relies on: what a lookup returns after an insert or a
  removal, and that both keep the representation invariant.
\<close>

locale string_map =
  fixes empty :: 'm
    and get :: "'m \<Rightarrow> string \<Rightarrow> 'v option"
    and ins :: "string \<Rightarrow> 'v \<Rightarrow> 'm \<Rightarrow> 'm"
    and rem :: "string \<Rightarrow> 'm \<Rightarrow> 'm"
    and invar :: "'m \<Rightarrow> bool"
  assumes empty_get: "get empty k = None"
    and empty_invar: "invar empty"
    and ins_get: "invar m \<Longrightarrow> get (ins k v m) j = (if j = k then Some v else get m j)"
    and rem_get: "invar m \<Longrightarrow> get (rem k m) j = (if j = k then None else get m j)"
    and ins_invar: "invar m \<Longrightarrow> invar (ins k v m)"
    and rem_invar: "invar m \<Longrightarrow> invar (rem k m)"
begin

lemma get_after_ins: "invar m \<Longrightarrow> get (ins k v m) k = Some v"
  by (simp add: ins_get)

lemma get_after_rem: "invar m \<Longrightarrow> get (rem k m) k = None"
  by (simp add: rem_get)

lemma rem_ins_get: "invar m \<Longrightarrow> get (rem k (ins k v m)) j = get (rem k m) j"
  by (simp add: ins_get rem_get ins_invar)

lemma ins_ins_get: "invar m \<Longrightarrow> get (ins k v (ins k w m)) j = get (ins k v m) j"
  by (simp add: ins_get ins_invar)

lemma fold_ins_invar: "invar m \<Longrightarrow> invar (fold (\<lambda>(k, v). ins k v) kvs m)"
  by (induction kvs arbitrary: m) (auto intro: ins_invar)

lemma fold_ins_get:
  "invar m \<Longrightarrow>
   get (fold (\<lambda>(k, v). ins k v) kvs m) j = (case map_of (rev kvs) j of None \<Rightarrow> get m j | Some v \<Rightarrow> Some v)"
proof (induction kvs arbitrary: m)
  case (Cons kv kvs)
  then show ?case
    by (cases kv) (auto simp: ins_invar ins_get map_add_def split: option.splits)
qed simp

end

lemma bm_insert_keys: "set (map fst (bm_insert k v m)) = insert k (set (map fst m))"
  by (induction k v m rule: bm_insert.induct) auto

lemma bm_wf_insert: "bm_wf m \<Longrightarrow> bm_wf (bm_insert k v m)"
  unfolding bm_wf_def
proof (induction k v m rule: bm_insert.induct)
  case (2 k v j w m)
  then show ?case
    using bm_insert_keys [of k v m] by (auto simp: less_trans)
qed simp

lemma bm_wf_remove: "bm_wf m \<Longrightarrow> bm_wf (bm_remove k m)"
  by (auto simp: bm_wf_def bm_remove_def sorted_wrt_map intro: sorted_wrt_filter)

lemma bm_get_insert: "bm_get (bm_insert k v m) j = (if j = k then Some v else bm_get m j)"
  by (induction k v m rule: bm_insert.induct) (auto simp: bm_get_def)

lemma bm_get_remove: "bm_get (bm_remove k m) j = (if j = k then None else bm_get m j)"
  unfolding bm_get_def bm_remove_def by (induction m) auto

lemma bm_wf_distinct: "bm_wf m \<Longrightarrow> distinct (map fst m)"
  unfolding bm_wf_def by (simp add: strict_sorted_iff)

lemma bm_get_in: "bm_get m k = Some v \<Longrightarrow> (k, v) \<in> set m"
  by (simp add: bm_get_def map_of_SomeD)

lemma bm_get_None: "bm_get ns n = None \<longleftrightarrow> n \<notin> fst ` set ns"
  by (simp add: bm_get_def map_of_eq_None_iff)

lemma bm_get_distinct: "distinct (map fst ns) \<Longrightarrow> bm_get ns n = Some e \<longleftrightarrow> (n, e) \<in> set ns"
  by (simp add: bm_get_def)

interpretation bm: string_map "[]" bm_get bm_insert bm_remove bm_wf
  by unfold_locales
    (simp_all add: bm_get_insert bm_get_remove bm_wf_insert bm_wf_remove, simp_all add: bm_get_def bm_wf_def)

end
