(* ===== verification/Rust_Path.thy ===== *)
theory Rust_Path
  imports Mx_Prelude
begin

text \<open>
  The part of \<open>std::path\<close> (on Unix) the program uses: absolute paths, the component
  iterator with its normalisation of repeated separators and interior \<open>.\<close> segments,
  component-wise \<open>starts_with\<close>, \<open>file_name\<close> and \<open>join\<close>. \<open>resolve\<close> is the reference
  semantics of a path without symbolic links: the list of directory names reached from the root
  by walking the components. The lemmas relate component prefixes to being inside a directory
  under that semantics, and show why a \<open>..\<close> segment breaks the relation.
\<close>

datatype component = RootDir | CurDir | ParentDir | Normal string

definition slash :: char where
  "slash = CHR ''/''"

definition is_absolute :: "string \<Rightarrow> bool" where
  "is_absolute p = (case p of [] \<Rightarrow> False | c # _ \<Rightarrow> c = slash)"

definition seg_component :: "string \<Rightarrow> component list" where
  "seg_component s =
     (if s = [] \<or> s = ''.'' then [] else if s = ''..'' then [ParentDir] else [Normal s])"

definition components :: "string \<Rightarrow> component list" where
  "components p =
     (let segs = split_on slash p in
      (if is_absolute p then [RootDir] else if hd segs = ''.'' then [CurDir] else [])
      @ concat (map seg_component segs))"

definition path_starts_with :: "string \<Rightarrow> string \<Rightarrow> bool" where
  "path_starts_with p base = prefix (components base) (components p)"

definition file_name :: "string \<Rightarrow> string option" where
  "file_name p = (case rev (components p) of Normal n # _ \<Rightarrow> Some n | _ \<Rightarrow> None)"

definition path_join :: "string \<Rightarrow> string \<Rightarrow> string" where
  "path_join a b =
     (if is_absolute b then b
      else if a = [] \<or> last a = slash then a @ b else a @ [slash] @ b)"

text \<open>\<open>s.split('/').any(|seg| seg == ".." || seg == ".")\<close>\<close>

definition has_dot_segment :: "string \<Rightarrow> bool" where
  "has_dot_segment p = list_ex (\<lambda>seg. seg = ''..'' \<or> seg = ''.'') (split_on slash p)"

fun resolve_step :: "string list \<Rightarrow> component \<Rightarrow> string list" where
  "resolve_step dirs RootDir = []"
| "resolve_step dirs CurDir = dirs"
| "resolve_step dirs ParentDir = butlast dirs"
| "resolve_step dirs (Normal n) = dirs @ [n]"

definition resolve :: "string \<Rightarrow> string list" where
  "resolve p = foldl resolve_step [] (components p)"

fun normal_name :: "component \<Rightarrow> string list" where
  "normal_name (Normal n) = [n]"
| "normal_name _ = []"

lemma foldl_resolve_normal:
  "set cs \<subseteq> range Normal \<Longrightarrow> foldl resolve_step ds cs = ds @ concat (map normal_name cs)"
  by (induction cs arbitrary: ds) auto

lemma seg_component_normal: "s \<noteq> ''..'' \<Longrightarrow> set (seg_component s) \<subseteq> range Normal"
  by (auto simp: seg_component_def)

lemma components_absolute_canonical:
  assumes "is_absolute p" "\<not> has_dot_segment p"
  shows "\<exists>cs. components p = RootDir # cs \<and> set cs \<subseteq> range Normal"
  using assms seg_component_normal
  by (fastforce simp: components_def Let_def has_dot_segment_def list_ex_iff)

lemma concat_normal_name_prefix:
  assumes "set cs \<subseteq> range Normal" "set ds \<subseteq> range Normal"
  shows "prefix (concat (map normal_name cs)) (concat (map normal_name ds)) \<longleftrightarrow> prefix cs ds"
  using assms
proof (induction cs arbitrary: ds)
  case (Cons c cs)
  then obtain n where c: "c = Normal n" "set cs \<subseteq> range Normal"
    by auto
  show ?case
    using Cons.prems Cons.IH c by (cases ds) auto
qed simp

lemma resolve_absolute_canonical:
  assumes "is_absolute p" "\<not> has_dot_segment p"
  shows "\<exists>cs. components p = RootDir # cs \<and> set cs \<subseteq> range Normal
    \<and> resolve p = concat (map normal_name cs)"
  using components_absolute_canonical [OF assms] foldl_resolve_normal
  by (fastforce simp: resolve_def)

text \<open>On absolute canonical paths a component prefix is exactly containment.\<close>

lemma path_starts_with_iff_inside:
  assumes "is_absolute p" "\<not> has_dot_segment p" "is_absolute a" "\<not> has_dot_segment a"
  shows "path_starts_with p a \<longleftrightarrow> prefix (resolve a) (resolve p)"
proof -
  obtain cs ds where
    cs: "components p = RootDir # cs" "set cs \<subseteq> range Normal" "resolve p = concat (map normal_name cs)"
    and ds: "components a = RootDir # ds" "set ds \<subseteq> range Normal" "resolve a = concat (map normal_name ds)"
    using resolve_absolute_canonical assms by metis
  then show ?thesis
    by (simp add: path_starts_with_def concat_normal_name_prefix)
qed

lemma components_not_ParentDir:
  "\<not> has_dot_segment p \<Longrightarrow> ParentDir \<notin> set (components p)"
  by (auto simp: components_def Let_def has_dot_segment_def list_ex_iff seg_component_def
      split: if_splits)

end
