(* ===== verification/Policy_File.thy ===== *)
theory Policy_File
  imports Rust_Path
begin

text \<open>
  The policy file of \<open>crates/mx-agent-policy/src/file.rs\<close>: its data types, the location of the
  default file, loading, and \<open>validate\<close> with the order of its checks. The TOML deserialiser and
  the regular expression engine are third party code and enter as the parameters \<open>toml\<close> and
  \<open>rx\<close> (\<open>rx pattern\<close> is \<open>None\<close> when the pattern does not compile and otherwise the
  compiled matcher). A validation error carries the dotted path of the offending field as the
  list of its segments and the broken rule as a constructor of \<open>violation\<close> in place of the
  formatted message. \<open>policy_wf\<close> is the declarative reading of \<open>validate\<close>.
\<close>

subsection \<open>Data\<close>

datatype NetworkPolicy = NetAllow | NetDeny

datatype RawExecDefault = RawAllow | RawDeny

datatype Sandbox = SbNone | Bubblewrap | Firejail | Docker | Podman | Chroot

datatype Seccomp = SeccompOff | SeccompDefault

fun sandbox_name :: "Sandbox \<Rightarrow> string" where
  "sandbox_name SbNone = ''none''"
| "sandbox_name Bubblewrap = ''bubblewrap''"
| "sandbox_name Firejail = ''firejail''"
| "sandbox_name Docker = ''docker''"
| "sandbox_name Podman = ''podman''"
| "sandbox_name Chroot = ''chroot''"

fun seccomp_name :: "Seccomp \<Rightarrow> string" where
  "seccomp_name SeccompOff = ''off''"
| "seccomp_name SeccompDefault = ''default''"

record ExecutionPolicy =
  ex_default_sandbox :: "Sandbox option"
  ex_network :: "NetworkPolicy option"
  ex_read_only_paths :: "string list"
  ex_writable_paths :: "string list"
  ex_env_allowlist :: "string list"
  ex_container_image :: "string option"
  ex_max_processes :: "u64 option"
  ex_max_memory_bytes :: "u64 option"
  ex_max_cpu_seconds :: "u64 option"
  ex_seccomp :: Seccomp
  ex_require_sandbox :: bool

record AgentPolicy =
  ap_allow_exec :: bool
  ap_allow_tools :: "string list"
  ap_allow_commands :: "string list"
  ap_allow_cwd :: "string list"
  ap_deny_args_regex :: "string list"
  ap_max_runtime_ms :: "u64 option"
  ap_max_output_bytes :: "u64 option"
  ap_requires_approval :: bool
  ap_sandbox :: "Sandbox option"
  ap_network :: "NetworkPolicy option"
  ap_max_processes :: "u64 option"
  ap_max_memory_bytes :: "u64 option"
  ap_max_cpu_seconds :: "u64 option"
  ap_seccomp :: "Seccomp option"
  ap_require_verified_device :: bool

record RoomPolicy =
  rp_trusted :: bool
  rp_raw_exec_default :: "RawExecDefault option"
  rp_require_verified_device :: bool
  rp_approvers :: "string list"
  rp_agents :: "AgentPolicy bmap"

record Policy =
  execution :: ExecutionPolicy
  rooms :: "RoomPolicy bmap"

text \<open>\<open>#[derive(Default)]\<close>\<close>

definition default_execution_policy :: ExecutionPolicy where
  "default_execution_policy = \<lparr>
     ex_default_sandbox = None, ex_network = None, ex_read_only_paths = [], ex_writable_paths = [],
     ex_env_allowlist = [], ex_container_image = None, ex_max_processes = None,
     ex_max_memory_bytes = None, ex_max_cpu_seconds = None, ex_seccomp = SeccompOff,
     ex_require_sandbox = False \<rparr>"

definition default_agent_policy :: AgentPolicy where
  "default_agent_policy = \<lparr>
     ap_allow_exec = False, ap_allow_tools = [], ap_allow_commands = [], ap_allow_cwd = [],
     ap_deny_args_regex = [], ap_max_runtime_ms = None, ap_max_output_bytes = None,
     ap_requires_approval = False, ap_sandbox = None, ap_network = None,
     ap_max_processes = None, ap_max_memory_bytes = None, ap_max_cpu_seconds = None,
     ap_seccomp = None, ap_require_verified_device = False \<rparr>"

definition default_policy :: Policy where
  "default_policy = \<lparr> execution = default_execution_policy, rooms = [] \<rparr>"

datatype path_seg = Key string | Quoted string | Idx nat

datatype violation =
    NotAbsolute string
  | NotCanonical string
  | SandboxNotImplemented string
  | EmptyEnvName
  | BadRoomId string
  | BadApproverId string
  | BadAgentId string
  | InvalidRegex string
  | EmptyToolName string
  | EmptyCommandName string
  | MustBePositive string

datatype PolicyError =
    Io string string
  | Parse string
  | Validation "path_seg list" violation

type_synonym regex_engine = "string \<Rightarrow> (string \<Rightarrow> bool) option"

subsection \<open>Validation\<close>

definition validate_paths :: "path_seg list \<Rightarrow> string list \<Rightarrow> (PolicyError, unit) result" where
  "validate_paths pre paths = for_each (\<lambda>(idx, path).
     if \<not> is_absolute path then Inl (Validation (pre @ [Idx idx]) (NotAbsolute path))
     else if has_dot_segment path then Inl (Validation (pre @ [Idx idx]) (NotCanonical path))
     else Inr ()) (List.enumerate 0 paths)"

definition validate_sandbox :: "path_seg list \<Rightarrow> Sandbox option \<Rightarrow> (PolicyError, unit) result" where
  "validate_sandbox path sb = (case sb of
       Some Firejail \<Rightarrow> Inl (Validation path (SandboxNotImplemented (sandbox_name Firejail)))
     | Some Chroot \<Rightarrow> Inl (Validation path (SandboxNotImplemented (sandbox_name Chroot)))
     | _ \<Rightarrow> Inr ())"

definition validate_resource_caps ::
  "path_seg list \<Rightarrow> u64 option \<Rightarrow> u64 option \<Rightarrow> u64 option \<Rightarrow> (PolicyError, unit) result" where
  "validate_resource_caps pre max_processes max_memory_bytes max_cpu_seconds =
     for_each (\<lambda>(val, field).
        if val = Some 0 then Inl (Validation (pre @ [Key field]) (MustBePositive field)) else Inr ())
      [(max_processes, ''max_processes''), (max_memory_bytes, ''max_memory_bytes''),
       (max_cpu_seconds, ''max_cpu_seconds'')]"

definition validate_agent ::
  "regex_engine \<Rightarrow> path_seg list \<Rightarrow> AgentPolicy \<Rightarrow> (PolicyError, unit) result" where
  "validate_agent rx pre agent =
     and_then (validate_paths (pre @ [Key ''allow_cwd'']) (ap_allow_cwd agent)) (\<lambda>_.
     and_then (validate_sandbox (pre @ [Key ''sandbox'']) (ap_sandbox agent)) (\<lambda>_.
     and_then (validate_resource_caps pre (ap_max_processes agent) (ap_max_memory_bytes agent)
                 (ap_max_cpu_seconds agent)) (\<lambda>_.
     and_then (for_each (\<lambda>(idx, pat).
                  guard_err (rx pat = None)
                    (Validation (pre @ [Key ''deny_args_regex'', Idx idx]) (InvalidRegex pat)))
                (List.enumerate 0 (ap_deny_args_regex agent))) (\<lambda>_.
     and_then (case find is_blank (ap_allow_tools agent) of
                 Some name \<Rightarrow> Inl (Validation (pre @ [Key ''allow_tools'']) (EmptyToolName name))
               | None \<Rightarrow> Inr ()) (\<lambda>_.
     and_then (case find is_blank (ap_allow_commands agent) of
                 Some cmd \<Rightarrow> Inl (Validation (pre @ [Key ''allow_commands'']) (EmptyCommandName cmd))
               | None \<Rightarrow> Inr ()) (\<lambda>_.
     if ap_max_runtime_ms agent = Some 0
     then Inl (Validation (pre @ [Key ''max_runtime_ms'']) (MustBePositive ''max_runtime_ms''))
     else if ap_max_output_bytes agent = Some 0
     then Inl (Validation (pre @ [Key ''max_output_bytes'']) (MustBePositive ''max_output_bytes''))
     else Inr ()))))))"

definition validate_room ::
  "regex_engine \<Rightarrow> string \<Rightarrow> RoomPolicy \<Rightarrow> (PolicyError, unit) result" where
  "validate_room rx room_id room =
     (let room_path = [Key ''rooms'', Quoted room_id] in
      if \<not> starts_with_str room_id ''!'' then Inl (Validation room_path (BadRoomId room_id))
      else
        and_then (for_each (\<lambda>(idx, approver).
            guard_err (\<not> starts_with_str approver ''@'')
              (Validation (room_path @ [Key ''approvers'', Idx idx]) (BadApproverId approver)))
          (List.enumerate 0 (rp_approvers room))) (\<lambda>_.
        for_each (\<lambda>(agent_id, agent).
            let agent_path = room_path @ [Key ''agents'', Quoted agent_id] in
            if \<not> starts_with_str agent_id ''@'' then Inl (Validation agent_path (BadAgentId agent_id))
            else validate_agent rx agent_path agent)
          (rp_agents room)))"

definition validate :: "regex_engine \<Rightarrow> Policy \<Rightarrow> (PolicyError, unit) result" where
  "validate rx p =
     (let e = execution p in
      and_then (validate_paths [Key ''execution'', Key ''read_only_paths''] (ex_read_only_paths e)) (\<lambda>_.
      and_then (validate_paths [Key ''execution'', Key ''writable_paths''] (ex_writable_paths e)) (\<lambda>_.
      and_then (validate_sandbox [Key ''execution'', Key ''default_sandbox''] (ex_default_sandbox e)) (\<lambda>_.
      and_then (validate_resource_caps [Key ''execution''] (ex_max_processes e)
                  (ex_max_memory_bytes e) (ex_max_cpu_seconds e)) (\<lambda>_.
      and_then (case find (\<lambda>(_, name). is_blank name) (List.enumerate 0 (ex_env_allowlist e)) of
                  Some (idx, _) \<Rightarrow>
                    Inl (Validation [Key ''execution'', Key ''env_allowlist'', Idx idx] EmptyEnvName)
                | None \<Rightarrow> Inr ()) (\<lambda>_.
      for_each (\<lambda>(room_id, room). validate_room rx room_id room) (rooms p)))))))"

subsection \<open>Locating and loading the file\<close>

definition POLICY_FILE_NAME :: string where
  "POLICY_FILE_NAME = ''policy.toml''"

text \<open>\<open>env name\<close> is \<open>std::env::var(name)\<close>, \<open>None\<close> for its error cases.\<close>

definition default_path :: "(string \<Rightarrow> string option) \<Rightarrow> string option" where
  "default_path env = map_option (\<lambda>dir. path_join dir POLICY_FILE_NAME)
     (case env ''MX_AGENT_CONFIG_DIR'' of
        Some dir \<Rightarrow> Some dir
      | None \<Rightarrow>
        (case env ''XDG_CONFIG_HOME'' of
           Some xdg \<Rightarrow> Some (path_join xdg ''mx-agent'')
         | None \<Rightarrow>
           (case env ''HOME'' of
              Some home \<Rightarrow> Some (path_join home ''.config/mx-agent'')
            | None \<Rightarrow> None)))"

definition parse ::
  "regex_engine \<Rightarrow> (string \<Rightarrow> (string, Policy) result) \<Rightarrow> string \<Rightarrow> (PolicyError, Policy) result" where
  "parse rx toml input =
     and_then (map_err Parse (toml input)) (\<lambda>policy.
     and_then (validate rx policy) (\<lambda>_. Inr policy))"

text \<open>\<open>io_text e\<close> is \<open>e.to_string()\<close>; only the kind decides what \<open>load_optional\<close> does.\<close>

definition load ::
  "regex_engine \<Rightarrow> (string \<Rightarrow> (string, Policy) result) \<Rightarrow> (string \<Rightarrow> (io_error, string) result)
    \<Rightarrow> string \<Rightarrow> (PolicyError, Policy) result" where
  "load rx toml read path =
     and_then (map_err (\<lambda>e. Io path (io_text e)) (read path)) (parse rx toml)"

definition load_optional ::
  "regex_engine \<Rightarrow> (string \<Rightarrow> (string, Policy) result) \<Rightarrow> (string \<Rightarrow> (io_error, string) result)
    \<Rightarrow> string \<Rightarrow> (PolicyError, Policy option) result" where
  "load_optional rx toml read path = (case read path of
       Inr input \<Rightarrow> and_then (parse rx toml input) (\<lambda>p. Inr (Some p))
     | Inl e \<Rightarrow> if io_kind e = NotFound then Inr None else Inl (Io path (io_text e)))"

subsection \<open>What validation guarantees\<close>

definition canonical_dir :: "string \<Rightarrow> bool" where
  "canonical_dir p \<longleftrightarrow> is_absolute p \<and> \<not> has_dot_segment p"

definition implemented_backend :: "Sandbox option \<Rightarrow> bool" where
  "implemented_backend sb \<longleftrightarrow> sb \<noteq> Some Firejail \<and> sb \<noteq> Some Chroot"

definition agent_wf :: "regex_engine \<Rightarrow> AgentPolicy \<Rightarrow> bool" where
  "agent_wf rx a \<longleftrightarrow>
     list_all canonical_dir (ap_allow_cwd a) \<and> implemented_backend (ap_sandbox a) \<and>
     0 \<notin> Option.these {ap_max_processes a, ap_max_memory_bytes a, ap_max_cpu_seconds a,
                        ap_max_runtime_ms a, ap_max_output_bytes a} \<and>
     list_all (\<lambda>pat. rx pat \<noteq> None) (ap_deny_args_regex a) \<and>
     \<not> list_ex is_blank (ap_allow_tools a) \<and> \<not> list_ex is_blank (ap_allow_commands a)"

definition room_wf :: "regex_engine \<Rightarrow> string \<Rightarrow> RoomPolicy \<Rightarrow> bool" where
  "room_wf rx room_id room \<longleftrightarrow>
     starts_with_str room_id ''!'' \<and>
     list_all (\<lambda>u. starts_with_str u ''@'') (rp_approvers room) \<and>
     list_all (\<lambda>(u, a). starts_with_str u ''@'' \<and> agent_wf rx a) (rp_agents room)"

definition policy_wf :: "regex_engine \<Rightarrow> Policy \<Rightarrow> bool" where
  "policy_wf rx p \<longleftrightarrow>
     list_all canonical_dir (ex_read_only_paths (execution p)) \<and>
     list_all canonical_dir (ex_writable_paths (execution p)) \<and>
     implemented_backend (ex_default_sandbox (execution p)) \<and>
     0 \<notin> Option.these {ex_max_processes (execution p), ex_max_memory_bytes (execution p),
                        ex_max_cpu_seconds (execution p)} \<and>
     \<not> list_ex is_blank (ex_env_allowlist (execution p)) \<and>
     list_all (\<lambda>(r, room). room_wf rx r room) (rooms p)"

lemma enumerate_ok:
  "(\<forall>x\<in>set (List.enumerate n xs). P (snd x)) \<longleftrightarrow> list_all P xs"
  by (induction xs arbitrary: n) auto

lemma find_enumerate_None:
  "find (\<lambda>(i, x). P x) (List.enumerate n xs) = None \<longleftrightarrow> \<not> list_ex P xs"
  by (induction xs arbitrary: n) auto

lemma find_None_list_ex: "find P xs = None \<longleftrightarrow> \<not> list_ex P xs"
  by (auto simp: find_None_iff list_ex_iff)

lemma these_notin: "x \<notin> Option.these A \<longleftrightarrow> Some x \<notin> A"
  by (auto simp: in_these_eq)

lemma validate_paths_ok [mx_defs]:
  "validate_paths pre ps = Inr u \<longleftrightarrow> list_all canonical_dir ps"
proof -
  have "validate_paths pre ps = Inr u \<longleftrightarrow>
      (\<forall>x\<in>set (List.enumerate 0 ps). canonical_dir (snd x))"
    by (auto simp: validate_paths_def canonical_dir_def split: if_splits)
  then show ?thesis
    by (simp add: enumerate_ok)
qed

lemma validate_sandbox_ok [mx_defs]:
  "validate_sandbox path sb = Inr u \<longleftrightarrow> implemented_backend sb"
  by (auto simp: validate_sandbox_def implemented_backend_def split: option.splits Sandbox.splits)

lemma validate_resource_caps_ok [mx_defs]:
  "validate_resource_caps pre a b c = Inr u \<longleftrightarrow> 0 \<notin> Option.these {a, b, c}"
  by (auto simp: validate_resource_caps_def these_notin split: if_splits)

lemma find_guard_ok [mx_defs]:
  "(case find P xs of Some x \<Rightarrow> Inl (f x) | None \<Rightarrow> Inr ()) = Inr u \<longleftrightarrow> \<not> list_ex P xs"
  by (auto simp: find_None_list_ex [symmetric] split: option.splits)

lemma enumerate_guard_ok [mx_defs]:
  "(\<forall>x\<in>set (List.enumerate n xs). (case x of (i, y) \<Rightarrow> guard_err (bad y) (e i y)) = Inr ()) \<longleftrightarrow>
   list_all (\<lambda>y. \<not> bad y) xs"
  by (induction xs arbitrary: n) auto

lemma validate_agent_ok [mx_defs]:
  "validate_agent rx pre a = Inr u \<longleftrightarrow> agent_wf rx a"
  unfolding validate_agent_def agent_wf_def these_notin
  by (auto simp: validate_paths_ok validate_sandbox_ok validate_resource_caps_ok find_guard_ok
      enumerate_guard_ok these_notin simp del: not_None_eq split: if_splits)

lemma validate_room_ok [mx_defs]:
  "validate_room rx r room = Inr u \<longleftrightarrow> room_wf rx r room"
  unfolding validate_room_def room_wf_def Let_def
  by (auto simp: validate_agent_ok enumerate_guard_ok list_all_iff split: if_splits prod.splits)

lemma env_allowlist_ok:
  "(case find (\<lambda>(_, name). is_blank name) (List.enumerate 0 xs) of
      Some (idx, _) \<Rightarrow> Inl (f idx) | None \<Rightarrow> Inr ()) = Inr u \<longleftrightarrow> \<not> list_ex is_blank xs"
  by (auto simp: find_enumerate_None [of is_blank 0, symmetric] split: option.splits)

theorem validate_ok: "validate rx p = Inr u \<longleftrightarrow> policy_wf rx p"
  unfolding validate_def policy_wf_def Let_def
  by (simp add: validate_paths_ok validate_sandbox_ok validate_resource_caps_ok env_allowlist_ok
      validate_room_ok list_all_iff split_beta)

end
