(* ===== verification/Policy_Engine.thy ===== *)
theory Policy_Engine
  imports Policy_File
begin

text \<open>
  The decision engine of \<open>crates/mx-agent-policy/src/engine.rs\<close>: \<open>evaluate_exec\<close> and
  \<open>evaluate_call\<close> with their gates in the order of the code, the resolved \<open>Allowance\<close>, and
  the helpers on commands, working directories and deny patterns. The regular expression engine is
  the parameter \<open>rx\<close> of \<open>Policy_File\<close>.
\<close>

subsection \<open>Data\<close>

record Allowance =
  al_max_runtime_ms :: "u64 option"
  al_max_output_bytes :: "u64 option"
  al_sandbox :: "Sandbox option"
  al_network :: "NetworkPolicy option"
  al_requires_approval :: bool
  al_env_allowlist :: "string list"
  al_read_only_paths :: "string list"
  al_writable_paths :: "string list"
  al_require_verified_device :: bool
  al_container_image :: "string option"
  al_max_processes :: "u64 option"
  al_max_memory_bytes :: "u64 option"
  al_max_cpu_seconds :: "u64 option"
  al_seccomp :: Seccomp
  al_require_sandbox :: bool

definition default_allowance :: Allowance where
  "default_allowance = \<lparr>
     al_max_runtime_ms = None, al_max_output_bytes = None, al_sandbox = None, al_network = None,
     al_requires_approval = False, al_env_allowlist = [], al_read_only_paths = [],
     al_writable_paths = [], al_require_verified_device = False, al_container_image = None,
     al_max_processes = None, al_max_memory_bytes = None, al_max_cpu_seconds = None,
     al_seccomp = SeccompOff, al_require_sandbox = False \<rparr>"

datatype DenyReason =
    UnknownRoom
  | UntrustedRoom
  | UnknownAgent
  | EmptyCommand
  | ExecNotAllowed
  | CommandNotAllowed string
  | CwdNotAllowed string
  | DeniedArguments string
  | ToolNotAllowed string

datatype Outcome = Allow Allowance | Deny DenyReason

fun is_allowed :: "Outcome \<Rightarrow> bool" where
  "is_allowed (Allow _) = True"
| "is_allowed (Deny _) = False"

fun is_denied :: "Outcome \<Rightarrow> bool" where
  "is_denied (Allow _) = False"
| "is_denied (Deny _) = True"

fun allowance :: "Outcome \<Rightarrow> Allowance option" where
  "allowance (Allow a) = Some a"
| "allowance (Deny _) = None"

fun deny_reason :: "Outcome \<Rightarrow> DenyReason option" where
  "deny_reason (Allow _) = None"
| "deny_reason (Deny r) = Some r"

record ExecContext =
  ec_room_id :: string
  ec_requesting_agent :: string
  ec_command :: "string list"
  ec_cwd :: string

record CallContext =
  cc_room_id :: string
  cc_requesting_agent :: string
  cc_tool :: string

subsection \<open>Operations\<close>

definition basename :: "string \<Rightarrow> string" where
  "basename s = unwrap_or (file_name s) s"

definition command_allowed :: "string \<Rightarrow> string list \<Rightarrow> bool" where
  "command_allowed program allow_commands =
     (let program_base = basename program in
      list_ex (\<lambda>allowed. allowed = program \<or> basename allowed = program_base) allow_commands)"

definition cwd_allowed :: "string \<Rightarrow> string list \<Rightarrow> bool" where
  "cwd_allowed cwd allow_cwd =
     (if \<not> is_absolute cwd then False
      else if list_ex (\<lambda>seg. seg = ''..'' \<or> seg = ''.'') (split_on slash cwd) then False
      else list_ex (\<lambda>allowed. path_starts_with cwd allowed) allow_cwd)"

primrec first_deny :: "regex_engine \<Rightarrow> string \<Rightarrow> string list \<Rightarrow> string list \<Rightarrow> string option" where
  "first_deny rx joined command [] = None"
| "first_deny rx joined command (pat # pats) = (case rx pat of
       None \<Rightarrow> Some pat
     | Some re \<Rightarrow>
        if re joined \<or> list_ex re command then Some pat else first_deny rx joined command pats)"

definition matched_deny_pattern ::
  "regex_engine \<Rightarrow> string list \<Rightarrow> string list \<Rightarrow> string option" where
  "matched_deny_pattern rx command deny_args_regex =
     (if deny_args_regex = [] then None
      else first_deny rx (join_with '' '' command) command deny_args_regex)"

definition lookup ::
  "Policy \<Rightarrow> string \<Rightarrow> string \<Rightarrow> (DenyReason, RoomPolicy \<times> AgentPolicy) result" where
  "lookup p room_id agent_id =
     and_then (ok_or (bm_get (rooms p) room_id) UnknownRoom) (\<lambda>room.
     and_then (ok_or (bm_get (rp_agents room) agent_id) UnknownAgent) (\<lambda>agent.
     Inr (room, agent)))"

definition allowance_for :: "Policy \<Rightarrow> RoomPolicy \<Rightarrow> AgentPolicy \<Rightarrow> Allowance" where
  "allowance_for p room agent = \<lparr>
     al_max_runtime_ms = ap_max_runtime_ms agent,
     al_max_output_bytes = ap_max_output_bytes agent,
     al_sandbox = or_opt (ap_sandbox agent) (ex_default_sandbox (execution p)),
     al_network = or_opt (ap_network agent) (ex_network (execution p)),
     al_requires_approval = ap_requires_approval agent,
     al_env_allowlist = ex_env_allowlist (execution p),
     al_read_only_paths = ex_read_only_paths (execution p),
     al_writable_paths = ex_writable_paths (execution p),
     al_require_verified_device = (rp_require_verified_device room \<or> ap_require_verified_device agent),
     al_container_image = ex_container_image (execution p),
     al_max_processes = or_opt (ap_max_processes agent) (ex_max_processes (execution p)),
     al_max_memory_bytes = or_opt (ap_max_memory_bytes agent) (ex_max_memory_bytes (execution p)),
     al_max_cpu_seconds = or_opt (ap_max_cpu_seconds agent) (ex_max_cpu_seconds (execution p)),
     al_seccomp = unwrap_or (ap_seccomp agent) (ex_seccomp (execution p)),
     al_require_sandbox = ex_require_sandbox (execution p) \<rparr>"

definition execution_allowance :: "Policy \<Rightarrow> Allowance" where
  "execution_allowance p = default_allowance \<lparr>
     al_sandbox := ex_default_sandbox (execution p),
     al_network := ex_network (execution p),
     al_env_allowlist := ex_env_allowlist (execution p),
     al_read_only_paths := ex_read_only_paths (execution p),
     al_writable_paths := ex_writable_paths (execution p),
     al_container_image := ex_container_image (execution p),
     al_max_processes := ex_max_processes (execution p),
     al_max_memory_bytes := ex_max_memory_bytes (execution p),
     al_max_cpu_seconds := ex_max_cpu_seconds (execution p),
     al_seccomp := ex_seccomp (execution p),
     al_require_sandbox := ex_require_sandbox (execution p) \<rparr>"

definition evaluate_exec :: "regex_engine \<Rightarrow> Policy \<Rightarrow> ExecContext \<Rightarrow> Outcome" where
  "evaluate_exec rx p ctx = (case lookup p (ec_room_id ctx) (ec_requesting_agent ctx) of
       Inl reason \<Rightarrow> Deny reason
     | Inr (room, agent) \<Rightarrow>
        (case ec_command ctx of
           [] \<Rightarrow> Deny EmptyCommand
         | program # _ \<Rightarrow>
            let exec_allowed = (ap_allow_exec agent \<or> rp_raw_exec_default room = Some RawAllow) in
            if \<not> exec_allowed then Deny ExecNotAllowed
            else if \<not> rp_trusted room then Deny UntrustedRoom
            else if \<not> command_allowed program (ap_allow_commands agent)
            then Deny (CommandNotAllowed program)
            else if \<not> cwd_allowed (ec_cwd ctx) (ap_allow_cwd agent)
            then Deny (CwdNotAllowed (ec_cwd ctx))
            else (case matched_deny_pattern rx (ec_command ctx) (ap_deny_args_regex agent) of
                    Some pat \<Rightarrow> Deny (DeniedArguments pat)
                  | None \<Rightarrow> Allow (allowance_for p room agent))))"

definition evaluate_call :: "Policy \<Rightarrow> CallContext \<Rightarrow> Outcome" where
  "evaluate_call p ctx = (case lookup p (cc_room_id ctx) (cc_requesting_agent ctx) of
       Inl reason \<Rightarrow> Deny reason
     | Inr (room, agent) \<Rightarrow>
        if \<not> list_ex (\<lambda>t. t = cc_tool ctx) (ap_allow_tools agent)
        then Deny (ToolNotAllowed (cc_tool ctx))
        else Allow (allowance_for p room agent))"

subsection \<open>Reference notions\<close>

text \<open>No deny pattern matches an argument or the joined command line, and all of them compile.\<close>

definition deny_patterns_clear :: "regex_engine \<Rightarrow> string list \<Rightarrow> string list \<Rightarrow> bool" where
  "deny_patterns_clear rx command pats =
     list_all (\<lambda>pat. case rx pat of
         None \<Rightarrow> False
       | Some re \<Rightarrow> \<not> re (join_with '' '' command) \<and> list_all (\<lambda>arg. \<not> re arg) command) pats"

text \<open>\<open>agent_tightens a b\<close>: rule \<open>a\<close> grants no more than rule \<open>b\<close>.\<close>

definition agent_tightens :: "AgentPolicy \<Rightarrow> AgentPolicy \<Rightarrow> bool" where
  "agent_tightens a b \<longleftrightarrow>
     (ap_allow_exec a \<le> ap_allow_exec b) \<and>
     set (ap_allow_tools a) \<subseteq> set (ap_allow_tools b) \<and>
     set (ap_allow_commands a) \<subseteq> set (ap_allow_commands b) \<and>
     set (ap_allow_cwd a) \<subseteq> set (ap_allow_cwd b) \<and>
     set (ap_deny_args_regex b) \<subseteq> set (ap_deny_args_regex a)"

definition room_tightens :: "RoomPolicy \<Rightarrow> RoomPolicy \<Rightarrow> bool" where
  "room_tightens a b \<longleftrightarrow>
     (rp_trusted a \<le> rp_trusted b) \<and>
     ((rp_raw_exec_default a = Some RawAllow) \<le> (rp_raw_exec_default b = Some RawAllow)) \<and>
     list_all (\<lambda>(u, x). case bm_get (rp_agents b) u of None \<Rightarrow> False | Some y \<Rightarrow> agent_tightens x y)
       (rp_agents a)"

definition policy_tightens :: "Policy \<Rightarrow> Policy \<Rightarrow> bool" where
  "policy_tightens p q \<longleftrightarrow>
     list_all (\<lambda>(r, x). case bm_get (rooms q) r of None \<Rightarrow> False | Some y \<Rightarrow> room_tightens x y)
       (rooms p)"

subsection \<open>Lemmas\<close>

lemma lookup_ok [simp]:
  "lookup p r u = Inr (room, agent) \<longleftrightarrow>
   bm_get (rooms p) r = Some room \<and> bm_get (rp_agents room) u = Some agent"
  by (auto simp: lookup_def)

lemma lookup_err [simp]:
  "lookup p r u = Inl e \<longleftrightarrow>
   bm_get (rooms p) r = None \<and> e = UnknownRoom \<or>
   (\<exists>room. bm_get (rooms p) r = Some room \<and> bm_get (rp_agents room) u = None \<and> e = UnknownAgent)"
  by (cases "bm_get (rooms p) r"; cases "bm_get (rp_agents (the (bm_get (rooms p) r))) u")
    (auto simp: lookup_def)

lemma is_allowed_iff: "is_allowed x \<longleftrightarrow> (\<exists>a. x = Allow a)"
  by (cases x) auto

lemma first_deny_None:
  "first_deny rx joined command pats = None \<longleftrightarrow>
   list_all (\<lambda>pat. case rx pat of None \<Rightarrow> False
     | Some re \<Rightarrow> \<not> re joined \<and> list_all (\<lambda>arg. \<not> re arg) command) pats"
  by (induction pats) (auto simp: list_ex_iff list_all_iff split: option.splits)

lemma matched_deny_pattern_None:
  "matched_deny_pattern rx command pats = None \<longleftrightarrow> deny_patterns_clear rx command pats"
  by (auto simp: matched_deny_pattern_def deny_patterns_clear_def first_deny_None)

lemma deny_patterns_clear_mono:
  "deny_patterns_clear rx command pats \<Longrightarrow> set qs \<subseteq> set pats \<Longrightarrow> deny_patterns_clear rx command qs"
  by (auto simp: deny_patterns_clear_def list_all_iff)

lemma command_allowed_mono:
  "command_allowed c xs \<Longrightarrow> set xs \<subseteq> set ys \<Longrightarrow> command_allowed c ys"
  by (auto simp: command_allowed_def list_ex_iff)

lemma cwd_allowed_mono: "cwd_allowed c xs \<Longrightarrow> set xs \<subseteq> set ys \<Longrightarrow> cwd_allowed c ys"
  by (auto simp: cwd_allowed_def list_ex_iff split: if_splits)

lemma evaluate_exec_Allow:
  "evaluate_exec rx p ctx = Allow a \<longleftrightarrow>
   (\<exists>room agent program args.
      bm_get (rooms p) (ec_room_id ctx) = Some room \<and>
      bm_get (rp_agents room) (ec_requesting_agent ctx) = Some agent \<and>
      ec_command ctx = program # args \<and>
      (ap_allow_exec agent \<or> rp_raw_exec_default room = Some RawAllow) \<and>
      rp_trusted room \<and>
      command_allowed program (ap_allow_commands agent) \<and>
      cwd_allowed (ec_cwd ctx) (ap_allow_cwd agent) \<and>
      deny_patterns_clear rx (ec_command ctx) (ap_deny_args_regex agent) \<and>
      a = allowance_for p room agent)"
  unfolding evaluate_exec_def
  by (auto simp: Let_def matched_deny_pattern_None [symmetric]
      split: sum.splits list.splits if_splits option.splits)

lemma evaluate_call_Allow:
  "evaluate_call p ctx = Allow a \<longleftrightarrow>
   (\<exists>room agent.
      bm_get (rooms p) (cc_room_id ctx) = Some room \<and>
      bm_get (rp_agents room) (cc_requesting_agent ctx) = Some agent \<and>
      cc_tool ctx \<in> set (ap_allow_tools agent) \<and> a = allowance_for p room agent)"
  unfolding evaluate_call_def
  by (auto simp: list_ex_iff split: sum.splits if_splits)

lemma policy_tightensD:
  assumes "policy_tightens p q" "bm_get (rooms p) r = Some room" "bm_get (rp_agents room) u = Some agent"
  obtains room' agent' where "bm_get (rooms q) r = Some room'" "bm_get (rp_agents room') u = Some agent'"
    "room_tightens room room'" "agent_tightens agent agent'"
proof -
  obtain room' where r: "bm_get (rooms q) r = Some room'" "room_tightens room room'"
    using assms(1) bm_get_in [OF assms(2)]
    by (fastforce simp: policy_tightens_def list_all_iff split: option.splits)
  then obtain agent' where "bm_get (rp_agents room') u = Some agent'" "agent_tightens agent agent'"
    using bm_get_in [OF assms(3)]
    by (fastforce simp: room_tightens_def list_all_iff split: option.splits)
  with r show thesis
    by (rule_tac that)
qed

lemma policy_wf_entry:
  assumes "policy_wf rx p" "bm_get (rooms p) r = Some room" "bm_get (rp_agents room) u = Some agent"
  shows "room_wf rx r room" "agent_wf rx agent" "starts_with_str u ''@''"
  using assms bm_get_in [OF assms(2)] bm_get_in [OF assms(3)]
  by (fastforce simp: policy_wf_def room_wf_def list_all_iff)+

lemma or_opt_these: "Some x \<noteq> a \<Longrightarrow> Some x \<noteq> b \<Longrightarrow> or_opt a b \<noteq> Some x"
  by (cases a) auto

lemma file_name_Some:
  assumes "file_name s = Some n"
  shows "n \<noteq> [] \<and> n \<noteq> ''.'' \<and> n \<noteq> ''..'' \<and> slash \<notin> set n"
proof -
  obtain cs where "rev (components s) = Normal n # cs"
    using assms by (auto simp: file_name_def split: list.splits component.splits)
  then have "Normal n \<in> set (components s)"
    by (metis list.set_intros(1) set_rev)
  then show ?thesis
    by (auto simp: components_def Let_def seg_component_def dest: split_on_no_sep split: if_splits)
qed

lemma basename_idem [simp]: "basename (basename s) = basename s"
proof (cases "file_name s")
  case (Some n)
  have "split_on slash n = [n]" "\<not> is_absolute n"
    using file_name_Some [OF Some] by (auto simp: split_on_single is_absolute_def split: list.splits)
  then have "file_name n = Some n"
    using file_name_Some [OF Some] by (simp add: file_name_def components_def seg_component_def)
  with Some show ?thesis
    by (simp add: basename_def)
qed (simp add: basename_def)

lemma command_allowed_basename:
  "command_allowed program allow \<longleftrightarrow> basename program \<in> basename ` set allow"
  unfolding command_allowed_def Let_def list_ex_iff image_iff by metis

lemma cwd_allowed_inside:
  assumes "list_all canonical_dir allow"
  shows "cwd_allowed cwd allow \<longleftrightarrow>
    canonical_dir cwd \<and> list_ex (\<lambda>d. prefix (resolve d) (resolve cwd)) allow"
  using assms path_starts_with_iff_inside [of cwd]
  by (auto simp: cwd_allowed_def canonical_dir_def has_dot_segment_def list_all_iff list_ex_iff)

subsection \<open>Properties\<close>

text \<open>A policy with one room and one agent rule, and a regular expression engine that finds its
  pattern as a literal, for the witnesses.\<close>

definition demo_rx :: regex_engine where
  "demo_rx pat = Some (\<lambda>s. sublist pat s)"

definition demo_agent :: AgentPolicy where
  "demo_agent = default_agent_policy \<lparr> ap_allow_exec := True, ap_allow_tools := [''run_tests''],
     ap_allow_commands := [''git'', ''/usr/bin/make''], ap_allow_cwd := [''/srv/project''],
     ap_deny_args_regex := [''--force''], ap_max_runtime_ms := Some 60000 \<rparr>"

definition demo_room :: RoomPolicy where
  "demo_room = \<lparr> rp_trusted = True, rp_raw_exec_default = None, rp_require_verified_device = False,
     rp_approvers = [''@op:x''], rp_agents = [(''@a:x'', demo_agent)] \<rparr>"

definition demo_policy :: Policy where
  "demo_policy = \<lparr> execution = default_execution_policy \<lparr> ex_default_sandbox := Some Bubblewrap \<rparr>,
     rooms = [(''!r:x'', demo_room)] \<rparr>"

definition demo_wider_policy :: Policy where
  "demo_wider_policy = demo_policy \<lparr> rooms := [(''!r:x'', demo_room \<lparr> rp_agents :=
     [(''@a:x'', demo_agent \<lparr> ap_allow_cwd := [''/opt'', ''/srv/project''], ap_deny_args_regex := [] \<rparr>),
      (''@b:x'', default_agent_policy)] \<rparr>)] \<rparr>"

definition demo_ctx :: ExecContext where
  "demo_ctx = \<lparr> ec_room_id = ''!r:x'', ec_requesting_agent = ''@a:x'',
     ec_command = [''/bin/git'', ''status''], ec_cwd = ''/srv/project/sub'' \<rparr>"

lemmas demo_defs = demo_rx_def demo_agent_def demo_room_def demo_policy_def demo_ctx_def
  default_agent_policy_def default_execution_policy_def

lemma demo_policy_valid: "validate demo_rx demo_policy = Inr ()"
  by code_simp

text \<open>C2. Decision of a raw exec request under a validated policy. The engine allows a request,
  with the limits resolved from the rule, exactly when the room and the agent have a rule, the
  argument vector is not empty, raw exec is enabled by the rule or by the room, the room is trusted,
  the base name of the program is the base name of an allowlisted command, the working directory is
  absolute and free of dot segments and lies inside an allowlisted directory when both are walked
  from the root, and every deny pattern compiles and matches neither the joined command line nor a
  single argument.\<close>

theorem evaluate_exec_spec:
  assumes "validate rx p = Inr ()"
  shows "evaluate_exec rx p ctx = Allow a \<longleftrightarrow>
   (\<exists>room agent.
      bm_get (rooms p) (ec_room_id ctx) = Some room \<and>
      bm_get (rp_agents room) (ec_requesting_agent ctx) = Some agent \<and>
      ec_command ctx \<noteq> [] \<and>
      (ap_allow_exec agent \<or> rp_raw_exec_default room = Some RawAllow) \<and> rp_trusted room \<and>
      basename (hd (ec_command ctx)) \<in> basename ` set (ap_allow_commands agent) \<and>
      canonical_dir (ec_cwd ctx) \<and>
      list_ex (\<lambda>d. prefix (resolve d) (resolve (ec_cwd ctx))) (ap_allow_cwd agent) \<and>
      deny_patterns_clear rx (ec_command ctx) (ap_deny_args_regex agent) \<and>
      a = allowance_for p room agent)"
proof -
  have wf: "policy_wf rx p"
    using assms by (simp add: validate_ok)
  have cwd: "list_all canonical_dir (ap_allow_cwd agent)"
    if "bm_get (rooms p) (ec_room_id ctx) = Some room"
      "bm_get (rp_agents room) (ec_requesting_agent ctx) = Some agent" for room agent
    using policy_wf_entry(2) [OF wf that] by (simp add: agent_wf_def)
  show ?thesis
    unfolding evaluate_exec_Allow
    by (intro iff_exI) (auto simp: command_allowed_basename cwd_allowed_inside [OF cwd] neq_Nil_conv)
qed

theorem evaluate_exec_spec_witness:
  "evaluate_exec demo_rx demo_policy demo_ctx = Allow (allowance_for demo_policy demo_room demo_agent)"
proof -
  have "bm_get (rooms demo_policy) (ec_room_id demo_ctx) = Some demo_room"
    "bm_get (rp_agents demo_room) (ec_requesting_agent demo_ctx) = Some demo_agent"
    by (simp_all add: demo_defs bm_get_def)
  moreover have "ap_allow_exec demo_agent" "rp_trusted demo_room" "ec_command demo_ctx \<noteq> []"
    by (simp_all add: demo_defs)
  moreover have "basename (hd (ec_command demo_ctx)) \<in> basename ` set (ap_allow_commands demo_agent)"
    "canonical_dir (ec_cwd demo_ctx)"
    "list_ex (\<lambda>d. prefix (resolve d) (resolve (ec_cwd demo_ctx))) (ap_allow_cwd demo_agent)"
    "deny_patterns_clear demo_rx (ec_command demo_ctx) (ap_deny_args_regex demo_agent)"
    by code_simp+
  ultimately show ?thesis
    by (intro iffD2 [OF evaluate_exec_spec [OF demo_policy_valid]]) blast
qed

text \<open>What every permitted request inherits from validation. Under a validated policy an
  allowance never selects a sandbox backend that is not implemented, never carries a zero limit,
  binds only absolute canonical paths, and was granted by a well-formed room and user id.\<close>

theorem validated_allowance_safe:
  assumes "validate rx p = Inr ()"
    and "evaluate_exec rx p ec = Allow a \<or> evaluate_call p cc = Allow a \<and>
      ec_room_id ec = cc_room_id cc \<and> ec_requesting_agent ec = cc_requesting_agent cc"
  shows "implemented_backend (al_sandbox a) \<and>
    0 \<notin> Option.these {al_max_runtime_ms a, al_max_output_bytes a, al_max_processes a,
      al_max_memory_bytes a, al_max_cpu_seconds a} \<and>
    list_all canonical_dir (al_read_only_paths a @ al_writable_paths a) \<and>
    starts_with_str (ec_room_id ec) ''!'' \<and> starts_with_str (ec_requesting_agent ec) ''@''"
proof -
  have wf: "policy_wf rx p"
    using assms(1) by (simp add: validate_ok)
  obtain room agent where ra: "bm_get (rooms p) (ec_room_id ec) = Some room"
    "bm_get (rp_agents room) (ec_requesting_agent ec) = Some agent" and a: "a = allowance_for p room agent"
    using assms(2) by (auto simp: evaluate_exec_Allow evaluate_call_Allow)
  note entry = policy_wf_entry [OF wf ra]
  have "implemented_backend (al_sandbox a)"
    using wf entry(2)
    by (auto simp: a allowance_for_def policy_wf_def agent_wf_def implemented_backend_def or_opt_eq_Some)
  moreover have "0 \<notin> Option.these {al_max_runtime_ms a, al_max_output_bytes a, al_max_processes a,
      al_max_memory_bytes a, al_max_cpu_seconds a}"
    using wf entry(2)
    by (auto simp: a allowance_for_def policy_wf_def agent_wf_def these_notin
        dest!: or_opt_eq_Some [THEN iffD1, OF sym])
  moreover have "list_all canonical_dir (al_read_only_paths a @ al_writable_paths a)"
    using wf by (simp add: a allowance_for_def policy_wf_def)
  ultimately show ?thesis
    using entry by (simp add: room_wf_def)
qed

theorem validated_allowance_safe_witness:
  "implemented_backend (al_sandbox (allowance_for demo_policy demo_room demo_agent))"
proof -
  let ?cc = "\<lparr> cc_room_id = ''!r:x'', cc_requesting_agent = ''@a:x'', cc_tool = ''run_tests'' \<rparr>"
  have "evaluate_call demo_policy ?cc = Allow (allowance_for demo_policy demo_room demo_agent)"
    by (simp add: evaluate_call_Allow demo_defs bm_get_def)
  then have "evaluate_exec demo_rx demo_policy demo_ctx = Allow (allowance_for demo_policy demo_room demo_agent)
    \<or> evaluate_call demo_policy ?cc = Allow (allowance_for demo_policy demo_room demo_agent) \<and>
      ec_room_id demo_ctx = cc_room_id ?cc \<and> ec_requesting_agent demo_ctx = cc_requesting_agent ?cc"
    by (simp add: demo_ctx_def)
  then show ?thesis
    using validated_allowance_safe [OF demo_policy_valid] by blast
qed

text \<open>C15. Tightening a policy never grants. When every rule of policy p has a counterpart in q
  that trusts the room at least as much, enables raw exec and allowlists tools, commands and
  directories at least as widely and denies no more patterns, each exec or call that p permits is
  permitted by q; so removing rules, allowlist entries or trust, or adding deny patterns, can only
  turn permissions into denials.\<close>

theorem tighter_policy_permits_less:
  assumes "policy_tightens p q"
  shows "(is_allowed (evaluate_exec rx p ec) \<le> is_allowed (evaluate_exec rx q ec)) \<and>
    (is_allowed (evaluate_call p cc) \<le> is_allowed (evaluate_call q cc))"
proof -
  have "is_allowed (evaluate_exec rx q ec)" if allowed: "is_allowed (evaluate_exec rx p ec)"
  proof -
    obtain room agent program args where
      g: "bm_get (rooms p) (ec_room_id ec) = Some room"
      "bm_get (rp_agents room) (ec_requesting_agent ec) = Some agent"
      and c: "ec_command ec = program # args"
      "ap_allow_exec agent \<or> rp_raw_exec_default room = Some RawAllow" "rp_trusted room"
      "command_allowed program (ap_allow_commands agent)" "cwd_allowed (ec_cwd ec) (ap_allow_cwd agent)"
      "deny_patterns_clear rx (ec_command ec) (ap_deny_args_regex agent)"
      using allowed unfolding is_allowed_iff evaluate_exec_Allow by blast
    obtain room' agent' where g': "bm_get (rooms q) (ec_room_id ec) = Some room'"
      "bm_get (rp_agents room') (ec_requesting_agent ec) = Some agent'"
      and t: "room_tightens room room'" "agent_tightens agent agent'"
      using policy_tightensD [OF assms g] .
    have "ap_allow_exec agent' \<or> rp_raw_exec_default room' = Some RawAllow" "rp_trusted room'"
      "command_allowed program (ap_allow_commands agent')" "cwd_allowed (ec_cwd ec) (ap_allow_cwd agent')"
      "deny_patterns_clear rx (ec_command ec) (ap_deny_args_regex agent')"
      using c t unfolding room_tightens_def agent_tightens_def
      by (auto intro: command_allowed_mono cwd_allowed_mono deny_patterns_clear_mono)
    with g' c(1) show ?thesis
      unfolding is_allowed_iff evaluate_exec_Allow by blast
  qed
  moreover have "is_allowed (evaluate_call q cc)" if allowed: "is_allowed (evaluate_call p cc)"
  proof -
    obtain room agent where g: "bm_get (rooms p) (cc_room_id cc) = Some room"
      "bm_get (rp_agents room) (cc_requesting_agent cc) = Some agent"
      "cc_tool cc \<in> set (ap_allow_tools agent)"
      using allowed unfolding is_allowed_iff evaluate_call_Allow by blast
    show ?thesis
      using policy_tightensD [OF assms g(1,2)] g(3)
      unfolding is_allowed_iff evaluate_call_Allow agent_tightens_def by (metis subsetD)
  qed
  ultimately show ?thesis
    by auto
qed

theorem tighter_policy_permits_less_witness:
  "policy_tightens demo_policy demo_wider_policy \<and>
   is_allowed (evaluate_exec demo_rx demo_wider_policy demo_ctx)"
proof -
  have t: "policy_tightens demo_policy demo_wider_policy"
    "is_allowed (evaluate_exec demo_rx demo_policy demo_ctx)"
    by code_simp+
  show ?thesis
    using t tighter_policy_permits_less [OF t(1), of demo_rx demo_ctx] by simp
qed

end
