(* ===== verification/Rfc3339.thy ===== *)
theory Rfc3339
  imports Mx_Prelude
begin

text \<open>
  Timestamps. \<open>unix_to_rfc3339\<close> is the formatter the daemon carries in \<open>approval.rs\<close>,
  \<open>task.rs\<close>, \<open>task_orchestrator.rs\<close> and \<open>invocation.rs\<close> (the same function body in each);
  \<open>parse_rfc3339_to_unix\<close> and \<open>days_from_civil\<close> are those of \<open>replay.rs\<close>. Days are
  counted against the reference \<open>next_date\<close>, the Gregorian successor of a date. The text is
  read by bytes: a slice that cuts a multi-byte character and a slice that holds one both make the
  parser return \<open>None\<close>, so the byte view loses nothing. All intermediate values stay far below
  the 64 bit range (a year has four characters when parsed, at most twelve digits when printed),
  so they are integers here.
\<close>

subsection \<open>Decimal numbers\<close>

function dec :: "nat \<Rightarrow> string" where
  "dec n = (if n < 10 then [char_of (48 + n)] else dec (n div 10) @ [char_of (48 + n mod 10)])"
  by pat_completeness auto
termination by (relation "measure id") auto

declare dec.simps [simp del]

text \<open>\<open>{n:0w}\<close> for a non-negative number.\<close>

definition pad0 :: "nat \<Rightarrow> nat \<Rightarrow> string" where
  "pad0 w n = replicate (w - length (dec n)) (CHR ''0'') @ dec n"

definition is_digit :: "char \<Rightarrow> bool" where
  "is_digit c \<longleftrightarrow> 48 \<le> (of_char c :: nat) \<and> (of_char c :: nat) \<le> 57"

definition digit_val :: "char \<Rightarrow> nat" where
  "digit_val c = of_char c - 48"

definition parse_digits :: "string \<Rightarrow> nat option" where
  "parse_digits s =
     (if s \<noteq> [] \<and> list_all is_digit s then Some (foldl (\<lambda>a c. 10 * a + digit_val c) 0 s) else None)"

text \<open>\<open>str::parse::<i64>\<close>: an optional sign and digits, in range.\<close>

definition parse_i64 :: "string \<Rightarrow> int option" where
  "parse_i64 s = (case s of
       [] \<Rightarrow> None
     | c # r \<Rightarrow>
       (let v = (if c = CHR ''-'' then map_option (\<lambda>n. - int n) (parse_digits r)
                 else if c = CHR ''+'' then map_option int (parse_digits r)
                 else map_option int (parse_digits s))
        in case v of None \<Rightarrow> None
           | Some i \<Rightarrow> if - (2 ^ 63) \<le> i \<and> i < 2 ^ 63 then Some i else None))"

text \<open>\<open>str::parse::<u32>\<close>: an optional plus sign and digits, in range.\<close>

definition parse_u32 :: "string \<Rightarrow> int option" where
  "parse_u32 s = (case s of
       [] \<Rightarrow> None
     | c # r \<Rightarrow>
       (case parse_digits (if c = CHR ''+'' then r else s) of None \<Rightarrow> None
        | Some n \<Rightarrow> if n < 2 ^ 32 then Some (int n) else None))"

definition get_range :: "nat \<Rightarrow> nat \<Rightarrow> string \<Rightarrow> string option" where
  "get_range a b s = (if a \<le> b \<and> b \<le> length s then Some (take (b - a) (drop a s)) else None)"

subsection \<open>Calendar\<close>

text \<open>The truncating division of Rust on the two branches of the source is floor division here:
  the negative branch subtracts the divisor minus one first.\<close>

definition trunc_div :: "int \<Rightarrow> int \<Rightarrow> int" where
  "trunc_div a b = (if a \<ge> 0 then a div b else - ((- a) div b))"

definition days_from_civil :: "int \<Rightarrow> int \<Rightarrow> int \<Rightarrow> int" where
  "days_from_civil year month day =
     (let y = (if month \<le> 2 then year - 1 else year);
          era = trunc_div (if y \<ge> 0 then y else y - 399) 400;
          yoe = y - era * 400;
          doy = (153 * (if month > 2 then month - 3 else month + 9) + 2) div 5 + day - 1;
          doe = yoe * 365 + yoe div 4 - yoe div 100 + doy
      in era * 146097 + doe - 719468)"

definition civil_from_days :: "int \<Rightarrow> int \<times> int \<times> int" where
  "civil_from_days days =
     (let z = days + 719468;
          era = trunc_div (if z \<ge> 0 then z else z - 146096) 146097;
          doe = z - era * 146097;
          yoe = (doe - doe div 1460 + doe div 36524 - doe div 146096) div 365;
          y = yoe + era * 400;
          doy = doe - (365 * yoe + yoe div 4 - yoe div 100);
          mp = (5 * doy + 2) div 153;
          day = doy - (153 * mp + 2) div 5 + 1;
          month = (if mp < 10 then mp + 3 else mp - 9);
          year = (if month \<le> 2 then y + 1 else y)
      in (year, month, day))"

definition unix_to_rfc3339 :: "u64 \<Rightarrow> string" where
  "unix_to_rfc3339 secs =
     (let days = uint secs div 86400;
          tod = uint secs mod 86400;
          hour = tod div 3600;
          minute = (tod mod 3600) div 60;
          second = tod mod 60
      in case civil_from_days days of (year, month, day) \<Rightarrow>
         pad0 4 (nat year) @ ''-'' @ pad0 2 (nat month) @ ''-'' @ pad0 2 (nat day) @ ''T'' @
         pad0 2 (nat hour) @ '':'' @ pad0 2 (nat minute) @ '':'' @ pad0 2 (nat second) @ ''Z'')"

subsection \<open>Parser\<close>

text \<open>The part after the seconds: an optional fraction, then the zone designator.\<close>

definition skip_fraction :: "string \<Rightarrow> string option" where
  "skip_fraction rest = (case rest of
       [] \<Rightarrow> Some rest
     | c # after_dot \<Rightarrow>
        if c = CHR ''.'' then
          (let digits = length (takeWhile is_digit after_dot) in
           if digits = 0 then None else Some (drop digits after_dot))
        else Some rest)"

definition offset_seconds :: "string \<Rightarrow> int option" where
  "offset_seconds rest = (case rest of
       [] \<Rightarrow> None
     | c # _ \<Rightarrow>
        if c = CHR ''Z'' \<or> c = CHR ''z'' then Some 0
        else if c = CHR ''+'' \<or> c = CHR ''-'' then
          (let sgn = (if c = CHR ''-'' then - 1 else 1) in
           Option.bind (Option.bind (get_range 1 3 rest) parse_i64) (\<lambda>off_hour.
           let mm_start = (if 3 < length rest \<and> rest ! 3 = CHR '':'' then 4 else 3) in
           Option.bind (Option.bind (get_range mm_start (mm_start + 2) rest) parse_i64) (\<lambda>off_min.
           Some (sgn * (off_hour * 3600 + off_min * 60)))))
        else None)"

definition parse_rfc3339_to_unix :: "string \<Rightarrow> int option" where
  "parse_rfc3339_to_unix s =
     (if length s < 20 then None else
      Option.bind (Option.bind (get_range 0 4 s) parse_i64) (\<lambda>year.
      if s ! 4 \<noteq> CHR ''-'' then None else
      Option.bind (Option.bind (get_range 5 7 s) parse_u32) (\<lambda>month.
      if s ! 7 \<noteq> CHR ''-'' then None else
      Option.bind (Option.bind (get_range 8 10 s) parse_u32) (\<lambda>day.
      if s ! 10 \<noteq> CHR ''T'' \<and> s ! 10 \<noteq> CHR ''t'' then None else
      Option.bind (Option.bind (get_range 11 13 s) parse_u32) (\<lambda>hour.
      if s ! 13 \<noteq> CHR '':'' then None else
      Option.bind (Option.bind (get_range 14 16 s) parse_u32) (\<lambda>minute.
      if s ! 16 \<noteq> CHR '':'' then None else
      Option.bind (Option.bind (get_range 17 19 s) parse_u32) (\<lambda>second.
      Option.bind (skip_fraction (drop 19 s)) (\<lambda>rest.
      Option.bind (offset_seconds rest) (\<lambda>offset_secs.
      if \<not> (1 \<le> month \<and> month \<le> 12) \<or> \<not> (1 \<le> day \<and> day \<le> 31) \<or> hour > 23 \<or> minute > 59 \<or> second > 60
      then None
      else Some (days_from_civil year month day * 86400 + hour * 3600 + minute * 60 + second
                 - offset_secs))))))))))"

subsection \<open>Reference calendar\<close>

definition leap_year :: "int \<Rightarrow> bool" where
  "leap_year y \<longleftrightarrow> y mod 4 = 0 \<and> (y mod 100 \<noteq> 0 \<or> y mod 400 = 0)"

definition days_in_month :: "int \<Rightarrow> int \<Rightarrow> int" where
  "days_in_month y m =
     (if m = 2 then (if leap_year y then 29 else 28) else if m \<in> {4, 6, 9, 11} then 30 else 31)"

definition valid_date :: "int \<times> int \<times> int \<Rightarrow> bool" where
  "valid_date = (\<lambda>(y, m, d). 1 \<le> m \<and> m \<le> 12 \<and> 1 \<le> d \<and> d \<le> days_in_month y m)"

definition next_date :: "int \<times> int \<times> int \<Rightarrow> int \<times> int \<times> int" where
  "next_date = (\<lambda>(y, m, d).
     if d < days_in_month y m then (y, m, d + 1)
     else if m < 12 then (y, m + 1, 1) else (y + 1, 1, 1))"

text \<open>Days of the years before \<open>y\<close>, in the numbering of years that start in March.\<close>

definition civil_days :: "int \<Rightarrow> int" where
  "civil_days y = 365 * y + y div 4 - y div 100 + y div 400"

subsection \<open>The calendar algorithms\<close>

lemma trunc_div_floor:
  assumes "b > 0"
  shows "trunc_div (if y \<ge> 0 then y else y - (b - 1)) b = y div b"
proof (cases "y \<ge> 0")
  case False
  have "(b - 1 - y) div b = (b - 1 - y mod b + b * (- (y div b))) div b"
    using minus_mult_div_eq_mod [of y b] by (simp add: algebra_simps)
  also have "\<dots> = - (y div b)"
    using assms pos_mod_bound [of b y] pos_mod_sign [of b y]
    by (subst div_mult_self2) (auto intro!: div_pos_pos_trivial simp del: pos_mod_bound pos_mod_sign)
  finally show ?thesis
    using False assms by (simp add: trunc_div_def)
qed (simp add: trunc_div_def)

lemma era_floor:
  "trunc_div (if y \<ge> 0 then y else y - 399) 400 = y div 400"
  "trunc_div (if z \<ge> 0 then z else z - 146096) 146097 = z div 146097"
  using trunc_div_floor [of 400 y] trunc_div_floor [of 146097 z] by (simp_all split: if_splits)

lemma sub_div_mono:
  assumes "(a::int) \<le> b" "k > 0" shows "a - a div k \<le> b - b div k"
proof -
  have "b \<le> a + k * (b - a)" using assms mult_right_mono [of 1 k "b - a"] by simp
  then have "b div k \<le> (a + k * (b - a)) div k" using assms by (intro zdiv_mono1)
  then show ?thesis using assms by simp
qed

lemma year_days:
  fixes y :: int
  shows "y div 400 * 146097 + ((y - y div 400 * 400) * 365 + (y - y div 400 * 400) div 4
     - (y - y div 400 * 400) div 100) = 365 * y + y div 4 - y div 100 + y div 400"
proof -
  define e r where "e = y div 400" and "r = y mod 400"
  have y: "y = 400 * e + r" "0 \<le> r" "r < 400" by (simp_all add: e_def r_def)
  have "y div 4 = 100 * e + r div 4" "y div 100 = 4 * e + r div 100" using div_mult_self2 [of 4 r "100 * e"] div_mult_self2 [of 100 r "4 * e"]
    by (simp_all add: y(1) add.commute)
  moreover have "y - y div 400 * 400 = r" by (simp add: r_def minus_div_mult_eq_mod)
  ultimately show ?thesis using y by (simp add: e_def [symmetric])
qed

lemma days_from_civil_closed:
  "days_from_civil year month day =
    (let y = (if month \<le> 2 then year - 1 else year) in
     365 * y + y div 4 - y div 100 + y div 400
      + (153 * (if month > 2 then month - 3 else month + 9) + 2) div 5 + day - 719469)"
  using year_days [of "if month \<le> 2 then year - 1 else year"]
  by (simp only: days_from_civil_def Let_def era_floor)

lemma div_pred:
  assumes "(k::int) > 0"
  shows "y div k = (y - 1) div k + (if y mod k = 0 then 1 else 0)"
proof -
  define q r where "q = y div k" and "r = y mod k"
  have y: "y = k * q + r" "0 \<le> r" "r < k" using assms by (simp_all add: q_def r_def)
  show ?thesis
  proof (cases "r = 0")
    case True
    have "(y - 1) div k = (k - 1 + k * (q - 1)) div k" using y True by (simp add: algebra_simps)
    also have "\<dots> = q - 1" using assms by (subst div_mult_self2) auto
    finally show ?thesis using True by (simp add: q_def r_def)
  next
    case False
    have "(y - 1) div k = (r - 1 + k * q) div k" using y by (simp add: algebra_simps)
    also have "\<dots> = q" using assms y False by (subst div_mult_self2) auto
    finally show ?thesis using False by (simp add: q_def r_def)
  qed
qed

lemma leap_shift:
  "y div 4 - y div 100 + y div 400 =
   (y - 1) div 4 - (y - 1) div 100 + (y - 1) div 400 + (if leap_year y then 1 else 0)"
proof -
  have 400: "y mod 400 = 0 \<Longrightarrow> y mod 100 = 0" and 100: "y mod 100 = 0 \<Longrightarrow> y mod 4 = 0"
    using dvd_trans [of 100 400 y] dvd_trans [of 4 100 y] by (simp_all add: mod_eq_0_iff_dvd)
  have p: "y div 4 = (y - 1) div 4 + (if y mod 4 = 0 then 1 else 0)"
    "y div 100 = (y - 1) div 100 + (if y mod 100 = 0 then 1 else 0)"
    "y div 400 = (y - 1) div 400 + (if y mod 400 = 0 then 1 else 0)"
    by (rule div_pred; simp)+
  show ?thesis
    unfolding p leap_year_def using 100 400
    by (cases "y mod 4 = 0"; cases "y mod 100 = 0"; cases "y mod 400 = 0") simp_all
qed

lemma days_next_in_month: "days_from_civil y m (d + 1) = days_from_civil y m d + 1"
  by (simp add: days_from_civil_closed Let_def)

lemma days_next_year: "days_from_civil (y + 1) 1 1 = days_from_civil y 12 31 + 1"
  by (simp add: days_from_civil_closed Let_def)

lemma days_next_month:
  assumes "1 \<le> m" "m < 12"
  shows "days_from_civil y (m + 1) 1 = days_from_civil y m (days_in_month y m) + 1"
proof -
  have "[1..11] = [1, 2, 3, 4, 5, 6, 7, 8, 9, 10, 11 :: int]"
    by code_simp
  moreover have "m \<in> set [1..11]"
    using assms by simp
  ultimately have "m = 1 \<or> m = 2 \<or> m = 3 \<or> m = 4 \<or> m = 5 \<or> m = 6 \<or> m = 7 \<or> m = 8 \<or> m = 9 \<or> m = 10 \<or> m = 11"
    by (simp del: set_upto)
  then consider "m = 2" | "m \<in> {1, 3, 4, 5, 6, 7, 8, 9, 10, 11}"
    by auto
  then show ?thesis
  proof cases
    case 1
    then show ?thesis
      using leap_shift [of y]
      by (cases "leap_year y") (simp_all add: days_from_civil_closed days_in_month_def Let_def algebra_simps)
  next
    case 2
    then show ?thesis
      by (elim insertE) (simp_all add: days_from_civil_closed days_in_month_def Let_def)
  qed
qed

lemma days_from_civil_next_date:
  assumes "valid_date (y, m, d)" "next_date (y, m, d) = (y', m', d')"
  shows "days_from_civil y' m' d' = days_from_civil y m d + 1"
proof -
  have d: "1 \<le> m" "m \<le> 12" "1 \<le> d" "d \<le> days_in_month y m"
    using assms(1) by (simp_all add: valid_date_def)
  consider "d < days_in_month y m" | "d = days_in_month y m" "m < 12" | "d = days_in_month y m" "m = 12"
    using d by linarith
  then show ?thesis
  proof cases
    case 1
    with assms(2) show ?thesis by (auto simp: next_date_def days_next_in_month)
  next
    case 2
    with assms(2) d show ?thesis by (auto simp: next_date_def days_next_month)
  next
    case 3
    then have "d = 31" by (simp add: days_in_month_def)
    with 3 assms(2) show ?thesis by (auto simp: next_date_def days_next_year)
  qed
qed

text \<open>Inside an era, \<open>leap_free doe\<close> is the day number with the leap days taken out.\<close>

definition leap_free :: "int \<Rightarrow> int" where
  "leap_free doe = doe - doe div 1460 + doe div 36524 - doe div 146096"

definition year_start :: "int \<Rightarrow> int" where
  "year_start y = 365 * y + y div 4 - y div 100"

lemma leap_free_mono:
  assumes "a \<le> b" shows "leap_free a \<le> leap_free b"
proof -
  have e: "x div 146096 = (x div 36524) div 4" for x :: int
    by (simp add: zdiv_zmult2_eq [symmetric])
  have "a - a div 1460 \<le> b - b div 1460"
    using assms by (simp add: sub_div_mono)
  moreover have "a div 36524 - a div 146096 \<le> b div 36524 - b div 146096"
    unfolding e using assms by (intro sub_div_mono zdiv_mono1) simp_all
  ultimately show ?thesis
    unfolding leap_free_def by linarith
qed

lemma div_unique_shift: "0 \<le> r \<Longrightarrow> r < k \<Longrightarrow> d = r + k * q \<Longrightarrow> d div k = (q::int)"
  by (simp add: div_mult_self2)

lemma leap_free_year_start:
  assumes "0 \<le> y" "y \<le> 399"
  shows "leap_free (year_start y) = 365 * y" "y > 0 \<Longrightarrow> leap_free (year_start y - 1) < 365 * y"
proof -
  obtain c r q s where c_def: "c = y div 100" and yr: "y = 100 * c + r" "0 \<le> r" "r < 100"
    and rq: "r = 4 * q + s" "0 \<le> s" "s < 4"
  proof (rule that)
    show "y = 100 * (y div 100) + y mod 100" "y mod 100 = 4 * (y mod 100 div 4) + y mod 100 mod 4"
      by (simp_all only: mult_div_mod_eq)
  qed (simp_all del: mod_mult_mult1)
  have c: "0 \<le> c" "c \<le> 3" and q: "0 \<le> q" "q \<le> 24"
    using assms yr rq by linarith+
  have "y div 4 = 25 * c + q"
    by (rule div_unique_shift [of s]) (use rq yr in simp_all)
  then have "year_start y = 365 * y + (25 * c + q) - c"
    by (simp only: year_start_def c_def)
  then have d: "year_start y = 36524 * c + 365 * r + q"
    using yr(1) by simp
  have d1: "year_start y div 1460 = 25 * c + q"
    by (rule div_unique_shift [of "24 * c + q + 365 * s"]) (use c q rq d in simp_all)
  have d2: "year_start y div 36524 = c"
    by (rule div_unique_shift [of "365 * r + q"]) (use c q rq yr d in simp_all)
  have d3: "year_start y div 146096 = 0"
    by (rule div_pos_pos_trivial) (use c q rq yr d in simp_all)
  show "leap_free (year_start y) = 365 * y"
    unfolding leap_free_def d1 d2 d3 using d yr(1) by simp
  assume "y > 0"
  then have pos: "1 \<le> 24 * c + q + 365 * s" "1 \<le> year_start y"
    using c q rq yr d by linarith+
  define b where "b = (year_start y - 1) div 36524"
  have "(year_start y - 1) div 1460 = 25 * c + q"
    by (rule div_unique_shift [of "24 * c + q + 365 * s - 1"]) (use pos c q rq d in simp_all)
  moreover have "(year_start y - 1) div 146096 = 0"
    by (rule div_pos_pos_trivial) (use pos c q rq yr d in simp_all)
  ultimately have "leap_free (year_start y - 1) = year_start y - 1 - (25 * c + q) + b - 0"
    by (simp only: leap_free_def b_def)
  moreover have "b \<le> c"
    unfolding d2 [symmetric] b_def by (rule zdiv_mono1) simp_all
  ultimately show "leap_free (year_start y - 1) < 365 * y"
    using d yr(1) by simp
qed

lemma div_bounds: "(k::int) > 0 \<Longrightarrow> k * (x div k) \<le> x" "k > 0 \<Longrightarrow> x < k * (x div k) + k"
  using mult_div_mod_eq [of k x] pos_mod_bound [of k x] pos_mod_sign [of k x] by linarith+

lemma month_of_year:
  assumes "0 \<le> (doy::int)" "doy \<le> 365" "mp = (5 * doy + 2) div 153" "k = (153 * mp + 2) div 5"
  shows "0 \<le> mp" "mp \<le> 11" "k \<le> doy" "doy \<le> k + 30"
proof -
  have "153 * mp \<le> 5 * doy + 2" "5 * doy + 2 < 153 * mp + 153"
    using div_bounds [of 153 "5 * doy + 2"] assms(3) by simp_all
  moreover have "5 * k \<le> 153 * mp + 2" "153 * mp + 2 < 5 * k + 5"
    using div_bounds [of 5 "153 * mp + 2"] assms(4) by simp_all
  ultimately show "0 \<le> mp" "mp \<le> 11" "k \<le> doy" "doy \<le> k + 30"
    using assms(1,2) by linarith+
qed

lemma year_of_era:
  assumes "0 \<le> doe" "doe \<le> 146096" "y = leap_free doe div 365"
  shows "0 \<le> y" "y \<le> 399" "year_start y \<le> doe" "doe \<le> year_start y + 365"
proof -
  have "leap_free doe \<le> leap_free 146096" "leap_free 0 \<le> leap_free doe"
    using assms by (simp_all add: leap_free_mono)
  then have b: "0 \<le> leap_free doe" "leap_free doe < 365 * 400"
    by (simp_all add: leap_free_def)
  have lf: "365 * y \<le> leap_free doe" "leap_free doe < 365 * y + 365"
    using div_bounds [of 365 "leap_free doe"] assms(3) by simp_all
  with b show y: "0 \<le> y" "y \<le> 399"
    by linarith+
  show "year_start y \<le> doe"
  proof (rule ccontr)
    assume "\<not> year_start y \<le> doe"
    then have "leap_free doe \<le> leap_free (year_start y - 1)" and "y > 0"
      using leap_free_mono [of doe "year_start y - 1"] assms(1) y
      by (auto simp: year_start_def order_less_le)
    then have "leap_free doe < 365 * y"
      using leap_free_year_start(2) [OF y] by linarith
    then show False
      using lf by linarith
  qed
  show "doe \<le> year_start y + 365"
  proof (cases "y = 399")
    case True
    then show ?thesis using assms(2) by (simp add: year_start_def)
  next
    case False
    have "doe < year_start (y + 1)"
    proof (rule ccontr)
      assume "\<not> doe < year_start (y + 1)"
      then have "365 * (y + 1) \<le> leap_free doe"
        using leap_free_mono [of "year_start (y + 1)" doe] leap_free_year_start(1) [of "y + 1"] y False
        by simp
      then show False
        using lf by (simp add: distrib_left)
    qed
    moreover have "year_start (y + 1) \<le> year_start y + 366"
      using div_pred [of 4 "y + 1"] zdiv_mono1 [of y "y + 1" 100] by (simp add: year_start_def)
    ultimately show ?thesis by simp
  qed
qed

lemma civil_from_days_inverse:
  assumes "civil_from_days z = (y, m, d)"
  shows "days_from_civil y m d = z" "1 \<le> m" "m \<le> 12" "1 \<le> d" "d \<le> 31"
proof -
  define era where "era = (z + 719468) div 146097"
  define doe where "doe = z + 719468 - era * 146097"
  define yoe where "yoe = leap_free doe div 365"
  define doy where "doy = doe - year_start yoe"
  define mp where "mp = (5 * doy + 2) div 153"
  have "doe = (z + 719468) mod 146097"
    by (simp add: doe_def era_def minus_div_mult_eq_mod)
  then have doe: "0 \<le> doe" "doe \<le> 146096" by simp_all
  note yb = year_of_era [OF doe yoe_def]
  have doy: "0 \<le> doy" "doy \<le> 365" using yb by (simp_all add: doy_def)
  have mp: "0 \<le> mp" "mp \<le> 11" "(153 * mp + 2) div 5 \<le> doy" "doy \<le> (153 * mp + 2) div 5 + 30"
    using month_of_year [OF doy mp_def] by simp_all
  have ymd: "m = (if mp < 10 then mp + 3 else mp - 9)" "d = doy - (153 * mp + 2) div 5 + 1"
    "y = (if m \<le> 2 then yoe + era * 400 + 1 else yoe + era * 400)"
    using assms unfolding civil_from_days_def era_floor Let_def
    by (auto simp: era_def [symmetric] doe_def [symmetric] leap_free_def [symmetric] yoe_def [symmetric]
       year_start_def [symmetric] doy_def [symmetric] mp_def [symmetric])
  show "1 \<le> m" "m \<le> 12"
    using mp(1,2) by (simp_all add: ymd(1))
  show "1 \<le> d" "d \<le> 31"
    using mp(3,4) by (simp_all add: ymd(2))
  have y': "(if m \<le> 2 then y - 1 else y) = yoe + era * 400"
    by (simp add: ymd(3))
  have m': "(if m > 2 then m - 3 else m + 9) = mp"
    using mp(1,2) by (simp add: ymd(1))
  have "(yoe + era * 400) div 400 = era"
    using yb(1,2) by simp
  then have "days_from_civil y m d = era * 146097 + (year_start yoe + ((153 * mp + 2) div 5 + d - 1)) - 719468"
    unfolding days_from_civil_def Let_def y' m' era_floor by (simp add: year_start_def)
  also have "\<dots> = z"
    by (simp add: ymd(2) doy_def doe_def)
  finally show "days_from_civil y m d = z" .
qed

lemma civil_days_mono:
  assumes "a \<le> b" shows "civil_days a \<le> civil_days b"
proof -
  have e: "x div 100 = (x div 4) div 25" for x :: int
    by (simp add: zdiv_zmult2_eq [symmetric])
  have "a div 4 - a div 100 \<le> b div 4 - b div 100"
    unfolding e using assms by (intro sub_div_mono zdiv_mono1) simp_all
  moreover have "a div 400 \<le> b div 400"
    using assms by (simp add: zdiv_mono1)
  ultimately show ?thesis
    using assms unfolding civil_days_def by linarith
qed

lemma days_from_civil_bounds:
  assumes "1 \<le> m" "m \<le> 12" "1 \<le> d" "d \<le> 31"
  shows "civil_days (y - 1) + 306 \<le> days_from_civil y m d + 719468"
    and "days_from_civil y m d + 719468 < civil_days y + 306"
proof -
  define mp where "mp = (if m > 2 then m - 3 else m + 9)"
  define k where "k = (153 * mp + 2) div 5"
  have k: "5 * k \<le> 153 * mp + 2" "153 * mp + 2 < 5 * k + 5"
    using div_bounds [of 5 "153 * mp + 2"] by (simp_all add: k_def)
  have step: "civil_days (y - 1) + 365 \<le> civil_days y"
    using leap_shift [of y] by (cases "leap_year y") (simp_all add: civil_days_def)
  have eq: "days_from_civil y m d + 719468 = civil_days (if m \<le> 2 then y - 1 else y) + k + d - 1"
    by (simp add: days_from_civil_closed Let_def civil_days_def k_def mp_def)
  have "306 \<le> k \<and> k \<le> 337" if "m \<le> 2"
    using that assms k by (auto simp: mp_def)
  moreover have "0 \<le> k \<and> k \<le> 275" if "m > 2"
    using that assms k by (auto simp: mp_def)
  ultimately show "civil_days (y - 1) + 306 \<le> days_from_civil y m d + 719468"
    "days_from_civil y m d + 719468 < civil_days y + 306"
    unfolding eq using step assms by (cases "m \<le> 2"; simp)+
qed

lemma year_range:
  assumes "civil_from_days z = (y, m, d)" "0 \<le> z"
  shows "0 \<le> y" "y < 10000 \<longleftrightarrow> z < 2932897"
proof -
  note c = civil_from_days_inverse [OF assms(1)]
  note b = days_from_civil_bounds [OF c(2-5), of y, unfolded c(1)]
  have "\<not> y < 0"
    using civil_days_mono [of y "- 1"] b(2) assms(2) by (auto simp: civil_days_def)
  then show "0 \<le> y" by simp
  have "z < 2932897" if "y < 10000"
    using civil_days_mono [of y 9999] b(2) that by (auto simp: civil_days_def)
  moreover have "2932897 \<le> z" if "\<not> y < 10000"
    using civil_days_mono [of 9999 "y - 1"] b(1) that by (auto simp: civil_days_def)
  ultimately show "y < 10000 \<longleftrightarrow> z < 2932897"
    by force
qed

subsection \<open>Decimal fields\<close>

lemma of_char_48 [simp]: "(k::nat) < 10 \<Longrightarrow> (of_char (char_of (48 + k) :: char) :: nat) = 48 + k"
  by (simp add: of_char_of take_bit_eq_mod)

lemma is_digit_char [simp]: "(k::nat) < 10 \<Longrightarrow> is_digit (char_of (48 + k))"
  by (simp add: is_digit_def)

lemma digit_val_char [simp]: "(k::nat) < 10 \<Longrightarrow> digit_val (char_of (48 + k)) = k"
  by (simp add: digit_val_def)

lemma digit_not_sign:
  "is_digit c \<Longrightarrow> c \<noteq> CHR ''-'' \<and> c \<noteq> CHR ''+'' \<and> c \<noteq> CHR '':''"
  by (auto simp: is_digit_def)

lemma dec_small: "n < 10 \<Longrightarrow> dec n = [char_of (48 + n)]"
  by (subst dec.simps) simp

lemma dec_step: "10 \<le> n \<Longrightarrow> dec n = dec (n div 10) @ [char_of (48 + n mod 10)]"
  by (subst dec.simps) simp

lemma dec_digits: "list_all is_digit (dec n)"
proof (induction n rule: dec.induct)
  case (1 n)
  then show ?case
    by (cases "n < 10") (simp_all add: dec_small dec_step not_less)
qed

lemma dec_length: "10 ^ k \<le> n \<Longrightarrow> k < length (dec n)"
proof (induction k arbitrary: n)
  case 0
  then show ?case by (subst dec.simps) auto
next
  case (Suc k)
  then have "10 ^ k \<le> n div 10" "10 \<le> n"
    by (auto simp: less_eq_div_iff_mult_less_eq mult.commute intro: order.trans [OF _ Suc.prems])
  then show ?case
    using Suc.IH [of "n div 10"] by (simp add: dec_step)
qed

lemma char_zero: "CHR ''0'' = char_of (48 :: nat)"
  by code_simp

lemma char_digit_neq [simp]:
  "(k::nat) < 10 \<Longrightarrow> char_of (48 + k) \<noteq> CHR ''-''" "(k::nat) < 10 \<Longrightarrow> char_of (48 + k) \<noteq> CHR ''+''"
  using is_digit_char [of k] digit_not_sign by blast+

lemma pad0_1: "n < 10 \<Longrightarrow> pad0 1 n = [char_of (48 + n)]"
  by (simp add: pad0_def dec_small)

lemma pad0_Suc:
  assumes "0 < w"
  shows "pad0 (Suc w) n = pad0 w (n div 10) @ [char_of (48 + n mod 10)]"
proof (cases "n < 10")
  case True
  have "replicate w (CHR ''0'') = replicate (w - 1) (CHR ''0'') @ [CHR ''0'']"
    using assms by (metis Suc_pred' replicate_Suc replicate_append_same)
  with True show ?thesis
    by (simp add: pad0_def dec_small char_zero)
next
  case False
  then show ?thesis
    by (simp add: pad0_def dec_step)
qed

lemma pad0_2:
  assumes "n < 100"
  shows "pad0 2 n = [char_of (48 + n div 10), char_of (48 + n mod 10)]"
  using assms pad0_1 [of "n div 10"] pad0_Suc [of 1 n] by (simp add: numeral_2_eq_2)

lemma pad0_4:
  assumes "n < 10000"
  shows "pad0 4 n = [char_of (48 + n div 1000), char_of (48 + n div 100 mod 10),
    char_of (48 + n div 10 mod 10), char_of (48 + n mod 10)]"
proof -
  have "pad0 4 n = pad0 2 (n div 10 div 10) @ [char_of (48 + n div 10 mod 10), char_of (48 + n mod 10)]"
    using pad0_Suc [of 3 n] pad0_Suc [of 2 "n div 10"] by simp
  then show ?thesis
    using assms pad0_2 [of "n div 10 div 10"] by (simp add: div_mult2_eq [symmetric])
qed

lemma parse_u32_pad0: "n < 100 \<Longrightarrow> parse_u32 (pad0 2 n) = Some (int n)"
  by (simp add: pad0_2 parse_u32_def parse_digits_def)

lemma parse_i64_pad0:
  assumes "n < 10000" shows "parse_i64 (pad0 4 n) = Some (int n)"
proof -
  have "10 * (10 * (10 * (n div 1000) + n div 100 mod 10) + n div 10 mod 10) + n mod 10 = n"
    using mult_div_mod_eq [of 10 n] mult_div_mod_eq [of 10 "n div 10"] mult_div_mod_eq [of 10 "n div 100"]
    by (simp add: div_mult2_eq [symmetric])
  moreover have "n div 1000 < 10"
    using assms by (simp add: less_mult_imp_div_less)
  ultimately show ?thesis
    using assms by (simp add: pad0_4 parse_i64_def parse_digits_def)
qed

lemma length_pad0: "length (pad0 w n) = max w (length (dec n))"
  by (simp add: pad0_def)

subsection \<open>Printing and parsing\<close>

lemma get_range_eq: "a \<le> b \<Longrightarrow> b \<le> length s \<Longrightarrow> get_range a b s = Some (take (b - a) (drop a s))"
  by (simp add: get_range_def)

lemma parse_printed:
  assumes "y < 10000" "1 \<le> mo" "mo \<le> 12" "1 \<le> d" "d \<le> 31" "h < 24" "mi < 60" "sec < 60"
  shows "parse_rfc3339_to_unix (pad0 4 y @ ''-'' @ pad0 2 mo @ ''-'' @ pad0 2 d @ ''T'' @
         pad0 2 h @ '':'' @ pad0 2 mi @ '':'' @ pad0 2 sec @ ''Z'') =
    Some (days_from_civil (int y) (int mo) (int d) * 86400 + int h * 3600 + int mi * 60 + int sec)"
proof -
  have y: "parse_i64 (pad0 4 y) = Some (int y)"
    using assms by (simp add: parse_i64_pad0)
  have f: "parse_u32 (pad0 2 mo) = Some (int mo)" "parse_u32 (pad0 2 d) = Some (int d)"
    "parse_u32 (pad0 2 h) = Some (int h)" "parse_u32 (pad0 2 mi) = Some (int mi)"
    "parse_u32 (pad0 2 sec) = Some (int sec)"
    using assms by (simp_all add: parse_u32_pad0)
  have l: "length (pad0 4 y) = 4" "length (pad0 2 mo) = 2" "length (pad0 2 d) = 2"
    "length (pad0 2 h) = 2" "length (pad0 2 mi) = 2" "length (pad0 2 sec) = 2"
    using assms by (simp_all add: pad0_2 pad0_4)
  show ?thesis
    using assms unfolding parse_rfc3339_to_unix_def
    by (simp add: l f y get_range_eq nth_append skip_fraction_def offset_seconds_def)
qed

lemma parse_five_digit_year:
  assumes "10000 \<le> y"
  shows "parse_rfc3339_to_unix (pad0 4 y @ r) = None"
proof -
  have "4 < length (dec y)"
    using dec_length [of 4 y] assms by simp
  then have "(pad0 4 y @ r) ! 4 = dec y ! 4" "is_digit (dec y ! 4)"
    using dec_digits [of y] by (simp_all add: pad0_def nth_append list_all_length)
  then have "(pad0 4 y @ r) ! 4 \<noteq> CHR ''-''"
    using digit_not_sign by metis
  then show ?thesis
    by (simp add: parse_rfc3339_to_unix_def split: Option.bind_splits)
qed

lemma time_of_day:
  assumes "0 \<le> (u::int)" "u < 86400"
  shows "0 \<le> u div 3600" "u div 3600 < 24" "0 \<le> u mod 3600 div 60" "u mod 3600 div 60 < 60"
    "u div 3600 * 3600 + u mod 3600 div 60 * 60 + u mod 60 = u"
proof -
  show "0 \<le> u div 3600" "0 \<le> u mod 3600 div 60"
    using assms by (simp_all add: pos_imp_zdiv_nonneg_iff)
  show "u div 3600 < 24" "u mod 3600 div 60 < 60"
    using assms by (simp_all add: div_less_iff_less_mult)
  have "u mod 60 = u mod 3600 mod 60"
    by (simp add: mod_mod_cancel)
  then show "u div 3600 * 3600 + u mod 3600 div 60 * 60 + u mod 60 = u"
    by (simp only: add.assoc div_mult_mod_eq)
qed

lemma rfc3339_round_trip_aux:
  "parse_rfc3339_to_unix (unix_to_rfc3339 secs) =
   (if uint secs < 253402300800 then Some (uint secs) else None)"
proof -
  define t where "t = uint secs"
  define u where "u = t mod 86400"
  have u: "0 \<le> t div 86400" "0 \<le> u" "u < 86400" by (simp_all add: t_def u_def pos_imp_zdiv_nonneg_iff)
  obtain y m d where c: "civil_from_days (t div 86400) = (y, m, d)"
    by (cases "civil_from_days (t div 86400)")
  note ci = civil_from_days_inverse [OF c] and tod = time_of_day [OF u(2,3)]
  have y: "0 \<le> y" "y < 10000 \<longleftrightarrow> t < 253402300800"
    using year_range [OF c u(1)] by (auto simp: div_less_iff_less_mult)
  define h mi sec where hms: "h = u div 3600" "mi = u mod 3600 div 60" "sec = u mod 60"
  have s60: "0 \<le> sec" "sec < 60" by (simp_all add: hms)
  note tod' = tod [folded hms]
  let ?r = "''-'' @ pad0 2 (nat m) @ ''-'' @ pad0 2 (nat d) @ ''T'' @ pad0 2 (nat h) @ '':'' @
    pad0 2 (nat mi) @ '':'' @ pad0 2 (nat sec) @ ''Z''"
  have print: "unix_to_rfc3339 secs = pad0 4 (nat y) @ ?r"
    unfolding unix_to_rfc3339_def Let_def t_def [symmetric] u_def [symmetric] c hms by (simp only: prod.case)
  show ?thesis
  proof (cases "t < 253402300800")
    case True
    have "parse_rfc3339_to_unix (pad0 4 (nat y) @ ?r) =
      Some (days_from_civil (int (nat y)) (int (nat m)) (int (nat d)) * 86400 + int (nat h) * 3600
        + int (nat mi) * 60 + int (nat sec))"
      using True y ci(2-5) tod'(1-4) s60 by (intro parse_printed) linarith+
    also have "\<dots> = Some (t div 86400 * 86400 + u)"
      using y(1) ci tod' s60 by simp
    finally show ?thesis
      using True by (simp add: print u_def t_def [symmetric])
  next
    case False
    then show ?thesis
      using y parse_five_digit_year [of "nat y" ?r] by (simp add: print t_def [symmetric])
  qed
qed

subsection \<open>Properties\<close>

text \<open>C17. Round trip of timestamps. Parsing what the formatter prints gives back the number of
  seconds for every instant before the year 10000, and is rejected as malformed from then on (the
  formatter prints five digits where the parser reads four).\<close>

theorem rfc3339_round_trip:
  "parse_rfc3339_to_unix (unix_to_rfc3339 secs) =
   (if uint secs < 253402300800 then Some (uint secs) else None)"
  by (rule rfc3339_round_trip_aux)

text \<open>The day count is the Gregorian calendar. The epoch is day 0 and the day number of the
  date that follows a valid date is one more, over month ends, leap days and century years, for
  every year.\<close>

theorem days_from_civil_counts:
  assumes "valid_date (y, m, d)" "next_date (y, m, d) = (y', m', d')"
  shows "days_from_civil y' m' d' = days_from_civil y m d + 1 \<and> days_from_civil 1970 1 1 = 0"
  using days_from_civil_next_date [OF assms] by (simp add: days_from_civil_closed)

theorem days_from_civil_counts_witness:
  "days_from_civil 2024 2 29 = days_from_civil 2024 2 28 + 1 \<and> days_from_civil 1970 1 1 = 0"
proof -
  have "valid_date (2024, 2, 28)" "next_date (2024, 2, 28) = (2024, 2, 29)"
    by code_simp+
  then show ?thesis
    by (rule days_from_civil_counts)
qed

end
