(* ===== verification/Replay_Cache.thy ===== *)
theory Replay_Cache
  imports Rfc3339 "HOL-Library.Countable"
begin

text \<open>
  The nonce cache of \<open>crates/mx-agent-daemon/src/replay.rs\<close>: loading with the quarantine of a
  corrupt file, \<open>admit_at\<close> with its checks, pruning and eviction in the order of the code,
  \<open>forget\<close> and \<open>persist\<close>. The nonce table (a \<open>HashMap\<close>) is an association list with
  distinct keys whose order stands for the unspecified iteration order of the table. The files of
  the data directory are a \<open>ReplayStore\<close>; the JSON codec of the file is the pair of parameters
  \<open>enc\<close> and \<open>dcd\<close>, and the outcome of a write is the parameter \<open>wr\<close> (\<open>None\<close> when
  the write succeeds), so that every error path is a value of the model.
\<close>

subsection \<open>State\<close>

datatype ReplayError = Expired | Replayed | MalformedTimestamp | Corrupt | ReplayIo io_kind

record StoredCache =
  sc_capacity :: nat
  sc_nonces :: "(string \<times> int) list"

record ReplayCache =
  rc_capacity :: nat
  rc_nonces :: "(string \<times> int) list"

text \<open>What \<open>fs::read\<close> gives for the cache file, and the quarantined bytes, if any.\<close>

record ReplayStore =
  rs_file :: "(io_error, string) result"
  rs_quarantine :: "string option"

definition DEFAULT_CAPACITY :: nat where
  "DEFAULT_CAPACITY = 8192"

subsection \<open>Operations\<close>

definition prune_expired :: "int \<Rightarrow> ReplayCache \<Rightarrow> ReplayCache" where
  "prune_expired now c = c \<lparr> rc_nonces := filter (\<lambda>(_, exp). exp > now) (rc_nonces c) \<rparr>"

definition persist ::
  "(StoredCache \<Rightarrow> string) \<Rightarrow> io_kind option \<Rightarrow> ReplayCache \<Rightarrow> ReplayStore
    \<Rightarrow> (ReplayError, unit) result \<times> ReplayStore" where
  "persist enc wr c st = (case wr of
       None \<Rightarrow> (Inr (), st \<lparr> rs_file := Inr (enc \<lparr> sc_capacity = rc_capacity c, sc_nonces = rc_nonces c \<rparr>) \<rparr>)
     | Some kind \<Rightarrow> (Inl (ReplayIo kind), st))"

text \<open>\<open>iter().min_by_key(|(_, &exp)| exp)\<close>: the first entry with the least expiry.\<close>

fun soonest :: "(string \<times> int) list \<Rightarrow> (string \<times> int) option" where
  "soonest [] = None"
| "soonest ((k, e) # ns) = (case soonest ns of
      None \<Rightarrow> Some (k, e)
    | Some (k', e') \<Rightarrow> if e \<le> e' then Some (k, e) else Some (k', e'))"

lemma soonest_in: "soonest ns = Some kv \<Longrightarrow> kv \<in> set ns"
  by (induction ns arbitrary: kv rule: soonest.induct) (auto split: option.splits if_splits)

lemma remove_soonest_shorter:
  "soonest ns = Some (k, e) \<Longrightarrow> length (bm_remove k ns) < length ns"
  using soonest_in [of ns "(k, e)"] unfolding bm_remove_def
  by (auto intro: length_filter_less)

function evict :: "nat \<Rightarrow> (string \<times> int) list \<Rightarrow> (string \<times> int) list" where
  "evict capacity ns =
     (if length ns < capacity then ns
      else case soonest ns of
        Some (victim, _) \<Rightarrow> evict capacity (bm_remove victim ns)
      | None \<Rightarrow> ns)"
  by pat_completeness auto
termination
  by (relation "measure (\<lambda>(_, ns). length ns)") (auto simp: remove_soonest_shorter)

declare evict.simps [simp del]

definition admit_at ::
  "(StoredCache \<Rightarrow> string) \<Rightarrow> io_kind option \<Rightarrow> string \<Rightarrow> string \<Rightarrow> int \<Rightarrow> ReplayCache \<times> ReplayStore
    \<Rightarrow> (ReplayError, unit) result \<times> ReplayCache \<times> ReplayStore" where
  "admit_at enc wr nonce expires_at now = (\<lambda>(c, st).
     case parse_rfc3339_to_unix expires_at of
       None \<Rightarrow> (Inl MalformedTimestamp, c, st)
     | Some expiry \<Rightarrow>
        if expiry \<le> now then (Inl Expired, c, st)
        else if bm_get (rc_nonces c) nonce \<noteq> None then (Inl Replayed, c, st)
        else
          (let c1 = prune_expired now c;
               c2 = c1 \<lparr> rc_nonces := (nonce, expiry) # evict (rc_capacity c1) (rc_nonces c1) \<rparr>
           in case persist enc wr c2 st of (r, st') \<Rightarrow> (r, c2, st')))"

definition forget ::
  "(StoredCache \<Rightarrow> string) \<Rightarrow> io_kind option \<Rightarrow> string \<Rightarrow> ReplayCache \<times> ReplayStore
    \<Rightarrow> (ReplayError, unit) result \<times> ReplayCache \<times> ReplayStore" where
  "forget enc wr nonce = (\<lambda>(c, st).
     if bm_get (rc_nonces c) nonce \<noteq> None then
       (let c' = c \<lparr> rc_nonces := bm_remove nonce (rc_nonces c) \<rparr>
        in case persist enc wr c' st of (r, st') \<Rightarrow> (r, c', st'))
     else (Inr (), c, st))"

text \<open>The rename that moves a corrupt file aside; \<open>mv\<close> is whether it succeeds.\<close>

definition quarantine_corrupt :: "bool \<Rightarrow> ReplayStore \<Rightarrow> ReplayStore" where
  "quarantine_corrupt mv st = (case rs_file st of
       Inr corrupt \<Rightarrow> if mv then st \<lparr> rs_file := Inl (IoError NotFound []), rs_quarantine := Some corrupt \<rparr> else st
     | Inl _ \<Rightarrow> st)"

definition load_with_capacity ::
  "(string \<Rightarrow> StoredCache option) \<Rightarrow> bool \<Rightarrow> nat \<Rightarrow> int \<Rightarrow> ReplayStore
    \<Rightarrow> (ReplayError, ReplayCache) result \<times> ReplayStore" where
  "load_with_capacity dcd mv capacity now st =
     (if rs_quarantine st \<noteq> None then (Inl Corrupt, st)
      else case rs_file st of
        Inr content \<Rightarrow> (case dcd content of
             Some stored \<Rightarrow>
               (Inr (prune_expired now \<lparr> rc_capacity = max 1 (sc_capacity stored), rc_nonces = sc_nonces stored \<rparr>), st)
           | None \<Rightarrow> (Inl Corrupt, quarantine_corrupt mv st))
      | Inl e \<Rightarrow>
          if io_kind e = NotFound
          then (Inr (prune_expired now \<lparr> rc_capacity = max 1 capacity, rc_nonces = [] \<rparr>), st)
          else (Inl (ReplayIo (io_kind e)), st))"

text \<open>A sequence of requests: nonce, \<open>expires_at\<close>, the clock when it arrives, the write outcome.\<close>

type_synonym admission = "string \<times> string \<times> int \<times> io_kind option"

fun admit_all ::
  "(StoredCache \<Rightarrow> string) \<Rightarrow> admission list \<Rightarrow> ReplayCache \<times> ReplayStore
    \<Rightarrow> (ReplayError, unit) result list" where
  "admit_all enc [] s = []"
| "admit_all enc ((nonce, exp, now, wr) # reqs) s =
     (case admit_at enc wr nonce exp now s of (r, s') \<Rightarrow> r # admit_all enc reqs s')"

subsection \<open>Invariant\<close>

definition cache_inv :: "ReplayCache \<Rightarrow> bool" where
  "cache_inv c \<longleftrightarrow>
     0 < rc_capacity c \<and> length (rc_nonces c) \<le> rc_capacity c \<and> distinct (map fst (rc_nonces c))"

definition seen :: "ReplayCache \<times> ReplayStore \<Rightarrow> string \<Rightarrow> bool" where
  "seen s n \<longleftrightarrow> bm_get (rc_nonces (fst s)) n \<noteq> None"

lemma soonest_None [simp]: "soonest ns = None \<longleftrightarrow> ns = []"
  by (cases ns) (auto split: option.splits if_splits)

lemma soonest_min: "soonest ns = Some (k, e) \<Longrightarrow> kv \<in> set ns \<Longrightarrow> e \<le> snd kv"
  by (induction ns arbitrary: k e rule: soonest.induct) (fastforce split: option.splits if_splits)+

lemma evict_length: "0 < capacity \<Longrightarrow> length (evict capacity ns) < capacity"
proof (induction capacity ns rule: evict.induct)
  case (1 capacity ns)
  then show ?case
    by (subst evict.simps) (auto split: option.splits)
qed

lemma evict_step:
  "\<not> length ns < capacity \<Longrightarrow> soonest ns = Some (v, e) \<Longrightarrow>
   evict capacity ns = evict capacity (bm_remove v ns)"
  by (subst evict.simps) simp

lemma evict_id: "length ns < capacity \<or> ns = [] \<Longrightarrow> evict capacity ns = ns"
  by (subst evict.simps) auto

lemma evict_induct [case_names stop step]:
  assumes "\<And>ns. length ns < capacity \<or> ns = [] \<Longrightarrow> P ns ns"
    and "\<And>ns v e. \<not> length ns < capacity \<Longrightarrow> soonest ns = Some (v, e) \<Longrightarrow>
      P (bm_remove v ns) (evict capacity (bm_remove v ns)) \<Longrightarrow> P ns (evict capacity (bm_remove v ns))"
  shows "P ns (evict capacity ns)"
proof (induction "length ns" arbitrary: ns rule: less_induct)
  case less
  show ?case
  proof (cases "length ns < capacity \<or> ns = []")
    case True
    then show ?thesis by (simp add: evict_id assms(1))
  next
    case False
    then obtain v e where v: "soonest ns = Some (v, e)"
      by (cases "soonest ns") auto
    then show ?thesis
      using False less [OF remove_soonest_shorter [OF v]] assms(2) [OF _ v] by (simp add: evict_step)
  qed
qed

lemma evict_subset: "set (evict capacity ns) \<subseteq> set ns"
  by (induction ns rule: evict_induct [where capacity = capacity]) (auto simp: bm_remove_def)

lemma evict_distinct: "distinct (map fst ns) \<Longrightarrow> distinct (map fst (evict capacity ns))"
  by (induction ns rule: evict_induct [where capacity = capacity])
    (simp_all add: bm_remove_def distinct_map_filter)

text \<open>An entry leaves by eviction only when every survivor expires no earlier.\<close>

lemma evict_keeps_latest:
  assumes "distinct (map fst ns)" "kv \<in> set ns" "kv \<notin> set (evict capacity ns)" "kv' \<in> set (evict capacity ns)"
  shows "snd kv \<le> snd kv'"
  using assms
proof (induction ns rule: evict_induct [where capacity = capacity])
  case (step ns v e)
  show ?case
  proof (cases "fst kv = v")
    case True
    then have "kv = (v, e)"
      using step.prems(1,2) soonest_in [OF step.hyps(2)] by (metis eq_key_imp_eq_value prod.collapse)
    moreover have "kv' \<in> set ns"
      using step.prems(4) evict_subset by (force simp: bm_remove_def)
    ultimately show ?thesis
      using soonest_min [OF step.hyps(2)] by auto
  next
    case False
    then show ?thesis
      using step by (simp add: bm_remove_def distinct_map_filter)
  qed
qed simp

lemma prune_expired_inv [mx_inv]: "cache_inv c \<Longrightarrow> cache_inv (prune_expired now c)"
  unfolding cache_inv_def prune_expired_def
  by (auto simp: distinct_map_filter intro: order.trans [OF length_filter_le])

lemma persist_result: "persist enc wr c st = (r, st') \<Longrightarrow> r = (case wr of None \<Rightarrow> Inr () | Some k \<Rightarrow> Inl (ReplayIo k))"
  by (auto simp: persist_def split: option.splits)

text \<open>\<open>admit_at\<close> either denies and changes nothing, or records the nonce.\<close>

lemma admit_at_cases:
  assumes "admit_at enc wr nonce exp now (c, st) = (r, c', st')"
  obtains (denied) "c' = c" "st' = st" "r \<in> {Inl MalformedTimestamp, Inl Expired, Inl Replayed}"
      "parse_rfc3339_to_unix exp = None \<or> the (parse_rfc3339_to_unix exp) \<le> now \<or> seen (c, st) nonce"
  | (recorded) expiry where "parse_rfc3339_to_unix exp = Some expiry" "now < expiry" "\<not> seen (c, st) nonce"
      "rc_capacity c' = rc_capacity c"
      "rc_nonces c' = (nonce, expiry) # evict (rc_capacity c) (filter (\<lambda>(_, e). e > now) (rc_nonces c))"
      "r = (case wr of None \<Rightarrow> Inr () | Some k \<Rightarrow> Inl (ReplayIo k))"
proof (cases "parse_rfc3339_to_unix exp = None \<or> the (parse_rfc3339_to_unix exp) \<le> now \<or> seen (c, st) nonce")
  case True
  then show thesis
    using assms by (intro denied) (auto simp: admit_at_def seen_def split: if_splits option.splits)
next
  case False
  then show thesis
    using assms
    by (intro recorded [of "the (parse_rfc3339_to_unix exp)"])
      (auto simp: admit_at_def seen_def Let_def prune_expired_def dest!: persist_result
        split: option.splits prod.splits)
qed

lemma admit_at_inv [mx_inv]:
  assumes "cache_inv c" "admit_at enc wr nonce exp now (c, st) = (r, c', st')"
  shows "cache_inv c'"
  using assms(2)
proof (cases rule: admit_at_cases)
  case denied
  with assms(1) show ?thesis by simp
next
  case (recorded expiry)
  let ?ns = "filter (\<lambda>(_, e). e > now) (rc_nonces c)"
  have "nonce \<notin> fst ` set (evict (rc_capacity c) ?ns)"
    using recorded(3) evict_subset [of "rc_capacity c" ?ns]
    by (auto simp: seen_def bm_get_None)
  moreover have "distinct (map fst (evict (rc_capacity c) ?ns))"
    using assms(1) by (intro evict_distinct) (simp add: cache_inv_def distinct_map_filter)
  moreover have "length (evict (rc_capacity c) ?ns) < rc_capacity c"
    using assms(1) by (intro evict_length) (simp add: cache_inv_def)
  ultimately show ?thesis
    using assms(1) recorded(4,5) by (simp add: cache_inv_def)
qed

lemma forget_inv [mx_inv]:
  "cache_inv c \<Longrightarrow> forget enc wr nonce (c, st) = (r, c', st') \<Longrightarrow> cache_inv c'"
  by (auto simp: forget_def cache_inv_def bm_remove_def distinct_map_filter Let_def
      split: if_splits prod.splits intro: order.trans [OF length_filter_le])

text \<open>A request is spent at a time when its nonce is held or it has expired.\<close>

definition spent :: "string \<Rightarrow> int \<Rightarrow> int \<Rightarrow> ReplayCache \<Rightarrow> bool" where
  "spent n e now c \<longleftrightarrow> (n, e) \<in> set (rc_nonces c) \<or> e \<le> now"

lemma spent_step:
  assumes "spent n e t c" "t \<le> now" "length (rc_nonces c) < rc_capacity c"
    and "admit_at enc wr nonce exp now (c, st) = (r, c', st')"
  shows "spent n e now c'"
  using assms(4)
proof (cases rule: admit_at_cases)
  case denied
  with assms(1,2) show ?thesis by (auto simp: spent_def)
next
  case (recorded expiry)
  have "length (filter (\<lambda>(_, e). e > now) (rc_nonces c)) < rc_capacity c"
    using assms(3) le_less_trans length_filter_le by blast
  then have "rc_nonces c' = (nonce, expiry) # filter (\<lambda>(_, e). e > now) (rc_nonces c)"
    using recorded(5) by (simp add: evict_id)
  with assms(1,2) show ?thesis
    by (force simp: spent_def)
qed

lemma spent_denied:
  assumes "spent n e now c" "parse_rfc3339_to_unix exp = Some e"
    and "admit_at enc wr n exp now (c, st) = (r, c', st')"
  shows "r \<noteq> Inr ()"
  using assms(3) by (cases rule: admit_at_cases) (use assms(1,2) in \<open>auto simp: spent_def seen_def bm_get_None image_iff\<close>)

lemma admit_length:
  "admit_at enc wr nonce exp now (c, st) = (r, c', st') \<Longrightarrow> length (rc_nonces c) < rc_capacity c \<Longrightarrow>
   length (rc_nonces c') \<le> Suc (length (rc_nonces c)) \<and> rc_capacity c' = rc_capacity c"
proof (erule admit_at_cases)
  fix expiry
  assume "length (rc_nonces c) < rc_capacity c"
    "rc_nonces c' = (nonce, expiry) # evict (rc_capacity c) (filter (\<lambda>(_, e). e > now) (rc_nonces c))"
    "rc_capacity c' = rc_capacity c"
  moreover have "length (filter (\<lambda>(_, e). e > now) (rc_nonces c)) \<le> length (rc_nonces c)"
    by simp
  ultimately show ?thesis
    by (simp add: evict_id)
qed auto

lemma spent_never_admitted:
  assumes "spent n e t c" "sorted (t # map (\<lambda>(_, _, now, _). now) reqs)"
    "length (rc_nonces c) + length reqs \<le> rc_capacity c"
    "j < length reqs" "reqs ! j = (n, exp, now, wr)" "parse_rfc3339_to_unix exp = Some e"
  shows "admit_all enc reqs (c, st) ! j \<noteq> Inr ()"
  using assms
proof (induction reqs arbitrary: t c st j)
  case (Cons q reqs)
  obtain m x u w where q: "q = (m, x, u, w)" by (cases q)
  obtain r c' st' where a: "admit_at enc w m x u (c, st) = (r, c', st')"
    by (cases "admit_at enc w m x u (c, st)")
  have room: "length (rc_nonces c) < rc_capacity c" and t: "t \<le> u"
    using Cons.prems(2,3) by (simp_all add: q)
  note l = admit_length [OF a room]
  show ?case
  proof (cases j)
    case 0
    then have "spent n e u c" "m = n" "x = exp" "parse_rfc3339_to_unix x = Some e"
      using Cons.prems t by (auto simp: q spent_def)
    then show ?thesis
      using spent_denied [of n e u c x enc w st r c' st'] a 0 by (simp add: q)
  next
    case (Suc i)
    have "admit_all enc reqs (c', st') ! i \<noteq> Inr ()"
    proof (rule Cons.IH)
      show "spent n e u c'" using spent_step [OF Cons.prems(1) t room a] .
      show "sorted (u # map (\<lambda>(_, _, now, _). now) reqs)" using Cons.prems(2) by (simp add: q)
      show "length (rc_nonces c') + length reqs \<le> rc_capacity c'" using l Cons.prems(3) by simp
    qed (use Cons.prems Suc in auto)
    then show ?thesis
      using a Suc by (simp add: q)
  qed
qed simp

lemma admitted_spent:
  assumes "admit_at enc wr n exp now (c, st) = (Inr (), c', st')"
  shows "\<exists>e. parse_rfc3339_to_unix exp = Some e \<and> spent n e now c'"
  using assms by (cases rule: admit_at_cases) (auto simp: spent_def)

lemma admit_all_single_use:
  assumes "sorted (map (\<lambda>(_, _, now, _). now) reqs)"
    "length (rc_nonces c) + length reqs \<le> rc_capacity c"
    "i < j" "j < length reqs" "reqs ! i = (n, exp, ti, wi)" "reqs ! j = (n, exp, tj, wj)"
    "admit_all enc reqs (c, st) ! i = Inr ()"
  shows "admit_all enc reqs (c, st) ! j \<noteq> Inr ()"
  using assms
proof (induction reqs arbitrary: c st i j)
  case (Cons q reqs)
  obtain m x u w where q: "q = (m, x, u, w)" by (cases q)
  obtain r c' st' where a: "admit_at enc w m x u (c, st) = (r, c', st')"
    by (cases "admit_at enc w m x u (c, st)")
  have room: "length (rc_nonces c) < rc_capacity c"
    using Cons.prems(2) by simp
  have l: "length (rc_nonces c') + length reqs \<le> rc_capacity c'"
    using admit_length [OF a room] Cons.prems(2) by simp
  obtain j' where j: "j = Suc j'" using Cons.prems(3) by (cases j) auto
  have "admit_all enc reqs (c', st') ! j' \<noteq> Inr ()"
  proof (cases i)
    case 0
    then have "m = n" "x = exp" "r = Inr ()" using Cons.prems a by (simp_all add: q)
    then obtain e where "parse_rfc3339_to_unix exp = Some e" "spent n e u c'"
      using admitted_spent a by blast
    then show ?thesis
      using Cons.prems l j by (intro spent_never_admitted [of n e u]) (auto simp: q)
  next
    case (Suc i')
    then show ?thesis
      using Cons.prems l j a by (intro Cons.IH [of c' i']) (auto simp: q)
  qed
  then show ?case
    using a j by (simp add: q)
qed simp

lemma load_fail_closed:
  assumes "load_with_capacity dcd mv cap now st = (Inl Corrupt, st')"
  shows "fst (load_with_capacity dcd mv' cap' now' st') = Inl Corrupt"
  using assms by (auto simp: load_with_capacity_def quarantine_corrupt_def split: if_splits sum.splits option.splits)

lemma admit_at_persists:
  assumes "admit_at enc wr n exp now (c, st) = (Inr (), c', st')"
  shows "rs_file st' = Inr (enc \<lparr> sc_capacity = rc_capacity c', sc_nonces = rc_nonces c' \<rparr>)"
    "rs_quarantine st' = rs_quarantine st"
  using assms by (auto simp: admit_at_def persist_def Let_def split: option.splits if_splits)

subsection \<open>The interface of the guard\<close>

text \<open>What the components that consult the cache rely on: an admission means that the nonce was not
  held and is held from then on; forgetting a nonce releases that nonce alone.\<close>

locale nonce_guard =
  fixes admit :: "string \<Rightarrow> string \<Rightarrow> int \<Rightarrow> 's \<Rightarrow> ('e, unit) result \<times> 's"
    and release :: "string \<Rightarrow> 's \<Rightarrow> ('e, unit) result \<times> 's"
    and held :: "'s \<Rightarrow> string \<Rightarrow> bool"
  assumes admit_fresh: "admit n x t s = (Inr (), s') \<Longrightarrow> \<not> held s n \<and> held s' n"
    and release_held: "held (snd (release n s)) m \<longleftrightarrow> m \<noteq> n \<and> held s m"
begin

lemma held_denied: "held s n \<Longrightarrow> fst (admit n x t s) \<noteq> Inr ()"
  using admit_fresh by (metis prod.collapse)

lemma admit_twice: "admit n x t s = (Inr (), s') \<Longrightarrow> fst (admit n y u s') \<noteq> Inr ()"
  using admit_fresh held_denied by blast

lemma release_reopens: "\<not> held (snd (release n s)) n"
  by (simp add: release_held)

lemma release_other: "m \<noteq> n \<Longrightarrow> held s m \<Longrightarrow> fst (admit m x t (snd (release n s))) \<noteq> Inr ()"
  by (intro held_denied) (simp add: release_held)

end

lemma admit_at_fresh:
  assumes "admit_at enc wr n x t s = (Inr (), s')"
  shows "\<not> seen s n \<and> seen s' n"
proof -
  obtain c st c' st' where s: "s = (c, st)" "s' = (c', st')" by (metis prod.exhaust)
  show ?thesis
    using assms unfolding s by (cases rule: admit_at_cases) (auto simp: seen_def bm_get_None)
qed

lemma forget_seen: "seen (snd (forget enc wr n s)) m \<longleftrightarrow> m \<noteq> n \<and> seen s m"
  by (cases s) (auto simp: forget_def seen_def Let_def bm_get_remove split: prod.splits if_splits)

interpretation replay: nonce_guard "admit_at enc wr" "forget enc wr" seen for enc wr
  by unfold_locales (simp_all add: admit_at_fresh forget_seen)

subsection \<open>Properties\<close>

text \<open>C6. Single use. In a sequence of requests that arrive in the order of time at a cache with
  room for them, a request (a nonce with its expiry text) that was admitted once is never admitted
  again: while it is unexpired its nonce is held, afterwards it is rejected as expired. Requests
  with other nonces, failed writes and pruning in between make no difference.\<close>

theorem replay_single_use:
  assumes "sorted (map (\<lambda>(_, _, now, _). now) reqs)"
    "length (rc_nonces c) + length reqs \<le> rc_capacity c"
    "i < j" "j < length reqs" "reqs ! i = (n, exp, ti, wi)" "reqs ! j = (n, exp, tj, wj)"
    "admit_all enc reqs (c, st) ! i = Inr ()"
  shows "admit_all enc reqs (c, st) ! j \<noteq> Inr ()"
  using assms by (rule admit_all_single_use)

definition demo_cache :: ReplayCache where
  "demo_cache = \<lparr> rc_capacity = 3, rc_nonces = [] \<rparr>"

definition demo_store :: ReplayStore where
  "demo_store = \<lparr> rs_file = Inl (IoError NotFound []), rs_quarantine = None \<rparr>"

definition demo_reqs :: "admission list" where
  "demo_reqs = [(''n1'', ''2026-06-02T12:05:00Z'', 100, None), (''n2'', ''2026-06-02T12:05:00Z'', 200, None),
     (''n1'', ''2026-06-02T12:05:00Z'', 300, None)]"

lemma demo_expiry: "parse_rfc3339_to_unix ''2026-06-02T12:05:00Z'' = Some 1780401900"
  by (simp add: parse_rfc3339_to_unix_def get_range_def parse_i64_def parse_u32_def parse_digits_def
      is_digit_def digit_val_def skip_fraction_def offset_seconds_def days_from_civil_closed)

theorem replay_single_use_witness:
  "admit_all (\<lambda>_. []) demo_reqs (demo_cache, demo_store) ! 2 \<noteq> Inr ()"
proof (rule replay_single_use [of demo_reqs demo_cache 0 2])
  show "admit_all (\<lambda>_. []) demo_reqs (demo_cache, demo_store) ! 0 = Inr ()"
    by (simp add: demo_reqs_def demo_cache_def admit_at_def demo_expiry bm_get_def Let_def persist_def
        split: prod.splits)
qed (simp_all add: demo_reqs_def demo_cache_def)



text \<open>C20. Replay protection survives a restart. If the codec of the cache file is faithful, then
  after an admission the file loaded back, at a time not before the admission, denies the same
  request; and once a load has found the file corrupt, every later load fails with the same error,
  whatever the outcome of moving the file aside.\<close>

theorem replay_survives_restart:
  assumes "\<And>x. dcd (enc x) = Some x" "cache_inv c" "rs_quarantine st = None"
    "admit_at enc wr n exp now (c, st) = (Inr (), c', st')" "now \<le> now'"
  shows "(\<exists>c''. load_with_capacity dcd mv cap now' st' = (Inr c'', st') \<and>
       fst (admit_at enc wr' n exp now' (c'', st')) \<noteq> Inr ()) \<and>
     (fst (load_with_capacity dcd mv cap now0 st0) = Inl Corrupt) \<le>
     (fst (load_with_capacity dcd mv' cap' now1 (snd (load_with_capacity dcd mv cap now0 st0))) = Inl Corrupt)"
proof
  note p = admit_at_persists [OF assms(4)]
  have inv: "cache_inv c'" using admit_at_inv [OF assms(2,4)] .
  define c'' where "c'' = prune_expired now' c'"
  have "load_with_capacity dcd mv cap now' st' = (Inr c'', st')"
    using p assms(1,3) inv by (simp add: load_with_capacity_def c''_def cache_inv_def max_def prune_expired_def)
  moreover obtain e where e: "parse_rfc3339_to_unix exp = Some e" "spent n e now c'"
    using admitted_spent [OF assms(4)] by blast
  then have "spent n e now' c''"
    using assms(5) by (auto simp: spent_def c''_def prune_expired_def)
  then have "fst (admit_at enc wr' n exp now' (c'', st')) \<noteq> Inr ()"
    using spent_denied [OF _ e(1)] by (metis prod.collapse)
  ultimately show "\<exists>c''. load_with_capacity dcd mv cap now' st' = (Inr c'', st') \<and>
       fst (admit_at enc wr' n exp now' (c'', st')) \<noteq> Inr ()"
    by blast
  show "(fst (load_with_capacity dcd mv cap now0 st0) = Inl Corrupt) \<le>
     (fst (load_with_capacity dcd mv' cap' now1 (snd (load_with_capacity dcd mv cap now0 st0))) = Inl Corrupt)"
    using load_fail_closed [of dcd mv cap now0 st0] by (metis le_boolI prod.collapse)
qed

text \<open>A faithful codec, for the witness: the stored pair, numbered, in unary.\<close>

definition demo_enc :: "StoredCache \<Rightarrow> string" where
  "demo_enc x = replicate (to_nat (sc_capacity x, sc_nonces x)) (CHR ''i'')"

definition demo_dcd :: "string \<Rightarrow> StoredCache option" where
  "demo_dcd s = (case from_nat (length s) of (cap, ns) \<Rightarrow> Some \<lparr> sc_capacity = cap, sc_nonces = ns \<rparr>)"

theorem replay_survives_restart_witness:
  "\<exists>c' st' c''. admit_at demo_enc None ''n1'' ''2026-06-02T12:05:00Z'' 100 (demo_cache, demo_store) = (Inr (), c', st')
     \<and> load_with_capacity demo_dcd True 1 200 st' = (Inr c'', st')
     \<and> fst (admit_at demo_enc None ''n1'' ''2026-06-02T12:05:00Z'' 200 (c'', st')) \<noteq> Inr ()"
proof -
  have codec: "demo_dcd (demo_enc x) = Some x" for x
    by (simp add: demo_enc_def demo_dcd_def)
  have inv: "cache_inv demo_cache" and q: "rs_quarantine demo_store = None"
    by (simp_all add: cache_inv_def demo_cache_def demo_store_def)
  obtain c' st' where
    a: "admit_at demo_enc None ''n1'' ''2026-06-02T12:05:00Z'' 100 (demo_cache, demo_store) = (Inr (), c', st')"
    by (simp add: admit_at_def demo_expiry persist_def demo_cache_def bm_get_def Let_def)
  show ?thesis
    using replay_survives_restart [where mv = True and cap = 1 and now' = 200 and wr' = None,
        OF codec inv q a] a by auto
qed

end
