(* ===== verification/Canonical_Json.thy ===== *)
theory Canonical_Json
  imports Rfc3339
begin

text \<open>
  Canonical JSON, \<open>crates/mx-agent-protocol/src/canonical_json.rs\<close>, over the value type of
  \<open>serde_json\<close>. An object is the list of its members with distinct keys in any order. The string
  tokens come from \<open>serde_json::to_string\<close>, which is not part of the sources: it is the parameter
  \<open>esc\<close>, and what the encoding relies on (a token starts with a quote and delimits itself) is the
  locale \<open>string_token\<close>, interpreted on the escaping of RFC 8259. The result shown here is that the
  bytes determine the value up to the order of members.
\<close>

subsection \<open>Values\<close>

datatype number = PosInt u64 | NegInt int | Float string

datatype json =
    JNull
  | JBool bool
  | JNum number
  | JString string
  | JArray "json list"
  | JObject "(string \<times> json) list"

type_synonym members = "(string \<times> json) list"

datatype CanonicalJsonError = NonIntegerNumber

fun is_f64 :: "number \<Rightarrow> bool" where
  "is_f64 (Float _) = True"
| "is_f64 _ = False"

fun num_to_string :: "number \<Rightarrow> string" where
  "num_to_string (PosInt n) = dec (unat n)"
| "num_to_string (NegInt i) = ''-'' @ dec (nat (- i))"
| "num_to_string (Float s) = s"

subsection \<open>The encoder\<close>

text \<open>Collect the pieces a loop writes, stopping at the first error.\<close>

primrec seq_results :: "('e, 'a) result list \<Rightarrow> ('e, 'a list) result" where
  "seq_results [] = Inr []"
| "seq_results (r # rs) = and_then r (\<lambda>x. and_then (seq_results rs) (\<lambda>xs. Inr (x # xs)))"

lemma json_size_member: "(k, v) \<in> set m \<Longrightarrow> size v < Suc (size_list (size_prod (\<lambda>_. 0) size) m)"
  by (induction m) auto

function write_value :: "(string \<Rightarrow> string) \<Rightarrow> json \<Rightarrow> (CanonicalJsonError, string) result" where
  "write_value esc JNull = Inr ''null''"
| "write_value esc (JBool b) = Inr (if b then ''true'' else ''false'')"
| "write_value esc (JNum n) = (if is_f64 n then Inl NonIntegerNumber else Inr (num_to_string n))"
| "write_value esc (JString s) = Inr (esc s)"
| "write_value esc (JArray items) =
     and_then (seq_results (map (\<lambda>item. write_value esc item) items)) (\<lambda>ts.
     Inr (''['' @ join_with '','' ts @ '']''))"
| "write_value esc (JObject m) =
     and_then (seq_results (map (\<lambda>key.
         case map_of m key of
           None \<Rightarrow> Inr []
         | Some v \<Rightarrow> and_then (write_value esc v) (\<lambda>t. Inr (esc key @ '':'' @ t)))
       (sort (map fst m)))) (\<lambda>ts.
     Inr (''{'' @ join_with '','' ts @ ''}''))"
  by pat_completeness auto
termination
  by (relation "measure (\<lambda>(_, v). size v)")
    (auto dest!: map_of_SomeD json_size_member simp: less_Suc_eq_le size_list_estimation')

definition to_canonical_string :: "(string \<Rightarrow> string) \<Rightarrow> json \<Rightarrow> (CanonicalJsonError, string) result" where
  "to_canonical_string esc v = write_value esc v"

text \<open>The bytes of a string are its characters here.\<close>

definition to_canonical_bytes :: "(string \<Rightarrow> string) \<Rightarrow> json \<Rightarrow> (CanonicalJsonError, string) result" where
  "to_canonical_bytes esc v = to_canonical_string esc v"

subsection \<open>Reference notions\<close>

text \<open>Well-formed values: keys are distinct, negative integers are negative.\<close>

fun json_wf :: "json \<Rightarrow> bool" where
  "json_wf (JNum (NegInt i)) = (i < 0)"
| "json_wf (JArray xs) = list_all json_wf xs"
| "json_wf (JObject m) = (distinct (map fst m) \<and> list_all (\<lambda>kv. json_wf (snd kv)) m)"
| "json_wf _ = True"

fun no_float :: "json \<Rightarrow> bool" where
  "no_float (JNum n) = (\<not> is_f64 n)"
| "no_float (JArray xs) = list_all no_float xs"
| "no_float (JObject m) = list_all (\<lambda>kv. no_float (snd kv)) m"
| "no_float _ = True"

text \<open>The value with the members of every object in key order.\<close>

fun norm :: "json \<Rightarrow> json" where
  "norm (JArray xs) = JArray (map norm xs)"
| "norm (JObject m) = JObject (sort_key fst (map (\<lambda>(k, v). (k, norm v)) m))"
| "norm v = v"

text \<open>Writing members in the order they have.\<close>

fun print_json :: "(string \<Rightarrow> string) \<Rightarrow> json \<Rightarrow> string" where
  "print_json esc JNull = ''null''"
| "print_json esc (JBool b) = (if b then ''true'' else ''false'')"
| "print_json esc (JNum n) = num_to_string n"
| "print_json esc (JString s) = esc s"
| "print_json esc (JArray xs) = ''['' @ join_with '','' (map (\<lambda>x. print_json esc x) xs) @ '']''"
| "print_json esc (JObject m) =
     ''{'' @ join_with '','' (map (\<lambda>(k, v). esc k @ '':'' @ print_json esc v) m) @ ''}''"

text \<open>RFC 8259 escaping as \<open>serde_json\<close> writes it.\<close>

definition hex_digit :: "nat \<Rightarrow> char" where
  "hex_digit n = (if n < 10 then char_of (48 + n) else char_of (87 + n))"

definition escape_char :: "char \<Rightarrow> string" where
  "escape_char c = (let n = of_char c :: nat in
     if n = 34 then [CHR 0x5C, CHR 0x22]
     else if n = 92 then [CHR 0x5C, CHR 0x5C]
     else if n = 8 then [CHR 0x5C, CHR ''b'']
     else if n = 9 then [CHR 0x5C, CHR ''t'']
     else if n = 10 then [CHR 0x5C, CHR ''n'']
     else if n = 12 then [CHR 0x5C, CHR ''f'']
     else if n = 13 then [CHR 0x5C, CHR ''r'']
     else if n < 32 then [CHR 0x5C, CHR ''u'', CHR ''0'', CHR ''0'', hex_digit (n div 16), hex_digit (n mod 16)]
     else [c])"

definition json_escape :: "string \<Rightarrow> string" where
  "json_escape s = [CHR 0x22] @ concat (map escape_char s) @ [CHR 0x22]"

subsection \<open>Decimal numbers are self-delimiting\<close>

lemma dec_value: "foldl (\<lambda>a c. 10 * a + digit_val c) 0 (dec n) = n"
proof (induction n rule: dec.induct)
  case (1 n)
  then show ?case
    by (cases "n < 10") (simp_all add: dec_small dec_step not_less)
qed

lemma dec_not_Nil [simp]: "dec n \<noteq> []"
  by (subst dec.simps) simp

text \<open>What can follow a value: nothing, a comma or a closing bracket.\<close>

definition ends_value :: "string \<Rightarrow> bool" where
  "ends_value r \<longleftrightarrow> r = [] \<or> hd r \<in> {CHR '','', CHR '']'', CHR ''}''}"

lemma ends_not_digit: "ends_value r \<Longrightarrow> takeWhile is_digit r = []"
  by (cases r) (auto simp: ends_value_def is_digit_def)

lemma dec_self_delimiting:
  assumes "dec m @ r = dec n @ r'" "ends_value r" "ends_value r'"
  shows "m = n \<and> r = r'"
proof -
  have "takeWhile is_digit (dec k @ s) = dec k" if "ends_value s" for k s
    using dec_digits [of k] ends_not_digit [OF that] by (simp add: takeWhile_append2 list_all_iff)
  then have "dec m = dec n"
    using assms by metis
  then show ?thesis
    using assms(1) dec_value by (metis append_eq_append_conv)
qed

fun head_class :: "char \<Rightarrow> nat" where
  "head_class c = (if c = CHR ''n'' then 0 else if c = CHR ''t'' then 1 else if c = CHR ''f'' then 2
     else if is_digit c \<or> c = CHR ''-'' then 3 else if c = CHR 0x22 then 4
     else if c = CHR ''['' then 5 else if c = CHR ''{'' then 6 else 7)"

declare head_class.simps [simp del]

fun kind :: "json \<Rightarrow> nat" where
  "kind JNull = 0"
| "kind (JBool b) = (if b then 1 else 2)"
| "kind (JNum n) = 3"
| "kind (JString s) = 4"
| "kind (JArray xs) = 5"
| "kind (JObject m) = 6"

lemma head_class_digit: "is_digit c \<Longrightarrow> head_class c = 3"
  by (auto simp: head_class.simps is_digit_def)

lemma dec_head: "\<exists>c t. dec n = c # t \<and> is_digit c"
  using dec_digits [of n] by (cases "dec n") auto

lemma num_head:
  assumes "\<not> is_f64 n"
  shows "\<exists>c t. num_to_string n = c # t \<and> head_class c = 3"
proof (cases n)
  case (PosInt m)
  obtain c t where "dec (unat m) = c # t" "is_digit c"
    using dec_head by blast
  then show ?thesis
    by (simp add: PosInt head_class_digit)
next
  case (NegInt i)
  then show ?thesis
    by (simp add: head_class.simps)
qed (use assms in simp)

lemma join_with_Cons: "join_with sep (z # zs) = z @ (if zs = [] then [] else sep @ join_with sep zs)"
  by (cases zs) simp_all

lemma join_self_delimiting:
  assumes "\<And>x y r r'. x \<in> set xs \<Longrightarrow> y \<in> set ys \<Longrightarrow> ends_value r \<Longrightarrow> ends_value r' \<Longrightarrow> p x @ r = p y @ r' \<Longrightarrow>
      x = y \<and> r = r'"
    and "\<And>x r. x \<in> set xs \<union> set ys \<Longrightarrow> \<not> ends_value (p x @ r)"
    and "close \<in> {CHR '']'', CHR ''}''}"
    and "join_with '','' (map p xs) @ close # r = join_with '','' (map p ys) @ close # r'"
  shows "xs = ys \<and> r = r'"
  using assms
proof (induction xs arbitrary: ys)
  case Nil
  have "ends_value (close # r)"
    using Nil(3) by (auto simp: ends_value_def)
  then show ?case
    using Nil(2,4) by (cases ys) (force simp: join_with_Cons)+
next
  case (Cons x xs)
  define tail where "tail zs q = (if zs = [] then close # q else CHR '','' # join_with '','' (map p zs) @ close # q)" for zs q
  have tail: "ends_value (tail zs q)" and join: "join_with '','' (map p (z # zs)) @ close # q = p z @ tail zs q" for z zs q
    using Cons.prems(3) by (auto simp: ends_value_def tail_def join_with_Cons)
  obtain y ys' where ys: "ys = y # ys'"
  proof (cases ys)
    case Nil
    then have "p x @ tail xs r = close # r'"
      using Cons.prems(4) unfolding join by simp
    moreover have "ends_value (close # r')"
      using Cons.prems(3) by (auto simp: ends_value_def)
    ultimately show ?thesis
      using Cons.prems(2) [of x "tail xs r"] by simp
  qed
  have "p x @ tail xs r = p y @ tail ys' r'"
    using Cons.prems(4) unfolding ys join .
  then have eq: "x = y" "tail xs r = tail ys' r'"
    using Cons.prems(1) [of x y, OF _ _ tail tail] by (simp_all add: ys)
  show ?case
  proof (cases "xs = [] \<or> ys' = []")
    case True
    then show ?thesis
      using eq Cons.prems(3) by (auto simp: ys tail_def split: if_splits)
  next
    case False
    then have j: "join_with '','' (map p xs) @ close # r = join_with '','' (map p ys') @ close # r'"
      using eq(2) by (simp add: tail_def)
    have "xs = ys' \<and> r = r'"
    proof (rule Cons.IH [OF _ _ Cons.prems(3) j])
      fix u v q q'
      assume "u \<in> set xs" "v \<in> set ys'" "ends_value q" "ends_value q'" "p u @ q = p v @ q'"
      then show "u = v \<and> q = q'"
        using Cons.prems(1) [of u v q q'] by (simp add: ys)
    qed (use Cons.prems(2) in \<open>auto simp: ys\<close>)
    then show ?thesis
      using eq(1) by (simp add: ys)
  qed
qed

locale string_token =
  fixes esc :: "string \<Rightarrow> string"
  assumes esc_quote: "\<exists>t. esc s = CHR 0x22 # t"
    and esc_self_delimiting: "esc a @ r = esc b @ r' \<Longrightarrow> a = b \<and> r = r'"
begin

lemma print_head:
  assumes "no_float v"
  shows "\<exists>c t. print_json esc v = c # t \<and> head_class c = kind v"
proof (cases v)
  case (JNum n)
  then show ?thesis
    using num_head [of n] assms by simp
next
  case (JString s)
  obtain t where "esc s = CHR 0x22 # t"
    using esc_quote by blast
  then show ?thesis
    by (simp add: JString head_class.simps is_digit_def)
qed (auto simp: head_class.simps is_digit_def)

lemma print_not_end:
  assumes "no_float v"
  shows "\<not> ends_value (print_json esc v @ r)"
proof -
  obtain c t where ct: "print_json esc v = c # t" "head_class c = kind v"
    using print_head [OF assms] by blast
  have "head_class (CHR '','') = 7" "head_class (CHR '']'') = 7" "head_class (CHR ''}'') = 7"
    by (simp_all add: head_class.simps is_digit_def)
  moreover have "kind v \<noteq> 7"
    by (cases v) auto
  ultimately show ?thesis
    using ct by (auto simp: ends_value_def)
qed

lemma same_kind:
  "no_float a \<Longrightarrow> no_float b \<Longrightarrow> print_json esc a @ r = print_json esc b @ r' \<Longrightarrow> kind a = kind b"
  using print_head [of a] print_head [of b] by auto

lemma esc_not_end: "\<not> ends_value (esc k @ r)"
  using esc_quote [of k] by (auto simp: ends_value_def)

text \<open>A printed value determines the value and the text that follows it.\<close>

lemma print_self_delimiting:
  assumes "no_float a" "no_float b" "json_wf a" "json_wf b" "ends_value r" "ends_value r'"
    "print_json esc a @ r = print_json esc b @ r'"
  shows "a = b \<and> r = r'"
  using assms
proof (induction a arbitrary: b r r')
  case JNull
  then show ?case
    using same_kind [OF JNull.prems(1,2,7)] by (cases b) (auto split: if_splits)
next
  case (JBool x)
  then show ?case
    using same_kind [OF JBool.prems(1,2,7)] by (cases b) (auto split: if_splits)
next
  case (JNum n)
  then obtain m where b: "b = JNum m"
    using same_kind [OF JNum.prems(1,2,7)] by (cases b) (auto split: if_splits)
  have digit: "\<exists>c t. dec k @ q = c # t \<and> c \<noteq> CHR ''-''" for k q
    using dec_head [of k] by (auto simp: is_digit_def)
  note eq = JNum.prems(7) [unfolded b, simplified] and ends = JNum.prems(5,6)
  show ?case
  proof (cases n)
    case (PosInt i)
    then obtain j where m: "m = PosInt j"
      using JNum.prems(1,2) eq digit [of "unat i" r] by (cases m) (auto simp: b)
    have "dec (unat i) @ r = dec (unat j) @ r'"
      using eq by (simp add: PosInt m)
    from dec_self_delimiting [OF this ends] show ?thesis
      by (simp add: b PosInt m word_unat_eq_iff)
  next
    case (NegInt i)
    then obtain j where m: "m = NegInt j"
      using JNum.prems(2) eq digit [of "unat (case m of PosInt k \<Rightarrow> k)" r'] by (cases m) (auto simp: b)
    have "dec (nat (- i)) @ r = dec (nat (- j)) @ r'"
      using eq by (simp add: NegInt m)
    from dec_self_delimiting [OF this ends] show ?thesis
      using JNum.prems(3,4) by (simp add: b NegInt m eq_nat_nat_iff)
  qed (use JNum.prems(1) in simp)
next
  case (JString x)
  then obtain y where b: "b = JString y"
    using same_kind [OF JString.prems(1,2,7)] by (cases b) (auto split: if_splits)
  then show ?case
    using esc_self_delimiting [of x r y r'] JString.prems(7) by simp
next
  case (JArray xs)
  then obtain ys where b: "b = JArray ys"
    using same_kind [OF JArray.prems(1,2,7)] by (cases b) (auto split: if_splits)
  have "xs = ys \<and> r = r'"
  proof (rule join_self_delimiting [where p = "print_json esc" and close = "CHR '']''"])
    fix x y q q'
    assume "x \<in> set xs" "y \<in> set ys" "ends_value q" "ends_value q'" "print_json esc x @ q = print_json esc y @ q'"
    then show "x = y \<and> q = q'"
      using JArray.prems by (intro JArray.IH) (auto simp: b list_all_iff)
  qed (use JArray.prems print_not_end in \<open>auto simp: b list_all_iff\<close>)
  then show ?case by (simp add: b)
next
  case (JObject m)
  then obtain l where b: "b = JObject l"
    using same_kind [OF JObject.prems(1,2,7)] by (cases b) (auto split: if_splits)
  have "m = l \<and> r = r'"
  proof (rule join_self_delimiting [where p = "\<lambda>(k, v). esc k @ '':'' @ print_json esc v" and close = "CHR ''}''"])
    fix x y q q'
    assume in_lists: "x \<in> set m" "y \<in> set l" and "ends_value q" "ends_value q'"
      and eq: "(case x of (k, v) \<Rightarrow> esc k @ '':'' @ print_json esc v) @ q = (case y of (k, v) \<Rightarrow> esc k @ '':'' @ print_json esc v) @ q'"
    obtain k v j w where xy: "x = (k, v)" "y = (j, w)"
      by (metis prod.exhaust)
    have kj: "k = j" "print_json esc v @ q = print_json esc w @ q'"
      using esc_self_delimiting [of k "'':'' @ print_json esc v @ q" j "'':'' @ print_json esc w @ q'"] eq
      by (simp_all add: xy)
    have "v = w \<and> q = q'"
      using JObject.prems in_lists kj(2) \<open>ends_value q\<close> \<open>ends_value q'\<close>
      by (intro JObject.IH [of x v]) (auto simp: b xy list_all_iff)
    then show "x = y \<and> q = q'"
      by (simp add: xy kj)
  qed (use JObject.prems esc_not_end in \<open>auto simp: b\<close>)
  then show ?case by (simp add: b)
qed

end

text \<open>Reading one escaped character back shows that a string token delimits itself.\<close>

definition hex_val :: "char \<Rightarrow> nat" where
  "hex_val c = (let n = of_char c in if n < 58 then n - 48 else n - 87)"

fun unescape_char :: "string \<Rightarrow> (char \<times> string) option" where
  "unescape_char [] = None"
| "unescape_char (c # s) =
     (if c \<noteq> CHR 0x5C then Some (c, s)
      else case s of [] \<Rightarrow> None
        | e # t \<Rightarrow>
           if e = CHR 0x22 \<or> e = CHR 0x5C then Some (e, t)
           else if e = CHR ''b'' then Some (char_of (8 :: nat), t)
           else if e = CHR ''t'' then Some (char_of (9 :: nat), t)
           else if e = CHR ''n'' then Some (char_of (10 :: nat), t)
           else if e = CHR ''f'' then Some (char_of (12 :: nat), t)
           else if e = CHR ''r'' then Some (char_of (13 :: nat), t)
           else Some (char_of (16 * hex_val (t ! 2) + hex_val (t ! 3)), drop 4 t))"

lemma hex_val_digit [simp]: "k < 16 \<Longrightarrow> hex_val (hex_digit k) = k"
  by (auto simp: hex_val_def hex_digit_def of_char_of take_bit_eq_mod Let_def)

lemma of_char_eq: "(of_char c :: nat) = k \<Longrightarrow> c = char_of k"
  by (metis char_of_char)

lemma unescape_escape: "unescape_char (escape_char c @ r) = Some (c, r)"
proof -
  define n where "n = (of_char c :: nat)"
  then have c: "c = char_of n" by (simp add: of_char_eq)
  have ch: "CHR 0x22 = char_of (34 :: nat)" "CHR 0x5C = char_of (92 :: nat)"
    by (simp_all add: of_char_eq)
  consider "n \<in> {34, 92}" | "n \<in> {8, 9, 10, 12, 13}" | "n < 32" "n \<notin> {8, 9, 10, 12, 13}" | "n \<ge> 32" "n \<notin> {34, 92}"
    by force
  then show ?thesis
  proof cases
    case 1
    then show ?thesis
      by (elim insertE) (simp_all add: escape_char_def n_def [symmetric] c ch [symmetric])
  next
    case 2
    then show ?thesis
      by (elim insertE) (simp_all add: escape_char_def n_def [symmetric] c)
  next
    case 3
    then have "n div 16 < 16" "n mod 16 < 16" by auto
    with 3 show ?thesis
      by (simp add: escape_char_def n_def [symmetric] c)
  next
    case 4
    then have "c \<noteq> CHR 0x5C" by (auto simp: n_def)
    with 4 show ?thesis
      by (simp add: escape_char_def n_def [symmetric])
  qed
qed

lemma escape_not_quote: "escape_char c @ r \<noteq> CHR 0x22 # r'"
  by (auto simp: escape_char_def Let_def split: if_splits)

lemma escape_self_delimiting:
  "concat (map escape_char a) @ CHR 0x22 # r = concat (map escape_char b) @ CHR 0x22 # r' \<Longrightarrow> a = b \<and> r = r'"
proof (induction a arbitrary: b)
  case Nil
  show ?case
  proof (cases b)
    case (Cons d b')
    then show ?thesis
      using Nil escape_not_quote [of d "concat (map escape_char b') @ CHR 0x22 # r'" r] by simp
  qed (use Nil in simp)
next
  case (Cons c a)
  show ?case
  proof (cases b)
    case Nil
    then show ?thesis
      using Cons.prems escape_not_quote [of c] by auto
  next
    case (Cons d b')
    let ?p = "concat (map escape_char a) @ CHR 0x22 # r" and ?q = "concat (map escape_char b') @ CHR 0x22 # r'"
    have "unescape_char (escape_char c @ ?p) = unescape_char (escape_char d @ ?q)"
      using Cons.prems by (simp add: Cons)
    then have "c = d" "?p = ?q"
      by (simp_all add: unescape_escape)
    then show ?thesis
      using Cons.IH [of b'] by (simp add: Cons)
  qed
qed

interpretation json_token: string_token json_escape
proof
  show "\<exists>t. json_escape s = CHR 0x22 # t" for s
    by (simp add: json_escape_def)
  show "a = b \<and> r = r'" if "json_escape a @ r = json_escape b @ r'" for a b r r'
    using that escape_self_delimiting [of a r b r'] by (simp add: json_escape_def)
qed

subsection \<open>The encoder writes the members in key order\<close>

lemma insort_key_map: "insort_key f (g x) (map g xs) = map g (insort_key (\<lambda>x. f (g x)) x xs)"
  by (induction xs) auto

lemma sort_key_map: "sort_key f (map g xs) = map g (sort_key (\<lambda>x. f (g x)) xs)"
  by (induction xs) (simp_all add: insort_key_map)

lemma seq_results_uniform:
  "(\<And>x. x \<in> set xs \<Longrightarrow> f x = (if ok x then Inr (g x) else Inl e)) \<Longrightarrow>
   seq_results (map f xs) = (if list_all ok xs then Inr (map g xs) else Inl e)"
  by (induction xs) auto

lemma sort_keys: "sort (map fst m) = map fst (sort_key fst m)"
  using sort_key_map [of "\<lambda>x. x" fst m] by simp

lemma write_value_print:
  "json_wf v \<Longrightarrow>
   write_value esc v = (if no_float v then Inr (print_json esc (norm v)) else Inl NonIntegerNumber)"
proof (induction v)
  case (JArray xs)
  have "seq_results (map (\<lambda>x. write_value esc x) xs) =
      (if list_all no_float xs then Inr (map (\<lambda>x. print_json esc (norm x)) xs) else Inl NonIntegerNumber)"
    using JArray by (intro seq_results_uniform) (auto simp: list_all_iff)
  then show ?case by (simp add: comp_def)
next
  case (JObject m)
  let ?pr = "\<lambda>kv. esc (fst kv) @ '':'' @ print_json esc (norm (snd kv))"
  let ?w = "\<lambda>key. case map_of m key of None \<Rightarrow> Inr [] | Some v \<Rightarrow> and_then (write_value esc v) (\<lambda>t. Inr (esc key @ '':'' @ t))"
  have "seq_results (map (\<lambda>kv. ?w (fst kv)) (sort_key fst m)) =
      (if list_all (\<lambda>kv. no_float (snd kv)) (sort_key fst m) then Inr (map ?pr (sort_key fst m)) else Inl NonIntegerNumber)"
  proof (rule seq_results_uniform)
    fix kv
    assume "kv \<in> set (sort_key fst m)"
    then have kv: "kv \<in> set m" by simp
    then have "map_of m (fst kv) = Some (snd kv)"
      using JObject.prems by simp
    moreover have "write_value esc (snd kv) = (if no_float (snd kv) then Inr (print_json esc (norm (snd kv))) else Inl NonIntegerNumber)"
      using JObject.prems kv by (intro JObject.IH [of kv]) (auto simp: list_all_iff snds.simps)
    ultimately show "?w (fst kv) = (if no_float (snd kv) then Inr (?pr kv) else Inl NonIntegerNumber)"
      by simp
  qed
  then show ?case
    by (simp add: sort_keys comp_def sort_key_map split_beta list_all_iff)
qed auto

lemma norm_no_float: "no_float (norm v) = no_float v"
  by (induction v) (auto simp: list_all_iff snds.simps)

lemma norm_wf: "json_wf v \<Longrightarrow> json_wf (norm v)"
proof (induction v)
  case (JNum n)
  then show ?case by (cases n) auto
next
  case (JObject m)
  let ?m = "map (\<lambda>(k, v). (k, norm v)) m"
  have "map fst ?m = map fst m"
    by auto
  then have "distinct (sort (map fst ?m))"
    using JObject.prems by (simp del: map_map)
  then have "distinct (map fst (sort_key fst ?m))"
    by (simp only: sort_keys)
  with JObject show ?case by (auto simp: list_all_iff)
qed (auto simp: list_all_iff)

context string_token
begin

lemma canonical_bytes_inj:
  assumes "json_wf a" "json_wf b" "to_canonical_bytes esc a = Inr s" "to_canonical_bytes esc b = Inr s"
  shows "norm a = norm b"
proof -
  have f: "no_float a" "no_float b" and "print_json esc (norm a) = print_json esc (norm b)"
    using assms by (auto simp: to_canonical_bytes_def to_canonical_string_def write_value_print split: if_splits)
  then have "print_json esc (norm a) @ [] = print_json esc (norm b) @ []" by simp
  from print_self_delimiting [OF _ _ _ _ _ _ this] show ?thesis
    using f assms(1,2) by (simp add: norm_no_float norm_wf ends_value_def)
qed

lemma canonical_bytes_eq_iff:
  assumes "json_wf a" "json_wf b" "no_float a" "no_float b"
  shows "to_canonical_bytes esc a = to_canonical_bytes esc b \<longleftrightarrow> norm a = norm b"
  using canonical_bytes_inj [OF assms(1,2)] assms
  by (auto simp: to_canonical_bytes_def to_canonical_string_def write_value_print)

end

end
