(* ===== verification/Trust_Store.thy ===== *)
theory Trust_Store
  imports Rfc3339 Canonical_Json "HOL-Library.Product_Lexorder"
begin

text \<open>
  Key trust: the local store of \<open>crates/mx-agent-daemon/src/trust.rs\<close> (a vector of records, one
  per agent and key) and the combination with trust published in a room,
  \<open>trust_state.rs\<close>. The abstract view of a store is the map \<open>status_of\<close> from (agent, key)
  to a status; \<open>approve\<close> and \<open>revoke\<close> refine its updates. The laws the authorization code
  relies on are the locale \<open>key_trust\<close>.
\<close>

subsection \<open>Data\<close>

datatype TrustStatus = Trusted | Revoked

fun trust_status_str :: "TrustStatus \<Rightarrow> string" where
  "trust_status_str Trusted = ''trusted''"
| "trust_status_str Revoked = ''revoked''"

record TrustEntry =
  te_agent_id :: string
  te_key_id :: string
  te_fingerprint :: string
  te_status :: TrustStatus
  te_room :: "string option"
  te_trusted_by :: "string option"
  te_created_at :: u64
  te_revoked_at :: "u64 option"

type_synonym TrustStore = "TrustEntry list"

record TrustState =
  ts_agent_id :: string
  ts_key_id :: string
  ts_fingerprint :: string
  ts_status :: string
  ts_trusted_by :: string
  ts_created_at :: string
  ts_expires_at :: "string option"
  ts_revoked_at :: "string option"
  ts_extra :: members

datatype TrustSource = FromLocal | FromRoom | FromNone

record EffectiveTrust =
  et_agent_id :: string
  et_key_id :: string
  et_trusted :: bool
  et_source :: TrustSource

definition KEY_ID_PREFIX :: string where
  "KEY_ID_PREFIX = ''mxagent-ed25519''"

subsection \<open>The local store\<close>

definition strip_prefix :: "string \<Rightarrow> string \<Rightarrow> string option" where
  "strip_prefix p s = (if prefix p s then Some (drop (length p) s) else None)"

definition fingerprint_from_key_id :: "string \<Rightarrow> string option" where
  "fingerprint_from_key_id key_id =
     Option.bind (Option.bind (strip_prefix KEY_ID_PREFIX key_id) (strip_prefix '':'')) (\<lambda>suffix.
     if suffix = [] then None else Some (''SHA256:'' @ suffix))"

definition entry_is_trusted :: "TrustEntry \<Rightarrow> bool" where
  "entry_is_trusted e \<longleftrightarrow> te_status e = Trusted"

fun position_from :: "nat \<Rightarrow> ('a \<Rightarrow> bool) \<Rightarrow> 'a list \<Rightarrow> nat option" where
  "position_from i P [] = None"
| "position_from i P (x # xs) = (if P x then Some i else position_from (Suc i) P xs)"

definition position :: "TrustStore \<Rightarrow> string \<Rightarrow> string \<Rightarrow> nat option" where
  "position s agent_id key_id =
     position_from 0 (\<lambda>e. te_agent_id e = agent_id \<and> te_key_id e = key_id) s"

definition trust_entry :: "TrustStore \<Rightarrow> string \<Rightarrow> string \<Rightarrow> TrustEntry option" where
  "trust_entry s agent_id key_id = map_option (\<lambda>idx. s ! idx) (position s agent_id key_id)"

definition approve ::
  "u64 \<Rightarrow> string \<Rightarrow> string \<Rightarrow> string option \<Rightarrow> string option \<Rightarrow> string option \<Rightarrow> TrustStore
    \<Rightarrow> TrustEntry \<times> TrustStore" where
  "approve now agent_id key_id fp room trusted_by s =
     (let fingerprint = unwrap_or (or_opt fp (fingerprint_from_key_id key_id)) [] in
      case position s agent_id key_id of
        Some idx \<Rightarrow>
          (let old = s ! idx;
               e = old \<lparr> te_fingerprint := fingerprint, te_status := Trusted, te_revoked_at := None,
                         te_room := or_opt room (te_room old),
                         te_trusted_by := or_opt trusted_by (te_trusted_by old) \<rparr>
           in (e, s[idx := e]))
      | None \<Rightarrow>
          (let e = \<lparr> te_agent_id = agent_id, te_key_id = key_id, te_fingerprint = fingerprint,
                     te_status = Trusted, te_room = room, te_trusted_by = trusted_by,
                     te_created_at = now, te_revoked_at = None \<rparr>
           in (e, s @ [e])))"

definition revoke :: "u64 \<Rightarrow> string \<Rightarrow> string \<Rightarrow> TrustStore \<Rightarrow> TrustEntry option \<times> TrustStore" where
  "revoke now agent_id key_id s = (case position s agent_id key_id of
       None \<Rightarrow> (None, s)
     | Some idx \<Rightarrow>
        (let e = (s ! idx) \<lparr> te_status := Revoked, te_revoked_at := Some now \<rparr>
         in (Some e, s[idx := e])))"

definition is_trusted :: "TrustStore \<Rightarrow> string \<Rightarrow> string \<Rightarrow> bool" where
  "is_trusted s agent_id key_id =
     unwrap_or (map_option (\<lambda>idx. entry_is_trusted (s ! idx)) (position s agent_id key_id)) False"

definition is_key_trusted :: "TrustStore \<Rightarrow> string \<Rightarrow> bool" where
  "is_key_trusted s key_id = list_ex (\<lambda>e. te_key_id e = key_id \<and> entry_is_trusted e) s"

text \<open>Loading (\<open>dcd\<close> is the JSON decoder) and the locked load, modify, save round trip; \<open>enc\<close>
  is the encoder and \<open>wr\<close> the outcome of the write.\<close>

definition trust_load ::
  "(string \<Rightarrow> TrustStore option) \<Rightarrow> (io_error, string) result \<Rightarrow> (io_kind, TrustStore) result" where
  "trust_load dcd file = (case file of
       Inr content \<Rightarrow> ok_or (dcd content) OtherKind
     | Inl e \<Rightarrow> if io_kind e = NotFound then Inr [] else Inl (io_kind e))"

definition update_trust_store ::
  "(string \<Rightarrow> TrustStore option) \<Rightarrow> (TrustStore \<Rightarrow> string) \<Rightarrow> io_kind option \<Rightarrow>
   (TrustStore \<Rightarrow> 'r \<times> TrustStore) \<Rightarrow> (io_error, string) result \<Rightarrow>
   (io_kind, 'r) result \<times> (io_error, string) result" where
  "update_trust_store dcd enc wr f file = (case trust_load dcd file of
       Inl k \<Rightarrow> (Inl k, file)
     | Inr s \<Rightarrow> (case f s of (r, s') \<Rightarrow>
         (case wr of Some k \<Rightarrow> (Inl k, file) | None \<Rightarrow> (Inr r, Inr (enc s')))))"

subsection \<open>Published trust\<close>

definition trust_state_key :: "string \<Rightarrow> string \<Rightarrow> string" where
  "trust_state_key agent_id key_id = agent_id @ ''|'' @ key_id"

definition trust_state_from_entry :: "TrustEntry \<Rightarrow> string \<Rightarrow> TrustState" where
  "trust_state_from_entry e published_by = \<lparr>
     ts_agent_id = te_agent_id e, ts_key_id = te_key_id e, ts_fingerprint = te_fingerprint e,
     ts_status = trust_status_str (te_status e),
     ts_trusted_by = (case te_trusted_by e of Some s \<Rightarrow> if s = [] then published_by else s | None \<Rightarrow> published_by),
     ts_created_at = unix_to_rfc3339 (te_created_at e),
     ts_expires_at = None,
     ts_revoked_at = map_option unix_to_rfc3339 (te_revoked_at e), ts_extra = [] \<rparr>"

definition room_state_grants_trust :: "TrustState \<Rightarrow> bool" where
  "room_state_grants_trust st \<longleftrightarrow> ts_status st = ''trusted'' \<and> ts_revoked_at st = None"

definition effective_trust ::
  "TrustStore \<Rightarrow> TrustState list \<Rightarrow> string \<Rightarrow> string \<Rightarrow> EffectiveTrust" where
  "effective_trust local room_states agent_id key_id = (case trust_entry local agent_id key_id of
       Some e \<Rightarrow> \<lparr> et_agent_id = agent_id, et_key_id = key_id, et_trusted = entry_is_trusted e,
                   et_source = FromLocal \<rparr>
     | None \<Rightarrow>
        (let room_trusted = list_ex room_state_grants_trust
               (filter (\<lambda>s. ts_agent_id s = agent_id \<and> ts_key_id s = key_id) room_states)
         in \<lparr> et_agent_id = agent_id, et_key_id = key_id, et_trusted = room_trusted,
              et_source = (if room_trusted then FromRoom else FromNone) \<rparr>))"

text \<open>\<open>states.sort_by\<close> of \<open>list_trust_states\<close>, a stable sort by agent and key.\<close>

definition sort_trust_states :: "TrustState list \<Rightarrow> TrustState list" where
  "sort_trust_states = sort_key (\<lambda>s. (ts_agent_id s, ts_key_id s))"

definition push_pair :: "string \<times> string \<Rightarrow> (string \<times> string) list \<Rightarrow> (string \<times> string) list" where
  "push_pair p pairs = (if p \<in> set pairs then pairs else pairs @ [p])"

definition effective_trust_table :: "TrustStore \<Rightarrow> TrustState list \<Rightarrow> EffectiveTrust list" where
  "effective_trust_table local room_states =
     (let pairs = fold (\<lambda>e. push_pair (te_agent_id e, te_key_id e)) local [];
          pairs = fold (\<lambda>s. push_pair (ts_agent_id s, ts_key_id s)) room_states pairs
      in map (\<lambda>(agent, key). effective_trust local room_states agent key) (sort pairs))"

subsection \<open>Abstract view and invariant\<close>

definition pair_of :: "TrustEntry \<Rightarrow> string \<times> string" where
  "pair_of e = (te_agent_id e, te_key_id e)"

definition status_of :: "TrustStore \<Rightarrow> string \<times> string \<Rightarrow> TrustStatus option" where
  "status_of s = map_of (map (\<lambda>e. (pair_of e, te_status e)) s)"

definition trust_inv :: "TrustStore \<Rightarrow> bool" where
  "trust_inv s \<longleftrightarrow> distinct (map pair_of s) \<and>
     list_all (\<lambda>e. (te_status e = Trusted) = (te_revoked_at e = None)) s"

text \<open>Operations as data, to speak about histories of a store.\<close>

datatype trust_op =
    OpApprove u64 string string "string option" "string option" "string option"
  | OpRevoke u64 string string

fun run_op :: "trust_op \<Rightarrow> TrustStore \<Rightarrow> TrustStore" where
  "run_op (OpApprove now a k fp room by) s = snd (approve now a k fp room by s)"
| "run_op (OpRevoke now a k) s = snd (revoke now a k s)"

fun spec_op :: "trust_op \<Rightarrow> (string \<times> string \<Rightarrow> TrustStatus option) \<Rightarrow> string \<times> string \<Rightarrow> TrustStatus option" where
  "spec_op (OpApprove now a k fp room by) m = m((a, k) \<mapsto> Trusted)"
| "spec_op (OpRevoke now a k) m = (if m (a, k) = None then m else m((a, k) \<mapsto> Revoked))"

lemma position_from_Some:
  "position_from i P xs = Some j \<Longrightarrow> i \<le> j \<and> j - i < length xs \<and> P (xs ! (j - i)) \<and> (\<forall>l < j - i. \<not> P (xs ! l))"
proof (induction i P xs rule: position_from.induct)
  case (2 i P x xs)
  show ?case
  proof (cases "P x")
    case False
    then have IH: "Suc i \<le> j \<and> j - Suc i < length xs \<and> P (xs ! (j - Suc i)) \<and> (\<forall>l < j - Suc i. \<not> P (xs ! l))"
      using 2 by simp
    then obtain d where "j = Suc i + d"
      by (auto dest: le_Suc_ex)
    then show ?thesis
      using False IH by (simp add: All_less_Suc2)
  qed (use 2 in auto)
qed simp

lemma position_from_None: "position_from i P xs = None \<longleftrightarrow> \<not> list_ex P xs"
  by (induction i P xs rule: position_from.induct) auto

lemma position_Some:
  "position s a k = Some j \<Longrightarrow> j < length s \<and> pair_of (s ! j) = (a, k) \<and> (\<forall>l < j. pair_of (s ! l) \<noteq> (a, k))"
  unfolding position_def by (drule position_from_Some) (auto simp: pair_of_def)

lemma position_None: "position s a k = None \<longleftrightarrow> (a, k) \<notin> pair_of ` set s"
  by (auto simp: position_def position_from_None list_ex_iff pair_of_def image_iff)

lemma status_of_None: "status_of s p = None \<longleftrightarrow> p \<notin> pair_of ` set s"
  by (simp add: status_of_def map_of_eq_None_iff image_image)

lemma status_of_nth:
  "j < length s \<Longrightarrow> pair_of (s ! j) = p \<Longrightarrow> \<forall>l < j. pair_of (s ! l) \<noteq> p \<Longrightarrow> status_of s p = Some (te_status (s ! j))"
proof (induction s arbitrary: j)
  case (Cons e s)
  then show ?case
    by (cases j) (auto simp: status_of_def All_less_Suc2)
qed simp

lemma status_of_position:
  "position s a k = Some j \<Longrightarrow> status_of s (a, k) = Some (te_status (s ! j))"
  using position_Some status_of_nth by blast

lemma status_of_update:
  "j < length s \<Longrightarrow> pair_of e = pair_of (s ! j) \<Longrightarrow> \<forall>l < j. pair_of (s ! l) \<noteq> pair_of e \<Longrightarrow>
   status_of (s[j := e]) = (status_of s)(pair_of e \<mapsto> te_status e)"
proof (induction s arbitrary: j)
  case (Cons x s)
  then show ?case
    by (cases j) (auto simp: status_of_def fun_upd_twist All_less_Suc2)
qed simp

lemma trust_entry_status: "map_option te_status (trust_entry s a k) = status_of s (a, k)"
proof (cases "position s a k")
  case None
  then have "status_of s (a, k) = None"
    by (simp add: position_None status_of_None)
  with None show ?thesis
    by (simp add: trust_entry_def)
qed (simp add: trust_entry_def status_of_position)

lemma is_trusted_status: "is_trusted s a k \<longleftrightarrow> status_of s (a, k) = Some Trusted"
  using trust_entry_status [of s a k]
  by (cases "position s a k") (auto simp: is_trusted_def entry_is_trusted_def trust_entry_def)

lemma approve_status: "status_of (snd (approve now a k fp room by s)) = (status_of s)((a, k) \<mapsto> Trusted)"
proof (cases "position s a k")
  case None
  then have "status_of s (a, k) = None" by (simp add: position_None status_of_None)
  then show ?thesis
    using None by (auto simp: approve_def status_of_def pair_of_def map_add_def Let_def split: option.splits)
next
  case (Some j)
  note p = position_Some [OF Some]
  show ?thesis
    using p by (simp add: approve_def Some Let_def) (subst status_of_update, auto simp: pair_of_def)
qed

lemma revoke_status:
  "status_of (snd (revoke now a k s)) =
   (if status_of s (a, k) = None then status_of s else (status_of s)((a, k) \<mapsto> Revoked))"
proof (cases "position s a k")
  case None
  then have "status_of s (a, k) = None" by (simp add: position_None status_of_None)
  then show ?thesis using None by (simp add: revoke_def)
next
  case (Some j)
  note p = position_Some [OF Some]
  show ?thesis
    using p status_of_position [OF Some]
    by (simp add: revoke_def Some Let_def) (subst status_of_update, auto simp: pair_of_def)
qed

lemma run_op_status: "status_of (run_op op s) = spec_op op (status_of s)"
  by (cases op) (simp_all add: approve_status revoke_status)

lemma pair_of_update: "j < length s \<Longrightarrow> pair_of e = pair_of (s ! j) \<Longrightarrow> map pair_of (s[j := e]) = map pair_of s"
  by (simp add: map_update list_update_same_conv)

lemma list_all_update: "list_all P s \<Longrightarrow> P e \<Longrightarrow> list_all P (s[j := e])"
  by (auto simp: list_all_iff dest!: set_update_subset_insert [THEN subsetD])

lemma run_op_inv [mx_inv]:
  assumes inv: "trust_inv s"
  shows "trust_inv (run_op op s)"
proof (cases op)
  case (OpApprove now a k fp room who)
  show ?thesis
  proof (cases "position s a k")
    case None
    then show ?thesis
      using inv position_None [of s a k]
      by (auto simp: OpApprove approve_def Let_def trust_inv_def pair_of_def)
  next
    case (Some j)
    note p = position_Some [OF Some]
    show ?thesis
      using inv p unfolding trust_inv_def OpApprove
      by (simp add: approve_def Some Let_def list_all_update) (subst pair_of_update, auto simp: pair_of_def)
  qed
next
  case (OpRevoke now a k)
  show ?thesis
  proof (cases "position s a k")
    case (Some j)
    note p = position_Some [OF Some]
    show ?thesis
      using inv p unfolding trust_inv_def OpRevoke
      by (simp add: revoke_def Some Let_def list_all_update) (subst pair_of_update, auto simp: pair_of_def)
  qed (use inv in \<open>simp add: OpRevoke revoke_def\<close>)
qed

lemma status_of_iff:
  assumes "trust_inv s"
  shows "status_of s p = Some x \<longleftrightarrow> (\<exists>e\<in>set s. pair_of e = p \<and> te_status e = x)"
proof -
  have "distinct (map fst (map (\<lambda>e. (pair_of e, te_status e)) s))"
    using assms by (simp add: trust_inv_def comp_def)
  then show ?thesis
    unfolding status_of_def by (subst map_of_eq_Some_iff) auto
qed

lemma is_key_trusted_status:
  assumes "trust_inv s"
  shows "is_key_trusted s k \<longleftrightarrow> (\<exists>a. status_of s (a, k) = Some Trusted)"
  unfolding status_of_iff [OF assms] is_key_trusted_def list_ex_iff entry_is_trusted_def pair_of_def
  by auto

lemma run_ops_status: "status_of (fold run_op ops s) = fold spec_op ops (status_of s)"
  by (induction ops arbitrary: s) (simp_all add: run_op_status)

lemma run_ops_inv [mx_inv]: "trust_inv s \<Longrightarrow> trust_inv (fold run_op ops s)"
  by (induction ops arbitrary: s) (simp_all add: run_op_inv)

lemma trust_inv_Nil [simp]: "trust_inv []"
  by (simp add: trust_inv_def)

subsection \<open>The interface of key trust\<close>

text \<open>What an authorization gate relies on: approving a pair makes it trusted and leaves every other
  pair as it was, revoking makes it untrusted and never makes anything trusted, and a key is trusted
  exactly when some agent holds it as trusted.\<close>

locale key_trust =
  fixes grant :: "string \<Rightarrow> string \<Rightarrow> 's \<Rightarrow> 's"
    and withdraw :: "string \<Rightarrow> string \<Rightarrow> 's \<Rightarrow> 's"
    and pair_ok :: "'s \<Rightarrow> string \<Rightarrow> string \<Rightarrow> bool"
    and key_ok :: "'s \<Rightarrow> string \<Rightarrow> bool"
    and invar :: "'s \<Rightarrow> bool"
  assumes grant_pair: "invar s \<Longrightarrow> pair_ok (grant a k s) b j \<longleftrightarrow> (b, j) = (a, k) \<or> pair_ok s b j"
    and withdraw_pair: "invar s \<Longrightarrow> pair_ok (withdraw a k s) b j \<longleftrightarrow> (b, j) \<noteq> (a, k) \<and> pair_ok s b j"
    and key_ok_iff: "invar s \<Longrightarrow> key_ok s k \<longleftrightarrow> (\<exists>a. pair_ok s a k)"
    and grant_invar: "invar s \<Longrightarrow> invar (grant a k s)"
    and withdraw_invar: "invar s \<Longrightarrow> invar (withdraw a k s)"
begin

lemma granted_key: "invar s \<Longrightarrow> key_ok (grant a k s) k"
  by (auto simp: key_ok_iff grant_invar grant_pair)

lemma withdrawn_key: "invar s \<Longrightarrow> key_ok (withdraw a k s) k \<longleftrightarrow> (\<exists>b. b \<noteq> a \<and> pair_ok s b k)"
  by (auto simp: key_ok_iff withdraw_invar withdraw_pair)

lemma withdrawn_sole_holder:
  "invar s \<Longrightarrow> (\<And>b. pair_ok s b k \<Longrightarrow> b = a) \<Longrightarrow> \<not> key_ok (withdraw a k s) k"
  by (auto simp: withdrawn_key)

lemma withdraw_other_key: "invar s \<Longrightarrow> j \<noteq> k \<Longrightarrow> key_ok (withdraw a k s) j \<longleftrightarrow> key_ok s j"
  by (simp add: key_ok_iff withdraw_invar withdraw_pair)

end

lemma approve_inv: "trust_inv s \<Longrightarrow> trust_inv (snd (approve now a k fp room tb s))"
  using run_op_inv [of s "OpApprove now a k fp room tb"] by simp

lemma revoke_inv: "trust_inv s \<Longrightarrow> trust_inv (snd (revoke now a k s))"
  using run_op_inv [of s "OpRevoke now a k"] by simp

interpretation trust: key_trust
  "\<lambda>a k s. snd (approve now a k fp room tb s)" "\<lambda>a k s. snd (revoke now a k s)"
  is_trusted is_key_trusted trust_inv for now fp room tb
  by unfold_locales
    (auto simp: is_trusted_status approve_status revoke_status is_key_trusted_status approve_inv revoke_inv)

lemma fold_push_pair:
  "set (fold (\<lambda>x. push_pair (f x)) xs ps) = set ps \<union> f ` set xs \<and>
   (distinct ps \<longrightarrow> distinct (fold (\<lambda>x. push_pair (f x)) xs ps))"
  by (induction xs arbitrary: ps) (auto simp: push_pair_def)

lemma table_pairs:
  "\<exists>pairs. sorted_wrt (<) pairs \<and>
     set pairs = (\<lambda>e. (te_agent_id e, te_key_id e)) ` set local
       \<union> (\<lambda>s. (ts_agent_id s, ts_key_id s)) ` set room_states \<and>
     effective_trust_table local room_states = map (\<lambda>(a, k). effective_trust local room_states a k) pairs"
proof -
  let ?p1 = "fold (\<lambda>e. push_pair (te_agent_id e, te_key_id e)) local []"
  let ?p2 = "fold (\<lambda>s. push_pair (ts_agent_id s, ts_key_id s)) room_states ?p1"
  have "distinct ?p2" "set ?p2 = (\<lambda>e. (te_agent_id e, te_key_id e)) ` set local
       \<union> (\<lambda>s. (ts_agent_id s, ts_key_id s)) ` set room_states"
    using fold_push_pair [where f = "\<lambda>e. (te_agent_id e, te_key_id e)" and xs = local and ps = "[]"]
      fold_push_pair [where f = "\<lambda>s. (ts_agent_id s, ts_key_id s)" and xs = room_states and ps = ?p1]
    by auto
  then show ?thesis
    by (intro exI [of _ "sort ?p2"]) (simp add: effective_trust_table_def strict_sorted_iff)
qed

subsection \<open>Properties\<close>

text \<open>C10. The store refines a map. Over any history of approvals and revocations of a fresh store
  the records denote the map obtained by the same updates of a map from (agent, key) to a status:
  no pair has two records, a record is revoked exactly when it carries a revocation time, and a pair
  is trusted exactly when the last operation on it was an approval.\<close>

theorem trust_store_refines:
  "status_of (fold run_op ops []) = fold spec_op ops Map.empty \<and> trust_inv (fold run_op ops []) \<and>
   is_trusted (fold run_op ops []) a k = (fold spec_op ops Map.empty (a, k) = Some Trusted)"
proof -
  have "status_of [] = Map.empty"
    by (simp add: status_of_def)
  then have "status_of (fold run_op ops []) = fold spec_op ops Map.empty"
    using run_ops_status [of ops "[]"] by simp
  then show ?thesis
    by (simp add: run_ops_inv is_trusted_status)
qed

text \<open>What revoking a key takes away. After a revocation the pair is untrusted and no other
  pair has changed, but the gates that consult the key alone still accept it exactly when another
  agent holds a trusted record of the same key.\<close>

theorem revoke_key_effect:
  assumes "trust_inv s"
  shows "\<not> is_trusted (snd (revoke now a k s)) a k \<and>
    (is_key_trusted (snd (revoke now a k s)) k = (\<exists>b. b \<noteq> a \<and> is_trusted s b k)) \<and>
    (j \<noteq> k) \<le> (is_key_trusted (snd (revoke now a k s)) j = is_key_trusted s j)"
  using trust.withdrawn_key [OF assms] trust.withdraw_pair [OF assms] trust.withdraw_other_key [OF assms]
  by auto

theorem revoke_key_effect_witness:
  "is_key_trusted (snd (revoke 7 ''a'' ''k''
     (snd (approve 2 ''b'' ''k'' None None None (snd (approve 1 ''a'' ''k'' None None None [])))))) ''k''"
proof -
  let ?s = "snd (approve 2 ''b'' ''k'' None None None (snd (approve 1 ''a'' ''k'' None None None [])))"
  have inv: "trust_inv ?s" and b: "is_trusted ?s ''b'' ''k''"
    by (simp_all add: approve_inv is_trusted_status approve_status)
  have "''b'' \<noteq> ''a''"
    by simp
  with b have "\<exists>b. b \<noteq> ''a'' \<and> is_trusted ?s b ''k''"
    by (intro exI conjI)
  then show ?thesis
    by (rule iffD2 [OF revoke_key_effect [OF inv, THEN conjunct2, THEN conjunct1]])
qed

text \<open>Local trust has the last word. A local record decides alone; without one a room record
  grants trust exactly when it says trusted and carries no revocation; without either the answer is
  no. The table of all pairs is sorted, lists every pair known to either side exactly once, and agrees
  with the single decision.\<close>

theorem effective_trust_local_first:
  "et_trusted (effective_trust local rs a k) =
     (case status_of local (a, k) of
        Some st \<Rightarrow> st = Trusted
      | None \<Rightarrow> list_ex (\<lambda>s. ts_agent_id s = a \<and> ts_key_id s = k \<and> ts_status s = ''trusted'' \<and> ts_revoked_at s = None) rs) \<and>
   sorted_wrt (<) (map (\<lambda>t. (et_agent_id t, et_key_id t)) (effective_trust_table local rs)) \<and>
   set (effective_trust_table local rs) =
     (\<lambda>(a, k). effective_trust local rs a k) ` (pair_of ` set local \<union> (\<lambda>s. (ts_agent_id s, ts_key_id s)) ` set rs)"
proof (intro conjI)
  have "et_trusted (effective_trust local rs a k) = (case trust_entry local a k of
      Some e \<Rightarrow> te_status e = Trusted
    | None \<Rightarrow> list_ex (\<lambda>s. ts_agent_id s = a \<and> ts_key_id s = k \<and> ts_status s = ''trusted'' \<and> ts_revoked_at s = None) rs)"
    by (auto simp: effective_trust_def entry_is_trusted_def Let_def list_ex_iff room_state_grants_trust_def
        split: option.splits)
  then show "et_trusted (effective_trust local rs a k) = (case status_of local (a, k) of
        Some st \<Rightarrow> st = Trusted
      | None \<Rightarrow> list_ex (\<lambda>s. ts_agent_id s = a \<and> ts_key_id s = k \<and> ts_status s = ''trusted'' \<and> ts_revoked_at s = None) rs)"
    using trust_entry_status [of local a k] by (cases "trust_entry local a k") (auto split: option.splits)
  obtain pairs where p: "sorted_wrt (<) pairs"
    "set pairs = (\<lambda>e. (te_agent_id e, te_key_id e)) ` set local \<union> (\<lambda>s. (ts_agent_id s, ts_key_id s)) ` set rs"
    "effective_trust_table local rs = map (\<lambda>(a, k). effective_trust local rs a k) pairs"
    using table_pairs [of local rs] by blast
  have id: "(et_agent_id (effective_trust local rs a k), et_key_id (effective_trust local rs a k)) = (a, k)" for a k
    by (auto simp: effective_trust_def Let_def split: option.splits)
  then show "sorted_wrt (<) (map (\<lambda>t. (et_agent_id t, et_key_id t)) (effective_trust_table local rs))"
    using p(1) by (simp add: p(3) comp_def split_beta)
  show "set (effective_trust_table local rs) =
     (\<lambda>(a, k). effective_trust local rs a k) ` (pair_of ` set local \<union> (\<lambda>s. (ts_agent_id s, ts_key_id s)) ` set rs)"
    by (simp add: p(2,3) pair_of_def)
qed

text \<open>Publishing preserves the decision. A record of a store built by approvals and
  revocations, published to a room and read by a daemon that has no record of the pair, makes that
  daemon trust the pair exactly when the publisher does.\<close>

theorem published_trust_agrees:
  assumes "trust_inv s" "e \<in> set s" "te_agent_id e = a" "te_key_id e = k" "status_of peer (a, k) = None"
  shows "et_trusted (effective_trust peer [trust_state_from_entry e published_by] a k) = is_trusted s a k"
proof -
  have "status_of s (a, k) = Some (te_status e)"
    using assms(2-4) by (auto simp: status_of_iff [OF assms(1)] pair_of_def)
  moreover have "trust_entry peer a k = None"
    using trust_entry_status [of peer a k] assms(5) by simp
  moreover have "(te_status e = Trusted) = (te_revoked_at e = None)"
    using assms(1,2) by (simp add: trust_inv_def list_all_iff)
  ultimately show ?thesis
    using assms(3,4)
    by (cases "te_status e")
      (simp_all add: effective_trust_def Let_def trust_state_from_entry_def room_state_grants_trust_def is_trusted_status)
qed

theorem published_trust_agrees_witness:
  "et_trusted (effective_trust [] [trust_state_from_entry (fst (approve 1 ''a'' ''k'' None None None [])) ''@me:x''] ''a'' ''k'')"
proof -
  let ?s = "snd (approve 1 ''a'' ''k'' None None None [])" and ?e = "fst (approve 1 ''a'' ''k'' None None None [])"
  have "trust_inv ?s" "is_trusted ?s ''a'' ''k''"
    by (simp_all add: approve_inv is_trusted_status approve_status)
  moreover have "?e \<in> set ?s" "te_agent_id ?e = ''a''" "te_key_id ?e = ''k''" "status_of [] (''a'', ''k'') = None"
    by (simp_all add: approve_def position_def Let_def status_of_def)
  ultimately show ?thesis
    using published_trust_agrees by blast
qed

end
