(* ===== verification/Signing.thy ===== *)
theory Signing
  imports Canonical_Json "HOL-Library.AList"
begin

text \<open>
  Detached signatures over canonical JSON, \<open>crates/mx-agent-protocol/src/signing.rs\<close>. Ed25519,
  base64 and the JSON string writer are third party code: they are the fields of a record
  \<open>crypto\<close> that every operation takes, and \<open>signature_laws\<close> states what is documented of
  them (decoding undoes encoding, a signature verifies under the matching public key).
\<close>

record Signature =
  sg_alg :: string
  sg_key_id :: string
  sg_sig :: string

datatype SignatureError =
    NotAnObject
  | MissingSignature
  | UnsupportedAlg string
  | MalformedSignature
  | Invalid
  | NonCanonical CanonicalJsonError

record ('sk, 'vk) crypto =
  cr_esc :: "string \<Rightarrow> string"
  cr_sign :: "'sk \<Rightarrow> string \<Rightarrow> string"
  cr_from_slice :: "string \<Rightarrow> string option"
  cr_verify :: "'vk \<Rightarrow> string \<Rightarrow> string \<Rightarrow> bool"
  cr_b64_encode :: "string \<Rightarrow> string"
  cr_b64_decode :: "string \<Rightarrow> string option"

definition SIGNATURE_FIELD :: string where
  "SIGNATURE_FIELD = ''signature''"

definition ALG_ED25519 :: string where
  "ALG_ED25519 = ''ed25519''"

text \<open>\<open>serde_json::to_value\<close> and \<open>from_value\<close> on the derived struct; deserialising accepts an
  object with the three members (others are ignored) or the sequence of the three fields.\<close>

definition signature_to_json :: "Signature \<Rightarrow> json" where
  "signature_to_json s = JObject [(''alg'', JString (sg_alg s)), (''key_id'', JString (sg_key_id s)),
     (''sig'', JString (sg_sig s))]"

definition signature_of_fields :: "json option \<Rightarrow> json option \<Rightarrow> json option \<Rightarrow> Signature option" where
  "signature_of_fields a k s = (case (a, k, s) of
       (Some (JString a'), Some (JString k'), Some (JString s')) \<Rightarrow>
         Some \<lparr> sg_alg = a', sg_key_id = k', sg_sig = s' \<rparr>
     | _ \<Rightarrow> None)"

definition signature_from_json :: "json \<Rightarrow> Signature option" where
  "signature_from_json v = (case v of
       JObject m \<Rightarrow> signature_of_fields (map_of m ''alg'') (map_of m ''key_id'') (map_of m ''sig'')
     | JArray [a, k, s] \<Rightarrow> signature_of_fields (Some a) (Some k) (Some s)
     | _ \<Rightarrow> None)"

definition unsigned_members :: "(string \<times> json) list \<Rightarrow> (string \<times> json) list" where
  "unsigned_members m = filter (\<lambda>(key, _). key \<noteq> SIGNATURE_FIELD) m"

definition signing_bytes :: "('sk, 'vk) crypto \<Rightarrow> json \<Rightarrow> (SignatureError, string) result" where
  "signing_bytes cr content = (case content of
       JObject obj \<Rightarrow> map_err NonCanonical (to_canonical_bytes (cr_esc cr) (JObject (unsigned_members obj)))
     | _ \<Rightarrow> Inl NotAnObject)"

definition sign :: "('sk, 'vk) crypto \<Rightarrow> 'sk \<Rightarrow> string \<Rightarrow> json \<Rightarrow> (SignatureError, Signature) result" where
  "sign cr sk key_id content =
     and_then (signing_bytes cr content) (\<lambda>bs.
     Inr \<lparr> sg_alg = ALG_ED25519, sg_key_id = key_id, sg_sig = cr_b64_encode cr (cr_sign cr sk bs) \<rparr>)"

definition sign_into :: "('sk, 'vk) crypto \<Rightarrow> 'sk \<Rightarrow> string \<Rightarrow> json \<Rightarrow> (SignatureError, json) result" where
  "sign_into cr sk key_id content =
     and_then (sign cr sk key_id content) (\<lambda>signature.
     case content of
       JObject obj \<Rightarrow> Inr (JObject (AList.update SIGNATURE_FIELD (signature_to_json signature) obj))
     | _ \<Rightarrow> Inl NotAnObject)"

definition verify_signature ::
  "('sk, 'vk) crypto \<Rightarrow> 'vk \<Rightarrow> Signature \<Rightarrow> string \<Rightarrow> (SignatureError, unit) result" where
  "verify_signature cr vk signature bs =
     (if sg_alg signature \<noteq> ALG_ED25519 then Inl (UnsupportedAlg (sg_alg signature))
      else
        and_then (ok_or (cr_b64_decode cr (sg_sig signature)) MalformedSignature) (\<lambda>raw.
        and_then (ok_or (cr_from_slice cr raw) MalformedSignature) (\<lambda>ed_sig.
        if cr_verify cr vk bs ed_sig then Inr () else Inl Invalid)))"

definition verify :: "('sk, 'vk) crypto \<Rightarrow> 'vk \<Rightarrow> json \<Rightarrow> (SignatureError, unit) result" where
  "verify cr vk content = (case content of
       JObject obj \<Rightarrow>
         and_then (ok_or (map_of obj SIGNATURE_FIELD) MissingSignature) (\<lambda>sig_value.
         and_then (ok_or (signature_from_json sig_value) MalformedSignature) (\<lambda>signature.
         and_then (signing_bytes cr content) (\<lambda>bs.
         verify_signature cr vk signature bs)))
     | _ \<Rightarrow> Inl NotAnObject)"

text \<open>\<open>verify_signed\<close> serialises a typed event first; \<open>to_value\<close> is that serialisation.\<close>

definition verify_signed ::
  "('sk, 'vk) crypto \<Rightarrow> ('t \<Rightarrow> json option) \<Rightarrow> 'vk \<Rightarrow> 't \<Rightarrow> (SignatureError, unit) result" where
  "verify_signed cr to_value vk event = and_then (ok_or (to_value event) NotAnObject) (verify cr vk)"

definition signature_laws :: "('sk, 'vk) crypto \<Rightarrow> ('sk \<Rightarrow> 'vk) \<Rightarrow> bool" where
  "signature_laws cr public \<longleftrightarrow>
     (\<forall>x. cr_b64_decode cr (cr_b64_encode cr x) = Some x) \<and>
     (\<forall>sk bs. cr_from_slice cr (cr_sign cr sk bs) = Some (cr_sign cr sk bs) \<and>
        cr_verify cr (public sk) bs (cr_sign cr sk bs))"

subsection \<open>Lemmas\<close>

lemma signature_json_roundtrip [simp]: "signature_from_json (signature_to_json s) = Some s"
  by (simp add: signature_from_json_def signature_to_json_def signature_of_fields_def)

lemma unsigned_update [simp]: "unsigned_members (AList.update SIGNATURE_FIELD v m) = unsigned_members m"
  unfolding unsigned_members_def by (induction m) auto

lemma signing_bytes_ignores_signature:
  "signing_bytes cr (JObject (AList.update SIGNATURE_FIELD v m)) = signing_bytes cr (JObject m)"
  by (simp add: signing_bytes_def)

lemma sign_into_verifies:
  assumes "signature_laws cr public" "sign_into cr sk key_id c = Inr c'"
  shows "verify cr (public sk) c' = Inr ()"
  using assms
  by (cases c)
    (auto simp: sign_into_def sign_def verify_def verify_signature_def signature_laws_def
      signing_bytes_ignores_signature update_conv)

lemma unsigned_wf: "json_wf (JObject m) \<Longrightarrow> json_wf (JObject (unsigned_members m))"
  by (auto simp: unsigned_members_def list_all_iff distinct_map_filter)

lemma signing_bytes_total:
  assumes "json_wf (JObject m)"
  shows "(\<exists>bs. signing_bytes cr (JObject m) = Inr bs) \<longleftrightarrow> no_float (JObject (unsigned_members m))"
  using unsigned_wf [OF assms]
  by (auto simp: signing_bytes_def to_canonical_bytes_def to_canonical_string_def write_value_print
      simp del: write_value.simps)

lemma signing_bytes_binds:
  assumes "string_token (cr_esc cr)" "json_wf (JObject a)" "json_wf (JObject b)"
    "signing_bytes cr (JObject a) = Inr bs"
  shows "signing_bytes cr (JObject b) = Inr bs \<longleftrightarrow>
    no_float (JObject (unsigned_members b)) \<and>
    norm (JObject (unsigned_members a)) = norm (JObject (unsigned_members b))"
proof -
  note wf = unsigned_wf [OF assms(2)] unsigned_wf [OF assms(3)]
  have "to_canonical_bytes (cr_esc cr) (JObject (unsigned_members a)) = Inr bs"
    "no_float (JObject (unsigned_members a))"
    using assms(4) signing_bytes_total [OF assms(2), of cr] by (auto simp: signing_bytes_def)
  then show ?thesis
    using string_token.canonical_bytes_eq_iff [OF assms(1) wf]
      signing_bytes_total [OF assms(3), of cr]
    by (auto simp: signing_bytes_def)
qed

subsection \<open>Properties\<close>

text \<open>C21. Canonical bytes identify the content. For JSON values with distinct keys the encoder
  fails exactly on values that contain a floating point number, and two values have the same bytes
  exactly when they are equal up to the order of object members at every level, provided the string
  writer starts its tokens with a quote and delimits them.\<close>

theorem canonical_bytes_identify:
  assumes "string_token esc" "json_wf a" "json_wf b"
  shows "((\<exists>s. to_canonical_bytes esc a = Inr s) = no_float a) \<and>
    ((\<exists>s. to_canonical_bytes esc a = Inr s \<and> to_canonical_bytes esc b = Inr s) =
      (no_float a \<and> no_float b \<and> norm a = norm b))"
proof -
  have t: "(\<exists>s. to_canonical_bytes esc v = Inr s) = no_float v" if "json_wf v" for v
    using that
    by (auto simp: to_canonical_bytes_def to_canonical_string_def write_value_print simp del: write_value.simps)
  then show ?thesis
    using string_token.canonical_bytes_eq_iff [OF assms] t [OF assms(2)] t [OF assms(3)] by metis
qed

theorem canonical_bytes_identify_witness:
  "\<exists>s. to_canonical_bytes json_escape (JObject [(''b'', JNull), (''a'', JBool True)]) = Inr s \<and>
     to_canonical_bytes json_escape (JObject [(''a'', JBool True), (''b'', JNull)]) = Inr s"
proof -
  let ?a = "JObject [(''b'', JNull), (''a'', JBool True)]" and ?b = "JObject [(''a'', JBool True), (''b'', JNull)]"
  have wf: "json_wf ?a" "json_wf ?b" and "no_float ?a" "no_float ?b" "norm ?a = norm ?b"
    by code_simp+
  then show ?thesis
    using canonical_bytes_identify [OF json_token.string_token_axioms wf] by blast
qed

text \<open>C11. A signature covers everything but itself. Signing an object and verifying the result
  under the matching key succeeds; the bytes signed do not depend on the signature member; and two
  contents are signed over the same bytes exactly when they agree, up to member order, on every
  member other than the signature. So a content that was altered anywhere else is verified against
  bytes that were never signed.\<close>

theorem signature_covers_content:
  assumes "string_token (cr_esc cr)" "signature_laws cr public"
    and "json_wf (JObject a)" "json_wf (JObject b)"
    and "no_float (JObject (unsigned_members a))" "no_float (JObject (unsigned_members b))"
  shows "(\<exists>c. sign_into cr sk key_id (JObject a) = Inr c \<and> verify cr (public sk) c = Inr ()
      \<and> signing_bytes cr c = signing_bytes cr (JObject a)) \<and>
    ((signing_bytes cr (JObject a) = signing_bytes cr (JObject b)) =
      (norm (JObject (unsigned_members a)) = norm (JObject (unsigned_members b))))"
proof -
  obtain bs where bs: "signing_bytes cr (JObject a) = Inr bs"
    using signing_bytes_total [OF assms(3), of cr] assms(5) by blast
  then obtain c where c: "sign_into cr sk key_id (JObject a) = Inr c"
    by (simp add: sign_into_def sign_def)
  have "signing_bytes cr c = signing_bytes cr (JObject a)"
    using c by (auto simp: sign_into_def signing_bytes_ignores_signature)
  then show ?thesis
    using sign_into_verifies [OF assms(2) c] c signing_bytes_binds [OF assms(1,3,4) bs] assms(6) bs
    by metis
qed

text \<open>For the witness: keys are strings, the signature of a text is the key followed by the text.\<close>

definition demo_crypto :: "(string, string) crypto" where
  "demo_crypto = \<lparr> cr_esc = json_escape, cr_sign = (\<lambda>sk bs. sk @ bs), cr_from_slice = Some,
     cr_verify = (\<lambda>vk bs s. s = vk @ bs), cr_b64_encode = (\<lambda>s. s), cr_b64_decode = Some \<rparr>"

lemma demo_crypto_laws: "signature_laws demo_crypto (\<lambda>sk. sk)" "string_token (cr_esc demo_crypto)"
  using json_token.string_token_axioms by (simp_all add: signature_laws_def demo_crypto_def)

theorem signature_covers_content_witness:
  "\<exists>c. sign_into demo_crypto ''sk'' ''kid'' (JObject [(''nonce'', JString ''n1'')]) = Inr c \<and>
     verify demo_crypto ''sk'' c = Inr ()"
  using signature_covers_content [OF demo_crypto_laws(2,1),
      of "[(''nonce'', JString ''n1'')]" "[(''nonce'', JString ''n2'')]" "''sk''" "''kid''"]
  by (simp add: unsigned_members_def SIGNATURE_FIELD_def) blast

end
