(* ===== verification/Task_Schema.thy ===== *)
theory Task_Schema
  imports Signing
begin

text \<open>
  The task and invocation records of \<open>crates/mx-agent-protocol/src/schema.rs\<close> and the signature
  that makes a task action executable (\<open>task_action_signing_value\<close>,
  \<open>verify_task_action_signature\<close> and \<open>sign_task_action\<close> of
  \<open>crates/mx-agent-daemon/src/task_orchestrator.rs\<close>). The forward-compatible \<open>extra\<close> members
  of the records take no part in what is modelled and are left out.
\<close>

subsection \<open>Records\<close>

record TaskActionAuthorization =
  au_requesting_agent :: string
  au_target_agent :: string
  au_created_at :: string
  au_expires_at :: string
  au_nonce :: string
  au_signature :: Signature
  au_extra :: members

datatype TaskAction =
    ToolAction (ta_tool: string) (ta_args: json) (ta_auth: "TaskActionAuthorization option")
  | ExecAction (ta_command: "string list") (ta_cwd: string) (ta_env: "string bmap")
      (ta_timeout_ms: "u64 option") (ta_stream: bool) (ta_auth: "TaskActionAuthorization option")

record TaskResult =
  tr_status :: string
  tr_completed_by :: string
  tr_completed_at :: string
  tr_invocation_id :: "string option"
  tr_action :: "string option"
  tr_reason :: "string option"
  tr_exit_code :: "int option"
  tr_summary :: "string option"
  tr_artifact_mxc :: "string option"
  tr_extra :: members

record TaskState =
  tk_task_id :: string
  tk_title :: string
  tk_description :: string
  tk_state :: string
  tk_assigned_to :: string
  tk_created_by :: string
  tk_depends_on :: "string list"
  tk_blocks :: "string list"
  tk_invocation_id :: "string option"
  tk_created_at :: string
  tk_updated_at :: string
  tk_state_rev :: u64
  tk_previous_event_id :: "string option"
  tk_result :: "json option"
  tk_action :: "TaskAction option"
  tk_extra :: members

record InvocationState =
  iv_invocation_id :: string
  iv_task_id :: "string option"
  iv_requester :: string
  iv_target :: string
  iv_state :: string
  iv_created_at :: string
  iv_updated_at :: string
  iv_exit_code :: "int option"
  iv_state_rev :: u64
  iv_extra :: members

subsection \<open>Methods of the records\<close>

fun action_kind :: "TaskAction \<Rightarrow> string" where
  "action_kind (ToolAction _ _ _) = ''tool''"
| "action_kind (ExecAction _ _ _ _ _ _) = ''exec''"

definition authorization :: "TaskAction \<Rightarrow> TaskActionAuthorization option" where
  "authorization a = ta_auth a"

fun without_authorization :: "TaskAction \<Rightarrow> TaskAction" where
  "without_authorization (ToolAction tool args _) = ToolAction tool args None"
| "without_authorization (ExecAction command cwd env timeout_ms stream _) =
     ExecAction command cwd env timeout_ms stream None"

fun with_authorization :: "TaskAction \<Rightarrow> TaskActionAuthorization \<Rightarrow> TaskAction" where
  "with_authorization (ToolAction tool args _) auth = ToolAction tool args (Some auth)"
| "with_authorization (ExecAction command cwd env timeout_ms stream _) auth =
     ExecAction command cwd env timeout_ms stream (Some auth)"

text \<open>The derived serialisation of an optional string or number: \<open>null\<close> when absent.\<close>

definition opt_json :: "('a \<Rightarrow> json) \<Rightarrow> 'a option \<Rightarrow> json" where
  "opt_json f v = (case v of None \<Rightarrow> JNull | Some x \<Rightarrow> f x)"

definition int_json :: "int \<Rightarrow> json" where
  "int_json i = JNum (if i < 0 then NegInt i else PosInt (word_of_int i))"

definition into_value :: "TaskResult \<Rightarrow> json" where
  "into_value r = JObject ([
     (''status'', JString (tr_status r)),
     (''completed_by'', JString (tr_completed_by r)),
     (''completed_at'', JString (tr_completed_at r)),
     (''invocation_id'', opt_json JString (tr_invocation_id r)),
     (''action'', opt_json JString (tr_action r)),
     (''reason'', opt_json JString (tr_reason r)),
     (''exit_code'', opt_json int_json (tr_exit_code r)),
     (''summary'', opt_json JString (tr_summary r)),
     (''artifact_mxc'', opt_json JString (tr_artifact_mxc r))] @ tr_extra r)"

text \<open>\<open>serde_json::to_value\<close> of an action without authorization (internally tagged enum).\<close>

fun action_to_json :: "TaskAction \<Rightarrow> json" where
  "action_to_json (ToolAction tool args _) =
     JObject [(''type'', JString ''tool''), (''tool'', JString tool), (''args'', args)]"
| "action_to_json (ExecAction command cwd env timeout_ms stream _) =
     JObject [(''type'', JString ''exec''), (''command'', JArray (map JString command)),
       (''cwd'', JString cwd), (''env'', JObject (map (\<lambda>(k, v). (k, JString v)) env)),
       (''timeout_ms'', opt_json (\<lambda>n. JNum (PosInt n)) timeout_ms), (''stream'', JBool stream)]"

subsection \<open>Signed actions\<close>

definition task_action_signing_value ::
  "string \<Rightarrow> TaskAction \<Rightarrow> TaskActionAuthorization \<Rightarrow> json" where
  "task_action_signing_value task_id action auth =
     (let action_value = action_to_json (without_authorization action);
          auth_meta = JObject [
            (''requesting_agent'', JString (au_requesting_agent auth)),
            (''target_agent'', JString (au_target_agent auth)),
            (''created_at'', JString (au_created_at auth)),
            (''expires_at'', JString (au_expires_at auth)),
            (''nonce'', JString (au_nonce auth))]
      in JObject [(''task_id'', JString task_id), (''action'', action_value),
                  (''authorization'', auth_meta)])"

definition verify_task_action_signature ::
  "('sk, 'vk) crypto \<Rightarrow> 'vk \<Rightarrow> string \<Rightarrow> TaskAction \<Rightarrow> TaskActionAuthorization
    \<Rightarrow> (SignatureError, unit) result" where
  "verify_task_action_signature cr vk task_id action auth =
     and_then (map_err NonCanonical
         (to_canonical_bytes (cr_esc cr) (task_action_signing_value task_id action auth))) (\<lambda>bs.
     verify_signature cr vk (au_signature auth) bs)"

definition sign_task_action ::
  "('sk, 'vk) crypto \<Rightarrow> 'sk \<Rightarrow> string \<Rightarrow> string \<Rightarrow> TaskAction \<Rightarrow> string \<Rightarrow> string \<Rightarrow> string \<Rightarrow> string
    \<Rightarrow> string \<Rightarrow> (SignatureError, TaskActionAuthorization) result" where
  "sign_task_action cr sk key_id task_id action requesting_agent target_agent created_at expires_at nonce =
     (let auth = \<lparr> au_requesting_agent = requesting_agent, au_target_agent = target_agent,
            au_created_at = created_at, au_expires_at = expires_at, au_nonce = nonce,
            au_signature = \<lparr> sg_alg = ALG_ED25519, sg_key_id = key_id, sg_sig = [] \<rparr>, au_extra = [] \<rparr>
      in and_then (sign cr sk key_id (task_action_signing_value task_id action auth)) (\<lambda>signature.
         Inr (auth \<lparr> au_signature := signature \<rparr>)))"

text \<open>The bytes a task-action signature is over.\<close>

definition action_bytes ::
  "('sk, 'vk) crypto \<Rightarrow> string \<Rightarrow> TaskAction \<Rightarrow> TaskActionAuthorization \<Rightarrow> (CanonicalJsonError, string) result" where
  "action_bytes cr task_id action auth =
     to_canonical_bytes (cr_esc cr) (task_action_signing_value task_id action auth)"

text \<open>Two actions ask for the same work: equal up to member order inside tool arguments.\<close>

fun same_work :: "TaskAction \<Rightarrow> TaskAction \<Rightarrow> bool" where
  "same_work (ToolAction t x _) (ToolAction t' x' _) = (t = t' \<and> norm x = norm x')"
| "same_work (ExecAction c d e t s _) (ExecAction c' d' e' t' s' _) =
     (c = c' \<and> d = d' \<and> e = e' \<and> t = t' \<and> s = s')"
| "same_work _ _ = False"

fun action_wf :: "TaskAction \<Rightarrow> bool" where
  "action_wf (ToolAction _ args _) = json_wf args"
| "action_wf (ExecAction _ _ env _ _ _) = bm_wf env"

definition same_terms :: "TaskActionAuthorization \<Rightarrow> TaskActionAuthorization \<Rightarrow> bool" where
  "same_terms a b \<longleftrightarrow> au_requesting_agent a = au_requesting_agent b \<and> au_target_agent a = au_target_agent b
     \<and> au_created_at a = au_created_at b \<and> au_expires_at a = au_expires_at b \<and> au_nonce a = au_nonce b"

subsection \<open>What a task action signature binds\<close>

lemma without_authorization_simps [simp]:
  "ta_auth (without_authorization a) = None"
  "without_authorization (with_authorization a auth) = without_authorization a"
  "without_authorization (without_authorization a) = without_authorization a"
  "authorization (with_authorization a auth) = Some auth"
  by (cases a; simp add: authorization_def)+

lemma signing_value_terms:
  "same_terms a b \<Longrightarrow> task_action_signing_value t act a = task_action_signing_value t act b"
  by (simp add: same_terms_def task_action_signing_value_def)

lemma signing_value_without:
  "task_action_signing_value t (without_authorization act) a = task_action_signing_value t act a"
  "task_action_signing_value t (with_authorization act b) a = task_action_signing_value t act a"
  by (simp_all add: task_action_signing_value_def)

lemma env_sorted: "bm_wf m \<Longrightarrow> sort_key fst (map (\<lambda>(k, v). (k, f v)) m) = map (\<lambda>(k, v). (k, f v)) m"
  by (rule sort_key_id_if_sorted) (simp add: bm_wf_def case_prod_unfold comp_def strict_sorted_imp_sorted)

lemma norm_env: "bm_wf m \<Longrightarrow> norm (JObject (map (\<lambda>(k, v). (k, JString v)) m)) = JObject (map (\<lambda>(k, v). (k, JString v)) m)"
  using env_sorted [of m JString] by (simp add: case_prod_unfold comp_def)

lemma map_pair_inj: "inj f \<Longrightarrow> map (\<lambda>(k, v). (k, f v)) a = map (\<lambda>(k, v). (k, f v)) b \<longleftrightarrow> a = b"
  by (rule inj_map_eq_map) (auto simp: inj_def)

lemma inj_JString: "inj JString"
  by (simp add: inj_def)

lemma norm_opt_num [simp]: "norm (opt_json (\<lambda>n. JNum (PosInt n)) t) = opt_json (\<lambda>n. JNum (PosInt n)) t"
  by (cases t) (simp_all add: opt_json_def)

lemma opt_num_eq [simp]: "opt_json (\<lambda>n. JNum (PosInt n)) t = opt_json (\<lambda>n. JNum (PosInt n)) t' \<longleftrightarrow> t = t'"
  by (cases t; cases t') (simp_all add: opt_json_def)

lemma opt_num_wf [simp]:
  "json_wf (opt_json (\<lambda>n. JNum (PosInt n)) t)" "no_float (opt_json (\<lambda>n. JNum (PosInt n)) t)"
  by (cases t; simp add: opt_json_def)+

lemma action_json_wf: "action_wf a \<Longrightarrow> json_wf (action_to_json a)"
  by (cases a) (auto simp: list_all_iff comp_def case_prod_unfold bm_wf_distinct)

lemma action_json_no_float: "no_float (action_to_json a) = (case a of ToolAction _ args _ \<Rightarrow> no_float args | _ \<Rightarrow> True)"
  by (cases a) (auto simp: list_all_iff)

lemma action_norm_eq:
  assumes "action_wf a" "action_wf b"
  shows "norm (action_to_json a) = norm (action_to_json b) \<longleftrightarrow> same_work a b"
proof (cases a; cases b)
  fix c d e t s x c' d' e' t' s' x'
  assume ab: "a = ExecAction c d e t s x" "b = ExecAction c' d' e' t' s' x'"
  have "norm (JObject (map (\<lambda>(k, v). (k, JString v)) e)) = norm (JObject (map (\<lambda>(k, v). (k, JString v)) e')) \<longleftrightarrow> e = e'"
    using assms ab norm_env [of e] norm_env [of e'] map_pair_inj [OF inj_JString, of e e'] by simp
  moreover have "map (norm \<circ> JString) c = map (norm \<circ> JString) c' \<longleftrightarrow> c = c'"
    by (simp add: comp_def inj_map_eq_map inj_JString)
  ultimately show ?thesis
    using ab by (auto simp del: norm.simps(2) simp: norm.simps(2) [of "_ # _"])
qed auto

definition action_floatless :: "TaskAction \<Rightarrow> bool" where
  "action_floatless a = no_float (action_to_json a)"

lemma action_to_json_without [simp]: "action_to_json (without_authorization a) = action_to_json a"
  by (cases a) simp_all

lemma signing_value_wf: "action_wf a \<Longrightarrow> json_wf (task_action_signing_value t a g)"
  by (simp add: task_action_signing_value_def action_json_wf)

lemma signing_value_no_float: "no_float (task_action_signing_value t a g) = action_floatless a"
  by (simp add: task_action_signing_value_def action_floatless_def)

lemma signing_value_norm:
  assumes "action_wf a" "action_wf b"
  shows "norm (task_action_signing_value t a g) = norm (task_action_signing_value u b h) \<longleftrightarrow>
    t = u \<and> same_work a b \<and> same_terms g h"
  using action_norm_eq [OF assms]
  by (auto simp: task_action_signing_value_def same_terms_def simp del: action_to_json.simps)

lemma action_bytes_eq_iff:
  assumes "string_token (cr_esc cr)" "action_wf a" "action_wf b" "action_bytes cr t a g = Inr bs"
  shows "action_bytes cr u b h = Inr bs \<longleftrightarrow>
    action_floatless b \<and> t = u \<and> same_work a b \<and> same_terms g h"
proof -
  note wf = signing_value_wf [OF assms(2), of t g] signing_value_wf [OF assms(3), of u h]
  have "no_float (task_action_signing_value t a g)"
    using assms(4) wf(1)
    by (auto simp: action_bytes_def to_canonical_bytes_def to_canonical_string_def write_value_print
        simp del: write_value.simps split: if_splits)
  moreover have "action_bytes cr u b h = Inr bs \<Longrightarrow> no_float (task_action_signing_value u b h)"
    using wf(2)
    by (auto simp: action_bytes_def to_canonical_bytes_def to_canonical_string_def write_value_print
        simp del: write_value.simps split: if_splits)
  ultimately show ?thesis
    using string_token.canonical_bytes_eq_iff [OF assms(1) wf] assms(4) signing_value_norm [OF assms(2,3)]
      signing_value_no_float
    unfolding action_bytes_def by metis
qed

lemma signing_value_unsigned: "signing_bytes cr (task_action_signing_value t a g) = map_err NonCanonical (action_bytes cr t a g)"
  by (simp add: task_action_signing_value_def signing_bytes_def unsigned_members_def SIGNATURE_FIELD_def
      action_bytes_def Let_def)

lemma action_bytes_total: "action_wf a \<Longrightarrow> (\<exists>bs. action_bytes cr t a g = Inr bs) \<longleftrightarrow> action_floatless a"
  using signing_value_wf [of a t g]
  by (auto simp: action_bytes_def to_canonical_bytes_def to_canonical_string_def write_value_print
      signing_value_no_float simp del: write_value.simps)

lemma verify_task_action_iff:
  "verify_task_action_signature cr vk t a g = Inr () \<longleftrightarrow>
   (\<exists>bs. action_bytes cr t a g = Inr bs \<and> verify_signature cr vk (au_signature g) bs = Inr ())"
  by (simp add: verify_task_action_signature_def action_bytes_def)

lemma verify_signature_accepts:
  "verify_signature cr vk s bs = Inr () \<Longrightarrow> sg_alg s = ALG_ED25519 \<and> (\<exists>e. cr_verify cr vk bs e)"
  by (auto simp: verify_signature_def split: if_splits)

lemma sign_task_action_eq:
  fixes requester target created expires nonce key_id
  defines "g \<equiv> \<lparr> au_requesting_agent = requester, au_target_agent = target,
     au_created_at = created, au_expires_at = expires, au_nonce = nonce,
     au_signature = \<lparr> sg_alg = ALG_ED25519, sg_key_id = key_id, sg_sig = [] \<rparr>, au_extra = [] \<rparr>"
  shows "sign_task_action cr sk key_id task_id action requester target created expires nonce =
    (case action_bytes cr task_id action g of Inl e \<Rightarrow> Inl (NonCanonical e)
     | Inr bs \<Rightarrow> Inr (g \<lparr> au_signature := \<lparr> sg_alg = ALG_ED25519, sg_key_id = key_id,
         sg_sig = cr_b64_encode cr (cr_sign cr sk bs) \<rparr> \<rparr>))"
  unfolding sign_task_action_def g_def [symmetric] Let_def sign_def signing_value_unsigned
  by (simp split: sum.split)

lemma sign_task_action_fails:
  "action_wf action \<Longrightarrow> \<not> action_floatless action \<Longrightarrow>
   \<exists>e. sign_task_action cr sk key_id task_id action requester target created expires nonce = Inl e"
  using action_bytes_total [of action cr task_id] by (auto simp: sign_task_action_eq split: sum.split)

lemma sign_task_action_ok:
  assumes "signature_laws cr public" "action_wf action" "action_floatless action"
  obtains auth where
    "sign_task_action cr sk key_id task_id action requester target created expires nonce = Inr auth"
    "verify_task_action_signature cr (public sk) task_id (with_authorization action auth) auth = Inr ()"
    "verify_task_action_signature cr (public sk) task_id action auth = Inr ()"
    "au_requesting_agent auth = requester" "au_target_agent auth = target" "au_created_at auth = created"
    "au_expires_at auth = expires" "au_nonce auth = nonce" "sg_key_id (au_signature auth) = key_id"
proof -
  define g where "g = \<lparr> au_requesting_agent = requester, au_target_agent = target,
     au_created_at = created, au_expires_at = expires, au_nonce = nonce,
     au_signature = \<lparr> sg_alg = ALG_ED25519, sg_key_id = key_id, sg_sig = [] \<rparr>, au_extra = [] \<rparr>"
  obtain bs where bs: "action_bytes cr task_id action g = Inr bs"
    using action_bytes_total [OF assms(2), of cr task_id g] assms(3) by blast
  define sg where "sg = \<lparr> sg_alg = ALG_ED25519, sg_key_id = key_id, sg_sig = cr_b64_encode cr (cr_sign cr sk bs) \<rparr>"
  have b: "action_bytes cr task_id (with_authorization action h) (g \<lparr> au_signature := sg \<rparr>) = Inr bs"
    "action_bytes cr task_id action (g \<lparr> au_signature := sg \<rparr>) = Inr bs" for h
    using bs by (simp_all add: action_bytes_def signing_value_without task_action_signing_value_def)
  have v: "verify_signature cr (public sk) sg bs = Inr ()"
    using assms(1) by (simp add: verify_signature_def sg_def signature_laws_def)
  show ?thesis
    by (rule that [of "g \<lparr> au_signature := sg \<rparr>"])
      (use bs b v in \<open>simp_all add: sign_task_action_eq g_def [symmetric] sg_def [symmetric] verify_task_action_iff\<close>,
       simp_all add: g_def sg_def)
qed

text \<open>Task actions are authored and verified consistently. Signing succeeds exactly when the
  tool arguments hold no floating point number; the authorization carries the requested terms and
  verifies under the author's public key for that task, with the authorization attached to the
  action or not.\<close>

theorem sign_task_action_verifies:
  assumes "signature_laws cr public" "action_wf action"
  shows "case sign_task_action cr sk key_id task_id action requester target created expires nonce of
      Inl _ \<Rightarrow> \<not> action_floatless action
    | Inr auth \<Rightarrow>
       action_floatless action \<and>
       verify_task_action_signature cr (public sk) task_id (with_authorization action auth) auth = Inr () \<and>
       verify_task_action_signature cr (public sk) task_id action auth = Inr () \<and>
       au_requesting_agent auth = requester \<and> au_target_agent auth = target \<and>
       au_created_at auth = created \<and> au_expires_at auth = expires \<and> au_nonce auth = nonce \<and>
       sg_key_id (au_signature auth) = key_id"
proof (cases "action_floatless action")
  case True
  show ?thesis
    by (rule sign_task_action_ok [OF assms True, of sk key_id task_id requester target created expires nonce])
      (simp add: True)
next
  case False
  then show ?thesis
    using sign_task_action_fails [OF assms(2) False, of cr sk key_id task_id requester target created expires nonce]
    by auto
qed

definition demo_action :: TaskAction where
  "demo_action = ExecAction [''cargo'', ''test''] ''/srv/app'' [(''CI'', ''1'')] (Some 60000) True None"

theorem sign_task_action_verifies_witness:
  "\<exists>auth. sign_task_action demo_crypto ''sk'' ''kid'' ''t1'' demo_action ''@a'' ''@b'' ''c'' ''e'' ''n'' = Inr auth \<and>
     verify_task_action_signature demo_crypto ''sk'' ''t1'' (with_authorization demo_action auth) auth = Inr ()"
proof -
  have "action_wf demo_action" "action_floatless demo_action"
    by (simp_all add: demo_action_def bm_wf_def action_floatless_def action_json_no_float)
  then show ?thesis
    using sign_task_action_verifies [OF demo_crypto_laws(1), of demo_action "''sk''" "''t1''" "''@a''" "''@b''"
        "''c''" "''e''" "''n''" "''kid''"] by (auto split: sum.splits)
qed


definition demo_auth :: TaskActionAuthorization where
  "demo_auth = \<lparr> au_requesting_agent = ''@a'', au_target_agent = ''@b'', au_created_at = ''c'',
     au_expires_at = ''e'', au_nonce = ''n'', au_signature = \<lparr> sg_alg = ''ed25519'', sg_key_id = ''kid'', sg_sig = ''s'' \<rparr>,
     au_extra = [] \<rparr>"

text \<open>For the witness: a verifier that accepts the bytes of one issued authorization.\<close>

definition demo_ideal :: "(string, string) crypto" where
  "demo_ideal = demo_crypto \<lparr> cr_verify := (\<lambda>vk bs s. action_bytes demo_crypto ''t1'' demo_action demo_auth = Inr bs) \<rparr>"


end
