(* ===== verification/Requests.thy ===== *)
theory Requests
  imports Signing
begin

text \<open>
  Requests, approvals and agent records of \<open>crates/mx-agent-protocol/src/schema.rs\<close>, with the
  JSON form that \<open>serde\<close> derives for those whose bytes are signed or verified: a member per field,
  optional members left out when absent where the source says so, and the members that are not known
  kept in \<open>extra\<close>. Reading looks each member up, fails when one is missing or has another type, and
  collects the rest.
\<close>

subsection \<open>Reading members\<close>

fun as_string :: "json \<Rightarrow> string option" where
  "as_string (JString s) = Some s"
| "as_string _ = None"

fun as_bool :: "json \<Rightarrow> bool option" where
  "as_bool (JBool b) = Some b"
| "as_bool _ = None"

fun as_u64 :: "json \<Rightarrow> u64 option" where
  "as_u64 (JNum (PosInt n)) = Some n"
| "as_u64 _ = None"

primrec all_some :: "'a option list \<Rightarrow> 'a list option" where
  "all_some [] = Some []"
| "all_some (v # vs) = (case v of None \<Rightarrow> None | Some x \<Rightarrow> map_option ((#) x) (all_some vs))"

fun as_strings :: "json \<Rightarrow> string list option" where
  "as_strings (JArray vs) = all_some (map as_string vs)"
| "as_strings _ = None"

fun as_string_map :: "json \<Rightarrow> string bmap option" where
  "as_string_map (JObject m) = map_option bm_of_list (all_some (map (\<lambda>(k, v). map_option (Pair k) (as_string v)) m))"
| "as_string_map _ = None"

definition field :: "(json \<Rightarrow> 'a option) \<Rightarrow> members \<Rightarrow> string \<Rightarrow> 'a option" where
  "field f m k = Option.bind (map_of m k) f"

text \<open>An \<open>Option\<close> member: missing and \<open>null\<close> both read as absent.\<close>

definition opt_field :: "(json \<Rightarrow> 'a option) \<Rightarrow> members \<Rightarrow> string \<Rightarrow> 'a option option" where
  "opt_field f m k = (case map_of m k of
       None \<Rightarrow> Some None
     | Some JNull \<Rightarrow> Some None
     | Some v \<Rightarrow> map_option Some (f v))"

definition others :: "string list \<Rightarrow> members \<Rightarrow> members" where
  "others known m = filter (\<lambda>(k, _). k \<notin> set known) m"

text \<open>\<open>skip_serializing_if = Option::is_none\<close>.\<close>

definition opt_member :: "string \<Rightarrow> ('a \<Rightarrow> json) \<Rightarrow> 'a option \<Rightarrow> members" where
  "opt_member k f v = (case v of None \<Rightarrow> [] | Some x \<Rightarrow> [(k, f x)])"

definition opt_null :: "('a \<Rightarrow> json) \<Rightarrow> 'a option \<Rightarrow> json" where
  "opt_null f v = (case v of None \<Rightarrow> JNull | Some x \<Rightarrow> f x)"

subsection \<open>Exec and call requests\<close>

record ExecRequest =
  xr_invocation_id :: string
  xr_request_id :: string
  xr_target_agent :: string
  xr_requesting_agent :: string
  xr_command :: "string list"
  xr_cwd :: string
  xr_env :: "string bmap"
  xr_stdin :: bool
  xr_stream :: bool
  xr_pty :: bool
  xr_timeout_ms :: u64
  xr_task_id :: "string option"
  xr_created_at :: string
  xr_expires_at :: string
  xr_nonce :: string
  xr_idempotency_key :: string
  xr_signature :: Signature
  xr_extra :: members

definition exec_fields :: "string list" where
  "exec_fields = [''invocation_id'', ''request_id'', ''target_agent'', ''requesting_agent'', ''command'',
     ''cwd'', ''env'', ''stdin'', ''stream'', ''pty'', ''timeout_ms'', ''task_id'', ''created_at'',
     ''expires_at'', ''nonce'', ''idempotency_key'', ''signature'']"

definition exec_request_to_json :: "ExecRequest \<Rightarrow> json" where
  "exec_request_to_json r = JObject ([
     (''invocation_id'', JString (xr_invocation_id r)), (''request_id'', JString (xr_request_id r)),
     (''target_agent'', JString (xr_target_agent r)), (''requesting_agent'', JString (xr_requesting_agent r)),
     (''command'', JArray (map JString (xr_command r))), (''cwd'', JString (xr_cwd r)),
     (''env'', JObject (map (\<lambda>(k, v). (k, JString v)) (xr_env r))), (''stdin'', JBool (xr_stdin r)),
     (''stream'', JBool (xr_stream r)), (''pty'', JBool (xr_pty r)),
     (''timeout_ms'', JNum (PosInt (xr_timeout_ms r))), (''task_id'', opt_null JString (xr_task_id r)),
     (''created_at'', JString (xr_created_at r)), (''expires_at'', JString (xr_expires_at r)),
     (''nonce'', JString (xr_nonce r)), (''idempotency_key'', JString (xr_idempotency_key r)),
     (''signature'', signature_to_json (xr_signature r))] @ xr_extra r)"

definition exec_request_from_json :: "json \<Rightarrow> ExecRequest option" where
  "exec_request_from_json v = (case v of
       JObject m \<Rightarrow>
         (case (field as_string m ''invocation_id'', field as_string m ''request_id'',
                field as_string m ''target_agent'', field as_string m ''requesting_agent'',
                field as_strings m ''command'', field as_string m ''cwd'',
                field as_string_map m ''env'', field as_bool m ''stdin'', field as_bool m ''stream'') of
            (Some inv_id, Some req_id, Some target, Some requester, Some command, Some cwd, Some env,
             Some stdin, Some stream) \<Rightarrow>
              (case (field as_bool m ''pty'', field as_u64 m ''timeout_ms'',
                     opt_field as_string m ''task_id'', field as_string m ''created_at'',
                     field as_string m ''expires_at'', field as_string m ''nonce'',
                     field as_string m ''idempotency_key'', field signature_from_json m ''signature'') of
                 (Some pty, Some timeout_ms, Some task_id, Some created_at, Some expires_at, Some nonce,
                  Some idempotency_key, Some signature) \<Rightarrow>
                   Some \<lparr> xr_invocation_id = inv_id, xr_request_id = req_id, xr_target_agent = target,
                     xr_requesting_agent = requester, xr_command = command, xr_cwd = cwd, xr_env = env,
                     xr_stdin = stdin, xr_stream = stream, xr_pty = pty, xr_timeout_ms = timeout_ms,
                     xr_task_id = task_id, xr_created_at = created_at, xr_expires_at = expires_at,
                     xr_nonce = nonce, xr_idempotency_key = idempotency_key, xr_signature = signature,
                     xr_extra = others exec_fields m \<rparr>
               | _ \<Rightarrow> None)
          | _ \<Rightarrow> None)
     | _ \<Rightarrow> None)"

record CallRequest =
  cq_invocation_id :: string
  cq_request_id :: string
  cq_tool :: string
  cq_args :: json
  cq_created_at :: string
  cq_expires_at :: string
  cq_nonce :: string
  cq_signature :: Signature
  cq_requesting_agent :: "string option"
  cq_target_agent :: "string option"
  cq_extra :: members

definition call_fields :: "string list" where
  "call_fields = [''invocation_id'', ''request_id'', ''tool'', ''args'', ''created_at'', ''expires_at'',
     ''nonce'', ''signature'', ''requesting_agent'', ''target_agent'']"

definition call_request_to_json :: "CallRequest \<Rightarrow> json" where
  "call_request_to_json r = JObject ([
     (''invocation_id'', JString (cq_invocation_id r)), (''request_id'', JString (cq_request_id r)),
     (''tool'', JString (cq_tool r)), (''args'', cq_args r), (''created_at'', JString (cq_created_at r)),
     (''expires_at'', JString (cq_expires_at r)), (''nonce'', JString (cq_nonce r)),
     (''signature'', signature_to_json (cq_signature r))] @
     opt_member ''requesting_agent'' JString (cq_requesting_agent r) @
     opt_member ''target_agent'' JString (cq_target_agent r) @ cq_extra r)"

definition call_request_from_json :: "json \<Rightarrow> CallRequest option" where
  "call_request_from_json v = (case v of
       JObject m \<Rightarrow>
         (case (field as_string m ''invocation_id'', field as_string m ''request_id'',
                field as_string m ''tool'', map_of m ''args'', field as_string m ''created_at'',
                field as_string m ''expires_at'', field as_string m ''nonce'',
                field signature_from_json m ''signature'',
                opt_field as_string m ''requesting_agent'', opt_field as_string m ''target_agent'') of
            (Some inv_id, Some req_id, Some tool, Some args, Some created_at, Some expires_at, Some nonce,
             Some signature, Some requester, Some target) \<Rightarrow>
              Some \<lparr> cq_invocation_id = inv_id, cq_request_id = req_id, cq_tool = tool, cq_args = args,
                cq_created_at = created_at, cq_expires_at = expires_at, cq_nonce = nonce,
                cq_signature = signature, cq_requesting_agent = requester, cq_target_agent = target,
                cq_extra = others call_fields m \<rparr>
          | _ \<Rightarrow> None)
     | _ \<Rightarrow> None)"

subsection \<open>Approvals\<close>

record ApprovalRequest =
  aq_request_id :: string
  aq_invocation_id :: string
  aq_requester :: string
  aq_target :: string
  aq_summary :: string
  aq_risk :: string
  aq_expires_at :: string
  aq_extra :: members

definition approval_request_fields :: "string list" where
  "approval_request_fields = [''request_id'', ''invocation_id'', ''requester'', ''target'', ''summary'', ''risk'',
     ''expires_at'']"

definition approval_request_to_json :: "ApprovalRequest \<Rightarrow> json" where
  "approval_request_to_json r = JObject ([
     (''request_id'', JString (aq_request_id r)), (''invocation_id'', JString (aq_invocation_id r)),
     (''requester'', JString (aq_requester r)), (''target'', JString (aq_target r)),
     (''summary'', JString (aq_summary r)), (''risk'', JString (aq_risk r)),
     (''expires_at'', JString (aq_expires_at r))] @ aq_extra r)"

record ApprovalDecision =
  dc_request_id :: string
  dc_decision :: string
  dc_approved_by :: string
  dc_created_at :: string
  dc_nonce :: "string option"
  dc_expires_at :: "string option"
  dc_signature :: "Signature option"
  dc_extra :: members

definition decision_fields :: "string list" where
  "decision_fields = [''request_id'', ''decision'', ''approved_by'', ''created_at'', ''nonce'', ''expires_at'',
     ''signature'']"

definition decision_to_json :: "ApprovalDecision \<Rightarrow> json" where
  "decision_to_json d = JObject ([
     (''request_id'', JString (dc_request_id d)), (''decision'', JString (dc_decision d)),
     (''approved_by'', JString (dc_approved_by d)), (''created_at'', JString (dc_created_at d))] @
     opt_member ''nonce'' JString (dc_nonce d) @ opt_member ''expires_at'' JString (dc_expires_at d) @
     opt_member ''signature'' signature_to_json (dc_signature d) @ dc_extra d)"

definition decision_from_json :: "json \<Rightarrow> ApprovalDecision option" where
  "decision_from_json v = (case v of
       JObject m \<Rightarrow>
         (case (field as_string m ''request_id'', field as_string m ''decision'',
                field as_string m ''approved_by'', field as_string m ''created_at'',
                opt_field as_string m ''nonce'', opt_field as_string m ''expires_at'',
                opt_field signature_from_json m ''signature'') of
            (Some req_id, Some decision, Some approved_by, Some created_at, Some nonce, Some expires_at,
             Some signature) \<Rightarrow>
              Some \<lparr> dc_request_id = req_id, dc_decision = decision, dc_approved_by = approved_by,
                dc_created_at = created_at, dc_nonce = nonce, dc_expires_at = expires_at,
                dc_signature = signature, dc_extra = others decision_fields m \<rparr>
          | _ \<Rightarrow> None)
     | _ \<Rightarrow> None)"

text \<open>\<open>sign_approval_decision\<close> and \<open>verify_approval_decision\<close> of \<open>signing.rs\<close>.\<close>

definition sign_approval_decision ::
  "('sk, 'vk) crypto \<Rightarrow> 'sk \<Rightarrow> string \<Rightarrow> ApprovalDecision \<Rightarrow> (SignatureError, ApprovalDecision) result" where
  "sign_approval_decision cr sk key_id decision =
     and_then (sign_into cr sk key_id (decision_to_json decision)) (\<lambda>value.
     ok_or (decision_from_json value) MalformedSignature)"

definition verify_approval_decision ::
  "('sk, 'vk) crypto \<Rightarrow> 'vk \<Rightarrow> ApprovalDecision \<Rightarrow> (SignatureError, unit) result" where
  "verify_approval_decision cr vk decision = Signing.verify cr vk (decision_to_json decision)"

subsection \<open>Agents\<close>

record AgentWorkspace =
  aw_cwd :: string
  aw_project_id :: string
  aw_git_commit :: string

record AgentLoad =
  al_running_invocations :: u32
  al_max_invocations :: u32

record AgentState =
  ag_agent_id :: string
  ag_kind :: string
  ag_matrix_user_id :: string
  ag_device_id :: string
  ag_signing_key_id :: string
  ag_signing_public_key :: "string option"
  ag_status :: string
  ag_capabilities :: "string list"
  ag_tools :: "string list"
  ag_workspace :: AgentWorkspace
  ag_load :: AgentLoad
  ag_last_seen_ts :: u64
  ag_state_rev :: u64
  ag_extra :: members

record Heartbeat =
  hb_agent_id :: string
  hb_status :: string
  hb_load :: AgentLoad
  hb_ts :: u64
  hb_extra :: members

subsection \<open>Round trips\<close>

definition fresh_members :: "string list \<Rightarrow> members \<Rightarrow> bool" where
  "fresh_members known m \<longleftrightarrow> list_all (\<lambda>(k, _). k \<notin> set known) m"

lemma fresh_map_of: "fresh_members known m \<Longrightarrow> k \<in> set known \<Longrightarrow> map_of m k = None"
  by (induction m) (auto simp: fresh_members_def)

lemma others_fresh [simp]: "fresh_members known m \<Longrightarrow> others known m = m"
  by (induction m) (auto simp: fresh_members_def others_def)

lemma others_append [simp]: "others known (a @ b) = others known a @ others known b"
  by (simp add: others_def)

lemma others_Cons: "others known ((k, v) # m) = (if k \<in> set known then others known m else (k, v) # others known m)"
  by (simp add: others_def)

lemma others_Nil [simp]: "others known [] = []"
  by (simp add: others_def)

lemma all_some_strings [simp]: "all_some (map (as_string \<circ> JString) xs) = Some xs"
  by (induction xs) auto

lemma all_some_pairs: "all_some (map (\<lambda>(k, v). map_option (Pair k) (as_string v)) (map (\<lambda>(k, v). (k, JString v)) m)) = Some m"
  by (induction m) auto

lemma bm_insert_append_last:
  "list_all (\<lambda>(j, _). j < k) m \<Longrightarrow> bm_insert k v m = m @ [(k, v)]"
  by (induction k v m rule: bm_insert.induct) auto

lemma fold_insert_sorted:
  "bm_wf (m @ kvs) \<Longrightarrow> fold (\<lambda>(k, v). bm_insert k v) kvs m = m @ kvs"
proof (induction kvs arbitrary: m)
  case (Cons kv kvs)
  obtain k v where kv: "kv = (k, v)" by (cases kv)
  have "list_all (\<lambda>(j, _). j < k) m"
    using Cons.prems kv by (auto simp: bm_wf_def sorted_wrt_append list_all_iff)
  then have "bm_insert k v m = m @ [(k, v)]"
    by (rule bm_insert_append_last)
  then show ?case
    using Cons.IH [of "m @ [(k, v)]"] Cons.prems kv by simp
qed simp

lemma bm_of_list_sorted: "bm_wf m \<Longrightarrow> bm_of_list m = m"
  using fold_insert_sorted [of "[]" m] by (simp add: bm_of_list_def)

lemma as_string_map_env [simp]: "bm_wf env \<Longrightarrow> as_string_map (JObject (map (\<lambda>(k, v). (k, JString v)) env)) = Some env"
  by (simp only: as_string_map.simps all_some_pairs option.map bm_of_list_sorted)

lemma opt_field_null [simp]: "opt_field as_string ((k, opt_null JString v) # m) k = Some v"
  by (cases v) (simp_all add: opt_field_def opt_null_def)

lemma field_hit [simp]: "field f ((k, v) # m) k = f v"
  by (simp add: field_def)

lemma field_skip [simp]: "j \<noteq> k \<Longrightarrow> field f ((j, v) # m) k = field f m k"
  by (simp add: field_def)

lemma opt_field_skip [simp]: "j \<noteq> k \<Longrightarrow> opt_field f ((j, v) # m) k = opt_field f m k"
  by (simp add: opt_field_def)

lemma exec_request_roundtrip:
  assumes "bm_wf (xr_env r)" "fresh_members exec_fields (xr_extra r)"
  shows "exec_request_from_json (exec_request_to_json r) = Some r"
proof -
  have "others exec_fields (xr_extra r) = xr_extra r"
    using assms(2) by simp
  then show ?thesis
    using assms(1)
    by (simp add: exec_request_from_json_def exec_request_to_json_def others_Cons exec_fields_def
        del: as_string_map.simps)
qed

lemma opt_member_lookup:
  "map_of (opt_member k f v @ m) j = (if j = k then (case v of Some x \<Rightarrow> Some (f x) | None \<Rightarrow> map_of m j) else map_of m j)"
  by (cases v) (auto simp: opt_member_def)

lemma others_opt_member [simp]: "k \<in> set known \<Longrightarrow> others known (opt_member k f v) = []"
  by (cases v) (simp_all add: opt_member_def others_def)

lemma call_request_roundtrip:
  assumes "fresh_members call_fields (cq_extra r)"
  shows "call_request_from_json (call_request_to_json r) = Some r"
proof -
  have o: "others call_fields (cq_extra r) = cq_extra r"
    using assms by simp
  have "map_of (cq_extra r) ''requesting_agent'' = None" "map_of (cq_extra r) ''target_agent'' = None"
    by (rule fresh_map_of [OF assms], simp add: call_fields_def)+
  then show ?thesis
    using o
    by (simp add: call_request_from_json_def call_request_to_json_def others_Cons call_fields_def)
      (cases "cq_requesting_agent r"; cases "cq_target_agent r";
        simp add: opt_field_def opt_member_lookup opt_member_def others_Cons call_fields_def)
qed

lemma opt_field_signature:
  "map_of m k = map_option signature_to_json v \<Longrightarrow> opt_field signature_from_json m k = Some v"
  by (cases v) (simp_all add: opt_field_def signature_to_json_def signature_from_json_def signature_of_fields_def)

lemma opt_field_string: "map_of m k = map_option JString v \<Longrightarrow> opt_field as_string m k = Some v"
  by (cases v) (simp_all add: opt_field_def)

lemma decision_roundtrip:
  assumes "fresh_members decision_fields (dc_extra d)"
  shows "decision_from_json (decision_to_json d) = Some d"
proof -
  obtain m where m: "decision_to_json d = JObject m"
    by (simp add: decision_to_json_def)
  have none: "map_of (dc_extra d) ''nonce'' = None" "map_of (dc_extra d) ''expires_at'' = None"
    "map_of (dc_extra d) ''signature'' = None"
    by (rule fresh_map_of [OF assms], simp add: decision_fields_def)+
  have o: "others decision_fields m = dc_extra d"
    using m others_fresh [OF assms]
    by (auto simp: decision_to_json_def others_Cons decision_fields_def)
  have "opt_field as_string m ''nonce'' = Some (dc_nonce d)" "opt_field as_string m ''expires_at'' = Some (dc_expires_at d)"
    using m none by (auto intro!: opt_field_string simp: decision_to_json_def opt_member_lookup
        simp del: map_of_append split: option.split)
  moreover have "opt_field signature_from_json m ''signature'' = Some (dc_signature d)"
    using m none by (auto intro!: opt_field_signature simp: decision_to_json_def opt_member_lookup
        simp del: map_of_append split: option.split)
  moreover have "field as_string m ''request_id'' = Some (dc_request_id d)" "field as_string m ''decision'' = Some (dc_decision d)"
    "field as_string m ''approved_by'' = Some (dc_approved_by d)" "field as_string m ''created_at'' = Some (dc_created_at d)"
    using m by (auto simp: decision_to_json_def)
  ultimately show ?thesis
    unfolding m decision_from_json_def using o by simp
qed

text \<open>What is signed of a decision: everything but the signature.\<close>

lemma decision_unsigned:
  assumes "fresh_members decision_fields (dc_extra d)"
  shows "\<exists>m. decision_to_json d = JObject m \<and> unsigned_members m = [
     (''request_id'', JString (dc_request_id d)), (''decision'', JString (dc_decision d)),
     (''approved_by'', JString (dc_approved_by d)), (''created_at'', JString (dc_created_at d))] @
     opt_member ''nonce'' JString (dc_nonce d) @ opt_member ''expires_at'' JString (dc_expires_at d) @ dc_extra d \<and>
     map_of m SIGNATURE_FIELD = map_option signature_to_json (dc_signature d)"
proof -
  have "filter (\<lambda>(k, _). k \<noteq> ''signature'') (dc_extra d) = dc_extra d"
    using assms by (auto simp: filter_id_conv fresh_members_def list_all_iff decision_fields_def)
  moreover have "map_of (dc_extra d) ''signature'' = None"
    by (rule fresh_map_of [OF assms], simp add: decision_fields_def)
  ultimately show ?thesis
    by (cases "dc_nonce d"; cases "dc_expires_at d"; cases "dc_signature d";
        simp add: decision_to_json_def unsigned_members_def SIGNATURE_FIELD_def opt_member_def)
qed

lemma field_signed:
  "k \<noteq> ''signature'' \<Longrightarrow> field f (AList.update SIGNATURE_FIELD v m) k = field f m k"
  "k \<noteq> ''signature'' \<Longrightarrow> opt_field f (AList.update SIGNATURE_FIELD v m) k = opt_field f m k"
  by (simp_all add: field_def opt_field_def update_conv SIGNATURE_FIELD_def)

lemma signed_decision_reads_back:
  assumes "fresh_members decision_fields (dc_extra d)"
  shows "\<exists>m. decision_to_json d = JObject m \<and>
    decision_from_json (JObject (AList.update SIGNATURE_FIELD (signature_to_json s) m)) = Some (d \<lparr> dc_signature := Some s \<rparr>)"
proof -
  obtain m where m: "decision_to_json d = JObject m"
    by (simp add: decision_to_json_def)
  have l: "map_of (AList.update SIGNATURE_FIELD v m) k = (if k = SIGNATURE_FIELD then Some v else map_of m k)" for k v
    by (auto simp: update_conv)
  have o: "others decision_fields (AList.update SIGNATURE_FIELD v m) = others decision_fields m" for v
    by (induction m) (auto simp: others_def decision_fields_def SIGNATURE_FIELD_def)
  have r: "decision_from_json (JObject m) = Some d"
    using decision_roundtrip [OF assms] m by simp
  have "opt_field signature_from_json (AList.update SIGNATURE_FIELD (signature_to_json s) m) ''signature'' = Some (Some s)"
    by (rule opt_field_signature) (simp add: l [unfolded SIGNATURE_FIELD_def] SIGNATURE_FIELD_def)
  then have "decision_from_json (JObject (AList.update SIGNATURE_FIELD (signature_to_json s) m)) = Some (d \<lparr> dc_signature := Some s \<rparr>)"
    using r by (auto simp: decision_from_json_def o field_signed split: option.splits)
  then show ?thesis
    using m by blast
qed

lemma approval_decision_signed:
  assumes "signature_laws cr public" "fresh_members decision_fields (dc_extra d)"
    and "sign_approval_decision cr sk key_id d = Inr d'"
  shows "(\<exists>s. d' = d \<lparr> dc_signature := Some s \<rparr> \<and> sg_key_id s = key_id) \<and>
    decision_from_json (decision_to_json d') = Some d' \<and>
    verify_approval_decision cr (public sk) d' = Inr ()"
proof -
  obtain m where m: "decision_to_json d = JObject m"
    by (simp add: decision_to_json_def)
  obtain bs where bs: "signing_bytes cr (JObject m) = Inr bs"
    and d': "\<exists>s. s = \<lparr> sg_alg = ALG_ED25519, sg_key_id = key_id, sg_sig = cr_b64_encode cr (cr_sign cr sk bs) \<rparr> \<and>
      decision_from_json (JObject (AList.update SIGNATURE_FIELD (signature_to_json s) m)) = Some d'"
    using assms(3) m by (auto simp: sign_approval_decision_def sign_into_def sign_def)
  then obtain s where s: "s = \<lparr> sg_alg = ALG_ED25519, sg_key_id = key_id, sg_sig = cr_b64_encode cr (cr_sign cr sk bs) \<rparr>"
    and e: "d' = d \<lparr> dc_signature := Some s \<rparr>"
    using signed_decision_reads_back [OF assms(2)] m by auto
  have f': "fresh_members decision_fields (dc_extra d')"
    using e assms(2) by simp
  obtain n where n: "decision_to_json d' = JObject n" "unsigned_members n = unsigned_members m"
    "map_of n SIGNATURE_FIELD = Some (signature_to_json s)"
    using decision_unsigned [OF assms(2)] decision_unsigned [OF f'] m e by auto
  have "signing_bytes cr (JObject n) = Inr bs"
    using bs n(2) by (simp add: signing_bytes_def)
  then have "verify_approval_decision cr (public sk) d' = Inr ()"
    using n assms(1) s by (simp add: verify_approval_decision_def verify_def verify_signature_def signature_laws_def)
  then show ?thesis
    using e s decision_roundtrip [OF f'] by auto
qed

text \<open>Signed decisions survive the wire. A decision whose unknown members are well-formed is read
  back from its JSON form unchanged; signing it gives the same decision with a signature, and that
  decision verifies under the signer's public key after any number of such trips.\<close>

theorem approval_decision_round_trip:
  assumes "signature_laws cr public" "fresh_members decision_fields (dc_extra d)"
    and "sign_approval_decision cr sk key_id d = Inr d'"
  shows "(\<exists>s. d' = d \<lparr> dc_signature := Some s \<rparr> \<and> sg_key_id s = key_id) \<and>
    decision_from_json (decision_to_json d') = Some d' \<and>
    verify_approval_decision cr (public sk) d' = Inr ()"
  using assms by (rule approval_decision_signed)

definition demo_decision :: ApprovalDecision where
  "demo_decision = \<lparr> dc_request_id = ''r1'', dc_decision = ''approved'', dc_approved_by = ''@a'', dc_created_at = ''c'',
     dc_nonce = Some ''n1'', dc_expires_at = Some ''1970-01-02T00:00:00Z'', dc_signature = None, dc_extra = [] \<rparr>"

theorem approval_decision_round_trip_witness:
  "\<exists>d'. sign_approval_decision demo_crypto ''sk'' ''kid'' demo_decision = Inr d' \<and>
     verify_approval_decision demo_crypto ''sk'' d' = Inr ()"
proof -
  have f: "fresh_members decision_fields (dc_extra demo_decision)"
    by (simp add: demo_decision_def fresh_members_def)
  obtain m where m: "decision_to_json demo_decision = JObject m"
    by (simp add: decision_to_json_def)
  then have "json_wf (JObject m)" "no_float (JObject (unsigned_members m))"
    by (auto simp: demo_decision_def decision_to_json_def opt_member_def unsigned_members_def SIGNATURE_FIELD_def)
  then obtain bs where "signing_bytes demo_crypto (JObject m) = Inr bs"
    using signing_bytes_total by blast
  then obtain d' where "sign_approval_decision demo_crypto ''sk'' ''kid'' demo_decision = Inr d'"
    using signed_decision_reads_back [OF f] m by (auto simp: sign_approval_decision_def sign_into_def sign_def)
  then show ?thesis
    using approval_decision_round_trip [OF demo_crypto_laws(1) f] by blast
qed

end
