(* ===== verification/Event_Types.thy ===== *)
theory Event_Types
  imports Mx_Prelude
begin

text \<open>
  The Matrix event types of the protocol, \<open>crates/mx-agent-protocol/src/events.rs\<close>: the timeline
  types, the state types (here with the suffix \<open>_STATE_TYPE\<close>) and the two tables \<open>ALL\<close>.
\<close>

definition NAMESPACE :: string where "NAMESPACE = ''com.mxagent''"

definition SCHEMA_VERSION_SUFFIX :: string where "SCHEMA_VERSION_SUFFIX = ''v1''"

definition EXEC_REQUEST :: string where "EXEC_REQUEST = ''com.mxagent.exec.request.v1''"

definition EXEC_ACCEPTED :: string where "EXEC_ACCEPTED = ''com.mxagent.exec.accepted.v1''"

definition EXEC_REJECTED :: string where "EXEC_REJECTED = ''com.mxagent.exec.rejected.v1''"

definition EXEC_FINISHED :: string where "EXEC_FINISHED = ''com.mxagent.exec.finished.v1''"

definition EXEC_STDIN :: string where "EXEC_STDIN = ''com.mxagent.exec.stdin.v1''"

definition EXEC_CANCEL :: string where "EXEC_CANCEL = ''com.mxagent.exec.cancel.v1''"

definition EXEC_CANCELLED :: string where "EXEC_CANCELLED = ''com.mxagent.exec.cancelled.v1''"

definition CALL_REQUEST :: string where "CALL_REQUEST = ''com.mxagent.call.request.v1''"

definition CALL_RESPONSE :: string where "CALL_RESPONSE = ''com.mxagent.call.response.v1''"

definition STREAM_CHUNK :: string where "STREAM_CHUNK = ''com.mxagent.stream.chunk.v1''"

definition STREAM_ARTIFACT :: string where "STREAM_ARTIFACT = ''com.mxagent.stream.artifact.v1''"

definition CONTEXT_SHARE :: string where "CONTEXT_SHARE = ''com.mxagent.context.share.v1''"

definition HEARTBEAT :: string where "HEARTBEAT = ''com.mxagent.heartbeat.v1''"

definition APPROVAL_REQUEST :: string where "APPROVAL_REQUEST = ''com.mxagent.approval.request.v1''"

definition APPROVAL_DECISION :: string where "APPROVAL_DECISION = ''com.mxagent.approval.decision.v1''"

definition PTY_RESIZE :: string where "PTY_RESIZE = ''com.mxagent.pty.resize.v1''"

definition AGENT_STATE_TYPE :: string where "AGENT_STATE_TYPE = ''com.mxagent.agent.v1''"

definition TASK_STATE_TYPE :: string where "TASK_STATE_TYPE = ''com.mxagent.task.v1''"

definition INVOCATION_STATE_TYPE :: string where "INVOCATION_STATE_TYPE = ''com.mxagent.invocation.v1''"

definition TOOL_STATE_TYPE :: string where "TOOL_STATE_TYPE = ''com.mxagent.tool.v1''"

definition WORKSPACE_STATE_TYPE :: string where "WORKSPACE_STATE_TYPE = ''com.mxagent.workspace.v1''"

definition TRUST_STATE_TYPE :: string where "TRUST_STATE_TYPE = ''com.mxagent.trust.v1''"

definition timeline_ALL :: "string list" where
  "timeline_ALL = [EXEC_REQUEST, EXEC_ACCEPTED, EXEC_REJECTED, EXEC_FINISHED, EXEC_STDIN,
    EXEC_CANCEL, EXEC_CANCELLED, CALL_REQUEST, CALL_RESPONSE, STREAM_CHUNK, STREAM_ARTIFACT,
    CONTEXT_SHARE, HEARTBEAT, APPROVAL_REQUEST, APPROVAL_DECISION, PTY_RESIZE]"

definition state_ALL :: "string list" where
  "state_ALL = [AGENT_STATE_TYPE, TASK_STATE_TYPE, INVOCATION_STATE_TYPE, TOOL_STATE_TYPE,
    WORKSPACE_STATE_TYPE, TRUST_STATE_TYPE]"

lemmas event_types = EXEC_REQUEST_def EXEC_ACCEPTED_def EXEC_REJECTED_def EXEC_FINISHED_def
    EXEC_STDIN_def EXEC_CANCEL_def EXEC_CANCELLED_def CALL_REQUEST_def CALL_RESPONSE_def
    STREAM_CHUNK_def STREAM_ARTIFACT_def CONTEXT_SHARE_def HEARTBEAT_def APPROVAL_REQUEST_def
    APPROVAL_DECISION_def PTY_RESIZE_def AGENT_STATE_TYPE_def TASK_STATE_TYPE_def
    INVOCATION_STATE_TYPE_def TOOL_STATE_TYPE_def WORKSPACE_STATE_TYPE_def TRUST_STATE_TYPE_def

text \<open>No two types coincide, and each one is in the namespace and carries the version.\<close>

lemma event_types_distinct: "distinct (timeline_ALL @ state_ALL)"
  by code_simp

lemma event_types_well_formed:
  "list_all (\<lambda>ty. take 12 ty = NAMESPACE @ ''.'' \<and> drop (length ty - 3) ty = ''.'' @ SCHEMA_VERSION_SUFFIX)
     (timeline_ALL @ state_ALL)"
  by code_simp

end
