(* ===== verification/Room_State.thy ===== *)
theory Room_State
  imports Task_Schema Requests Rust_Path Event_Types
begin

text \<open>
  The room as the daemon sees it. Matrix is not part of the sources: a room is the store of its
  state events, keyed by state key, and the timeline of what was sent, and every write takes the
  answer of the homeserver (an error, or the event id of the accepted event) from the environment
  record \<open>Env\<close>, which also carries the clock, the next random identifiers and the process
  environment. What the sources do on top of it is modelled here: reading and publishing the
  \<open>com.mxagent.task.v1\<close> and \<open>com.mxagent.invocation.v1\<close> state events
  (\<open>crates/mx-agent-daemon/src/task.rs\<close>, \<open>invocation.rs\<close>, \<open>workspace.rs\<close>) and the error type
  \<open>WorkspaceError\<close>.
\<close>

subsection \<open>Errors\<close>

datatype WorkspaceError =
    InvalidTarget string
  | RoomNotFound string
  | InvalidPath string
  | TaskExists string
  | TaskNotFound string
  | InvalidTaskState string
  | InvalidTaskTransition string string string
  | StaleTaskUpdate string u64 u64
  | InvocationNotFound string
  | ApprovalNotFound string
  | ContextNotFound string
  | ContextIntegrity string string string
  | ContextRetrievalFailed string
  | ContextCaptureFailed string
  | ArtifactNotFound string
  | ArtifactIntegrity string string string string
  | ArtifactRetrievalFailed string
  | WorkspaceForbidden string string int
  | Restore string
  | MatrixError string
  | WsIo string

text \<open>\<open>serde_json\<close> could not read the content of an event.\<close>

definition serde_error :: WorkspaceError where
  "serde_error = MatrixError ''serde''"

subsection \<open>Rooms, clients and the environment\<close>

text \<open>The \<open>content\<close> of a raw state event as \<open>get_field\<close> reports it: absent, not readable at the
  expected type, or read.\<close>

datatype 'a raw = Absent | Malformed | Parsed 'a

record Room =
  rm_tasks :: "(TaskState raw \<times> string option) bmap"
  rm_invocations :: "InvocationState raw bmap"
  rm_agents :: "AgentState raw bmap"
  rm_timeline :: "(string \<times> json) list"

text \<open>\<open>cl_resolve\<close> stands for parsing a room id or alias, one sync and the alias lookup.\<close>

record Client =
  cl_user_id :: "string option"
  cl_resolve :: "string \<Rightarrow> (WorkspaceError, string) result"
  cl_rooms :: "Room bmap"

record Env =
  en_now :: u64
  en_ttl_var :: "string option"
  en_task_id :: string
  en_nonce :: string
  en_state :: "string \<Rightarrow> string \<Rightarrow> (WorkspaceError, string) result"
  en_send :: "string \<Rightarrow> (WorkspaceError, string) result"

definition now_rfc3339 :: "Env \<Rightarrow> string" where
  "now_rfc3339 env = unix_to_rfc3339 (en_now env)"

definition user_id_or_empty :: "Client \<Rightarrow> string" where
  "user_id_or_empty cl = unwrap_or (cl_user_id cl) []"

definition sync_and_get_room :: "Client \<Rightarrow> string \<Rightarrow> (WorkspaceError, string \<times> Room) result" where
  "sync_and_get_room cl target =
     and_then (cl_resolve cl target) (\<lambda>room_id.
     and_then (ok_or (bm_get (cl_rooms cl) room_id) (RoomNotFound target)) (\<lambda>rm. Inr (room_id, rm)))"

definition put_room :: "string \<Rightarrow> Room \<Rightarrow> Client \<Rightarrow> Client" where
  "put_room room_id rm cl = cl \<lparr> cl_rooms := bm_insert room_id rm (cl_rooms cl) \<rparr>"

text \<open>Run an operation of a room inside the client.\<close>

definition in_room ::
  "Client \<Rightarrow> string \<Rightarrow> (Room \<Rightarrow> (WorkspaceError, 'a) result \<times> Room) \<Rightarrow> (WorkspaceError, 'a) result \<times> Client" where
  "in_room cl target f = (case sync_and_get_room cl target of
       Inl e \<Rightarrow> (Inl e, cl)
     | Inr (room_id, rm) \<Rightarrow> (case f rm of (r, rm') \<Rightarrow> (r, put_room room_id rm' cl)))"

subsection \<open>Task and invocation state events\<close>

definition read_task_state ::
  "Room \<Rightarrow> string \<Rightarrow> (WorkspaceError, (TaskState \<times> string option) option) result" where
  "read_task_state rm task_id = (case bm_get (rm_tasks rm) task_id of
       None \<Rightarrow> Inr None
     | Some (content, event_id) \<Rightarrow>
        (case content of
           Malformed \<Rightarrow> Inl serde_error
         | Absent \<Rightarrow> Inr None
         | Parsed state \<Rightarrow> Inr (Some (state, event_id))))"

text \<open>The loop over raw state events: the first unreadable content ends it with an error.\<close>

fun collect_raw :: "'a raw list \<Rightarrow> (WorkspaceError, 'a list) result" where
  "collect_raw [] = Inr []"
| "collect_raw (raw # raws) = (case raw of
       Malformed \<Rightarrow> Inl serde_error
     | Absent \<Rightarrow> collect_raw raws
     | Parsed x \<Rightarrow> and_then (collect_raw raws) (\<lambda>xs. Inr (x # xs)))"

definition read_all_task_states :: "Room \<Rightarrow> (WorkspaceError, TaskState list) result" where
  "read_all_task_states rm = collect_raw (map (fst \<circ> snd) (rm_tasks rm))"

definition publish_task_state ::
  "Env \<Rightarrow> string \<Rightarrow> TaskState \<Rightarrow> Room \<Rightarrow> (WorkspaceError, string) result \<times> Room" where
  "publish_task_state env task_id state rm = (case en_state env TASK_STATE_TYPE task_id of
       Inl e \<Rightarrow> (Inl e, rm)
     | Inr event_id \<Rightarrow>
        (Inr event_id, rm \<lparr> rm_tasks := bm_insert task_id (Parsed state, Some event_id) (rm_tasks rm) \<rparr>))"

definition read_invocation_state :: "Room \<Rightarrow> string \<Rightarrow> (WorkspaceError, InvocationState option) result" where
  "read_invocation_state rm invocation_id = (case bm_get (rm_invocations rm) invocation_id of
       None \<Rightarrow> Inr None
     | Some Malformed \<Rightarrow> Inl serde_error
     | Some Absent \<Rightarrow> Inr None
     | Some (Parsed i) \<Rightarrow> Inr (Some i))"

definition read_all_invocation_states :: "Room \<Rightarrow> (WorkspaceError, InvocationState list) result" where
  "read_all_invocation_states rm = collect_raw (map snd (rm_invocations rm))"

definition publish_invocation_state ::
  "Env \<Rightarrow> InvocationState \<Rightarrow> Room \<Rightarrow> (WorkspaceError, unit) result \<times> Room" where
  "publish_invocation_state env state rm =
     (case en_state env INVOCATION_STATE_TYPE (iv_invocation_id state) of
        Inl e \<Rightarrow> (Inl e, rm)
      | Inr _ \<Rightarrow>
         (Inr (), rm \<lparr> rm_invocations :=
            bm_insert (iv_invocation_id state) (Parsed state) (rm_invocations rm) \<rparr>))"

text \<open>\<open>room.send_raw\<close>: a timeline event.\<close>

definition send_raw :: "Env \<Rightarrow> string \<Rightarrow> json \<Rightarrow> Room \<Rightarrow> (WorkspaceError, unit) result \<times> Room" where
  "send_raw env event_type content rm = (case en_send env event_type of
       Inl e \<Rightarrow> (Inl e, rm)
     | Inr _ \<Rightarrow> (Inr (), rm \<lparr> rm_timeline := rm_timeline rm @ [(event_type, content)] \<rparr>))"

subsection \<open>Lemmas\<close>

lemma collect_raw_ok:
  "collect_raw raws = Inr xs \<longleftrightarrow> Malformed \<notin> set raws \<and> xs = concat (map (\<lambda>r. case r of Parsed x \<Rightarrow> [x] | _ \<Rightarrow> []) raws)"
  by (induction raws arbitrary: xs) (auto split: raw.splits)

lemma collect_raw_err: "collect_raw raws = Inl e \<longleftrightarrow> Malformed \<in> set raws \<and> e = serde_error"
  by (induction raws) (auto simp: and_then_eq_Inl split: raw.splits)

lemma read_own_task_write:
  assumes "publish_task_state env k st rm = (Inr ev, rm')"
  shows "read_task_state rm' j = (if j = k then Inr (Some (st, Some ev)) else read_task_state rm j)"
  using assms
  by (auto simp: publish_task_state_def read_task_state_def bm_get_insert split: sum.splits)

lemma publish_task_failed: "publish_task_state env k st rm = (Inl e, rm') \<Longrightarrow> rm' = rm"
  by (auto simp: publish_task_state_def split: sum.splits)

lemma publish_task_frame:
  "publish_task_state env k st rm = (r, rm') \<Longrightarrow>
   rm_invocations rm' = rm_invocations rm \<and> rm_timeline rm' = rm_timeline rm"
  by (auto simp: publish_task_state_def split: sum.splits)

lemma read_own_invocation_write:
  assumes "publish_invocation_state env st rm = (Inr u, rm')"
  shows "read_invocation_state rm' j =
    (if j = iv_invocation_id st then Inr (Some st) else read_invocation_state rm j)"
  using assms
  by (auto simp: publish_invocation_state_def read_invocation_state_def bm_get_insert split: sum.splits)

lemma publish_invocation_frame:
  "publish_invocation_state env st rm = (r, rm') \<Longrightarrow>
   rm_tasks rm' = rm_tasks rm \<and> rm_timeline rm' = rm_timeline rm"
  by (auto simp: publish_invocation_state_def split: sum.splits)

lemma send_raw_frame:
  "send_raw env ty c rm = (r, rm') \<Longrightarrow> rm_tasks rm' = rm_tasks rm \<and> rm_invocations rm' = rm_invocations rm"
  by (auto simp: send_raw_def split: sum.splits)

end
