(* ===== verification/Invocation.thy ===== *)
theory Invocation
  imports Room_State
begin

text \<open>
  Invocation records, \<open>crates/mx-agent-daemon/src/invocation.rs\<close>: the lifecycle of a command a
  target agent accepted, how it maps to the owning task, and the operations that read, advance and
  cancel it in a room. A cancellation is a signed \<open>com.mxagent.exec.cancel.v1\<close> timeline event
  (\<open>build_signed_exec_cancel\<close> and \<open>send_exec_cancel\<close> of \<open>exec.rs\<close>) followed by the new state.
\<close>

subsection \<open>Lifecycle\<close>

definition INV_ACCEPTED :: string where "INV_ACCEPTED = ''accepted''"

definition INV_RUNNING :: string where "INV_RUNNING = ''running''"

definition INV_SUCCEEDED :: string where "INV_SUCCEEDED = ''succeeded''"

definition INV_FAILED :: string where "INV_FAILED = ''failed''"

definition INV_CANCELLED :: string where "INV_CANCELLED = ''cancelled''"

lemmas inv_states = INV_ACCEPTED_def INV_RUNNING_def INV_SUCCEEDED_def INV_FAILED_def INV_CANCELLED_def

definition inv_is_terminal :: "string \<Rightarrow> bool" where
  "inv_is_terminal state \<longleftrightarrow> state = INV_SUCCEEDED \<or> state = INV_FAILED \<or> state = INV_CANCELLED"

definition terminal_state_for_exit :: "int \<Rightarrow> string" where
  "terminal_state_for_exit exit_code = (if exit_code = 0 then INV_SUCCEEDED else INV_FAILED)"

definition invocation_for_task ::
  "string \<Rightarrow> string \<Rightarrow> string \<Rightarrow> string \<Rightarrow> string \<Rightarrow> InvocationState" where
  "invocation_for_task task_id invocation_id requester target now =
     \<lparr> iv_invocation_id = invocation_id, iv_task_id = Some task_id, iv_requester = requester,
       iv_target = target, iv_state = INV_ACCEPTED, iv_created_at = now, iv_updated_at = now,
       iv_exit_code = None, iv_state_rev = 0, iv_extra = [] \<rparr>"

definition task_state_for_invocation :: "string \<Rightarrow> string option" where
  "task_state_for_invocation s =
     (if s = INV_SUCCEEDED then Some INV_SUCCEEDED
      else if s = INV_FAILED then Some INV_FAILED
      else if s = INV_CANCELLED then Some INV_CANCELLED
      else None)"

definition task_result_from_invocation :: "InvocationState \<Rightarrow> string \<Rightarrow> string \<Rightarrow> TaskResult" where
  "task_result_from_invocation i completed_by now =
     (let s = iv_state i;
          reason = (if s = INV_FAILED then Some ''process_exit''
                    else if s = INV_CANCELLED then Some ''cancelled'' else None);
          summary = (if s = INV_SUCCEEDED then Some ''invocation succeeded''
                     else if s = INV_FAILED then Some ''invocation failed''
                     else if s = INV_CANCELLED then Some ''invocation cancelled''
                     else Some (''invocation '' @ s))
      in \<lparr> tr_status = s, tr_completed_by = completed_by, tr_completed_at = now,
           tr_invocation_id = Some (iv_invocation_id i), tr_action = None, tr_reason = reason,
           tr_exit_code = iv_exit_code i, tr_summary = summary, tr_artifact_mxc = None, tr_extra = [] \<rparr>)"

record ListInvocationsOptions =
  li_room :: string
  li_state :: "string option"
  li_task_id :: "string option"

subsection \<open>Operations on a room\<close>

definition apply_transition :: "string \<Rightarrow> int option \<Rightarrow> string \<Rightarrow> InvocationState \<Rightarrow> InvocationState" where
  "apply_transition state exit_code now i =
     i \<lparr> iv_state := state,
         iv_exit_code := (case exit_code of Some code \<Rightarrow> Some code | None \<Rightarrow> iv_exit_code i),
         iv_state_rev := iv_state_rev i + 1,
         iv_updated_at := now \<rparr>"

definition inv_matches_filters :: "InvocationState \<Rightarrow> ListInvocationsOptions \<Rightarrow> bool" where
  "inv_matches_filters i options \<longleftrightarrow>
     (case li_state options of None \<Rightarrow> True | Some s \<Rightarrow> iv_state i = s) \<and>
     (case li_task_id options of None \<Rightarrow> True | Some t \<Rightarrow> iv_task_id i = Some t)"

definition read_invocation_or_fail :: "Room \<Rightarrow> string \<Rightarrow> (WorkspaceError, InvocationState) result" where
  "read_invocation_or_fail rm invocation_id =
     and_then (read_invocation_state rm invocation_id) (\<lambda>v. ok_or v (InvocationNotFound invocation_id))"

definition advance_invocation ::
  "Env \<Rightarrow> string \<Rightarrow> string \<Rightarrow> string \<Rightarrow> int option \<Rightarrow> Client
    \<Rightarrow> (WorkspaceError, InvocationState) result \<times> Client" where
  "advance_invocation env room invocation_id state exit_code cl = in_room cl room (\<lambda>rm.
     case read_invocation_or_fail rm invocation_id of
       Inl e \<Rightarrow> (Inl e, rm)
     | Inr i0 \<Rightarrow>
        (let i = apply_transition state exit_code (now_rfc3339 env) i0
         in case publish_invocation_state env i rm of
              (Inl e, rm') \<Rightarrow> (Inl e, rm')
            | (Inr _, rm') \<Rightarrow> (Inr i, rm')))"

definition exec_cancel_json :: "string \<Rightarrow> string \<Rightarrow> string \<Rightarrow> string \<Rightarrow> Signature \<Rightarrow> json" where
  "exec_cancel_json invocation_id reason created_at nonce signature = JObject [
     (''invocation_id'', JString invocation_id), (''reason'', JString reason),
     (''created_at'', JString created_at), (''nonce'', JString nonce),
     (''signature'', signature_to_json signature)]"

definition build_signed_exec_cancel ::
  "('sk, 'vk) crypto \<Rightarrow> 'sk \<Rightarrow> string \<Rightarrow> string \<Rightarrow> string \<Rightarrow> string \<Rightarrow> string
    \<Rightarrow> (SignatureError, json) result" where
  "build_signed_exec_cancel cr sk key_id invocation_id reason created_at nonce =
     sign_into cr sk key_id (exec_cancel_json invocation_id reason created_at nonce
       \<lparr> sg_alg = ALG_ED25519, sg_key_id = key_id, sg_sig = [] \<rparr>)"

text \<open>Signing the content cannot fail (\<open>exec_cancel_signs\<close> below), which is what the \<open>expect\<close> in
  the source relies on; the error branch only gives the definition a value there.\<close>

definition send_exec_cancel ::
  "('sk, 'vk) crypto \<Rightarrow> Env \<Rightarrow> 'sk \<Rightarrow> string \<Rightarrow> string \<Rightarrow> string \<Rightarrow> string \<Rightarrow> string \<Rightarrow> Room
    \<Rightarrow> (WorkspaceError, unit) result \<times> Room" where
  "send_exec_cancel cr env sk key_id invocation_id reason created_at nonce rm =
     (case build_signed_exec_cancel cr sk key_id invocation_id reason created_at nonce of
        Inl _ \<Rightarrow> (Inl serde_error, rm)
      | Inr content \<Rightarrow> send_raw env EXEC_CANCEL content rm)"

definition cancel_invocation ::
  "('sk, 'vk) crypto \<Rightarrow> Env \<Rightarrow> 'sk \<Rightarrow> string \<Rightarrow> string \<Rightarrow> string \<Rightarrow> string \<Rightarrow> Client
    \<Rightarrow> (WorkspaceError, InvocationState) result \<times> Client" where
  "cancel_invocation cr env sk key_id room invocation_id reason cl = in_room cl room (\<lambda>rm.
     case read_invocation_or_fail rm invocation_id of
       Inl e \<Rightarrow> (Inl e, rm)
     | Inr i0 \<Rightarrow>
        if inv_is_terminal (iv_state i0) then (Inr i0, rm)
        else
          (let now = now_rfc3339 env
           in case send_exec_cancel cr env sk key_id invocation_id reason now (en_nonce env) rm of
                (Inl e, rm1) \<Rightarrow> (Inl e, rm1)
              | (Inr _, rm1) \<Rightarrow>
                 (let i = apply_transition INV_CANCELLED None now i0
                  in case publish_invocation_state env i rm1 of
                       (Inl e, rm2) \<Rightarrow> (Inl e, rm2)
                     | (Inr _, rm2) \<Rightarrow> (Inr i, rm2))))"

definition list_invocations ::
  "ListInvocationsOptions \<Rightarrow> Client \<Rightarrow> (WorkspaceError, InvocationState list) result" where
  "list_invocations options cl =
     and_then (sync_and_get_room cl (li_room options)) (\<lambda>(_, rm).
     and_then (read_all_invocation_states rm) (\<lambda>invocations.
     Inr (sort_key iv_invocation_id (filter (\<lambda>i. inv_matches_filters i options) invocations))))"

definition get_invocation ::
  "string \<Rightarrow> string \<Rightarrow> Client \<Rightarrow> (WorkspaceError, InvocationState option) result" where
  "get_invocation room invocation_id cl =
     and_then (sync_and_get_room cl room) (\<lambda>(_, rm). read_invocation_state rm invocation_id)"

subsection \<open>Lemmas\<close>

lemma task_state_for_invocation_terminal:
  "task_state_for_invocation s = (if inv_is_terminal s then Some s else None)"
  by (simp add: task_state_for_invocation_def inv_is_terminal_def)

lemma exec_cancel_signs:
  "\<exists>c. build_signed_exec_cancel cr sk key_id iid reason created nonce = Inr c"
proof -
  let ?m = "[(''invocation_id'', JString iid), (''reason'', JString reason), (''created_at'', JString created),
    (''nonce'', JString nonce), (''signature'', signature_to_json \<lparr> sg_alg = ALG_ED25519, sg_key_id = key_id, sg_sig = [] \<rparr>)]"
  have "json_wf (JObject ?m)" "no_float (JObject (unsigned_members ?m))"
    by (simp_all add: signature_to_json_def unsigned_members_def SIGNATURE_FIELD_def)
  then obtain bs where "signing_bytes cr (JObject ?m) = Inr bs"
    using signing_bytes_total by blast
  then show ?thesis
    by (simp add: build_signed_exec_cancel_def exec_cancel_json_def sign_into_def sign_def)
qed

lemma send_exec_cancel_eq:
  "send_exec_cancel cr env sk key_id iid reason created nonce rm = (case en_send env EXEC_CANCEL of
     Inl e \<Rightarrow> (Inl e, rm)
   | Inr _ \<Rightarrow> (Inr (), rm \<lparr> rm_timeline := rm_timeline rm @
       [(EXEC_CANCEL, projr (build_signed_exec_cancel cr sk key_id iid reason created nonce))] \<rparr>))"
  using exec_cancel_signs [of cr sk key_id iid reason created nonce]
  by (auto simp: send_exec_cancel_def send_raw_def split: sum.splits)

end
