(* ===== verification/Task_Lifecycle.thy ===== *)
theory Task_Lifecycle
  imports Invocation
begin

text \<open>
  Task state events, \<open>crates/mx-agent-daemon/src/task.rs\<close>: the lifecycle and its transition table,
  the operations that create, update and cancel a task in a room, the revision check that keeps a
  caller with an old view from overwriting newer state, and the signing of task actions on behalf
  of a local caller. \<open>state_rev\<close> is a \<open>u64\<close> whose increment wraps, as in a release build.
\<close>

subsection \<open>Lifecycle\<close>

definition STATE_PROPOSED :: string where "STATE_PROPOSED = ''proposed''"

definition STATE_PENDING :: string where "STATE_PENDING = ''pending''"

definition STATE_ASSIGNED :: string where "STATE_ASSIGNED = ''assigned''"

definition STATE_EXECUTING :: string where "STATE_EXECUTING = ''executing''"

definition STATE_SUCCEEDED :: string where "STATE_SUCCEEDED = ''succeeded''"

definition STATE_FAILED :: string where "STATE_FAILED = ''failed''"

definition STATE_CANCELLED :: string where "STATE_CANCELLED = ''cancelled''"

definition STATE_BLOCKED :: string where "STATE_BLOCKED = ''blocked''"

definition STATE_SUPERSEDED :: string where "STATE_SUPERSEDED = ''superseded''"

definition DEFAULT_TASK_STATE :: string where "DEFAULT_TASK_STATE = STATE_PENDING"

lemmas task_states = STATE_PROPOSED_def STATE_PENDING_def STATE_ASSIGNED_def STATE_EXECUTING_def
  STATE_SUCCEEDED_def STATE_FAILED_def STATE_CANCELLED_def STATE_BLOCKED_def STATE_SUPERSEDED_def

definition KNOWN_STATES :: "string list" where
  "KNOWN_STATES = [STATE_PROPOSED, STATE_PENDING, STATE_ASSIGNED, STATE_EXECUTING, STATE_SUCCEEDED,
     STATE_FAILED, STATE_CANCELLED, STATE_BLOCKED, STATE_SUPERSEDED]"

definition is_known_state :: "string \<Rightarrow> bool" where
  "is_known_state state = (state \<in> set KNOWN_STATES)"

definition is_terminal :: "string \<Rightarrow> bool" where
  "is_terminal state = (state \<in> set [STATE_SUCCEEDED, STATE_FAILED, STATE_CANCELLED, STATE_SUPERSEDED])"

definition is_runnable :: "string \<Rightarrow> bool" where
  "is_runnable state = (state \<in> set [STATE_PENDING, STATE_ASSIGNED])"

definition can_transition :: "string \<Rightarrow> string \<Rightarrow> bool" where
  "can_transition old to =
     (if old = to then is_known_state old
      else if old = STATE_PROPOSED then
        (to \<in> set [STATE_PENDING, STATE_CANCELLED, STATE_SUPERSEDED])
      else if old = STATE_PENDING then
        (to \<in> set [STATE_ASSIGNED, STATE_EXECUTING, STATE_BLOCKED, STATE_CANCELLED, STATE_SUPERSEDED])
      else if old = STATE_ASSIGNED then
        (to \<in> set [STATE_PENDING, STATE_EXECUTING, STATE_BLOCKED, STATE_CANCELLED, STATE_SUPERSEDED])
      else if old = STATE_BLOCKED then
        (to \<in> set [STATE_PENDING, STATE_ASSIGNED, STATE_CANCELLED, STATE_SUPERSEDED])
      else if old = STATE_EXECUTING then
        (to \<in> set [STATE_SUCCEEDED, STATE_FAILED, STATE_CANCELLED])
      else False)"

subsection \<open>Options\<close>

record CreateTaskOptions =
  ct_room :: string
  ct_task_id :: "string option"
  ct_title :: string
  ct_description :: string
  ct_state :: "string option"
  ct_assigned_to :: string
  ct_created_by :: "string option"
  ct_depends_on :: "string list"
  ct_blocks :: "string list"
  ct_action :: "TaskAction option"

record UpdateTaskOptions =
  ut_room :: string
  ut_task_id :: string
  ut_state :: "string option"
  ut_assigned_to :: "string option"
  ut_title :: "string option"
  ut_description :: "string option"
  ut_invocation_id :: "string option"
  ut_result :: "json option"
  ut_action :: "TaskAction option"
  ut_expected_state_rev :: "u64 option"

definition default_update :: UpdateTaskOptions where
  "default_update = \<lparr> ut_room = [], ut_task_id = [], ut_state = None, ut_assigned_to = None,
     ut_title = None, ut_description = None, ut_invocation_id = None, ut_result = None,
     ut_action = None, ut_expected_state_rev = None \<rparr>"

record ListTasksOptions =
  lt_room :: string
  lt_state :: "string option"
  lt_assigned_to :: "string option"

subsection \<open>Authoring of task actions\<close>

definition TASK_AUTH_TTL :: u64 where
  "TASK_AUTH_TTL = 24 * 60 * 60"

definition trim_end :: "string \<Rightarrow> string" where
  "trim_end s = (case find (\<lambda>n. is_blank (drop n s)) [0..<length s] of None \<Rightarrow> s | Some n \<Rightarrow> take n s)"

text \<open>\<open>str::parse::<u64>\<close>: an optional plus sign and at least one digit, within range.\<close>

definition parse_u64 :: "string \<Rightarrow> u64 option" where
  "parse_u64 s =
     (let ds = (case s of CHR ''+'' # r \<Rightarrow> r | _ \<Rightarrow> s);
          n = foldl (\<lambda>a c. 10 * a + digit_val c) 0 ds
      in if ds \<noteq> [] \<and> list_all is_digit ds \<and> n < 2 ^ 64 then Some (of_nat n) else None)"

definition task_auth_ttl :: "Env \<Rightarrow> u64" where
  "task_auth_ttl env = (case en_ttl_var env of
       None \<Rightarrow> TASK_AUTH_TTL
     | Some raw \<Rightarrow> (case parse_u64 (trim_end (trim_start raw)) of
          None \<Rightarrow> TASK_AUTH_TTL
        | Some secs \<Rightarrow> if secs > 0 then secs else TASK_AUTH_TTL))"

definition rfc3339_after :: "Env \<Rightarrow> u64 \<Rightarrow> string" where
  "rfc3339_after env offset = unix_to_rfc3339 (sat_add (en_now env) offset)"

definition non_empty :: "string option \<Rightarrow> string option" where
  "non_empty v = (case v of Some s \<Rightarrow> if s = [] then None else Some s | None \<Rightarrow> None)"

definition resolve_created_by :: "CreateTaskOptions \<Rightarrow> Client \<Rightarrow> string" where
  "resolve_created_by options cl = unwrap_or (non_empty (ct_created_by options)) (user_id_or_empty cl)"

definition authored_authorization ::
  "('sk, 'vk) crypto \<Rightarrow> Env \<Rightarrow> 'sk \<times> string \<Rightarrow> string \<Rightarrow> TaskAction \<Rightarrow> string \<Rightarrow> string
    \<Rightarrow> (WorkspaceError, TaskAction option) result" where
  "authored_authorization cr env key task_id action requesting_agent target_agent =
     (if authorization action \<noteq> None then Inr None
      else if target_agent = [] then Inr None
      else
        (let unsigned = without_authorization action
         in and_then (map_err (\<lambda>_. WsIo ''signing'')
              (sign_task_action cr (fst key) (snd key) task_id unsigned requesting_agent target_agent
                 (rfc3339_after env 0) (rfc3339_after env (task_auth_ttl env)) (en_nonce env))) (\<lambda>auth.
            Inr (Some (with_authorization unsigned auth)))))"

subsection \<open>Operations on a room\<close>

definition build_new_task :: "CreateTaskOptions \<Rightarrow> string \<Rightarrow> string \<Rightarrow> string \<Rightarrow> TaskState" where
  "build_new_task options task_id created_by now =
     \<lparr> tk_task_id = task_id, tk_title = ct_title options, tk_description = ct_description options,
       tk_state = unwrap_or (non_empty (ct_state options)) DEFAULT_TASK_STATE,
       tk_assigned_to = ct_assigned_to options, tk_created_by = created_by,
       tk_depends_on = ct_depends_on options, tk_blocks = ct_blocks options,
       tk_invocation_id = None, tk_created_at = now, tk_updated_at = now, tk_state_rev = 1,
       tk_previous_event_id = None, tk_result = None, tk_action = ct_action options, tk_extra = [] \<rparr>"

definition apply_update :: "UpdateTaskOptions \<Rightarrow> string \<Rightarrow> string option \<Rightarrow> TaskState \<Rightarrow> TaskState" where
  "apply_update options now previous_event_id st =
     st \<lparr> tk_state := unwrap_or (ut_state options) (tk_state st),
          tk_assigned_to := unwrap_or (ut_assigned_to options) (tk_assigned_to st),
          tk_title := unwrap_or (ut_title options) (tk_title st),
          tk_description := unwrap_or (ut_description options) (tk_description st),
          tk_invocation_id := or_opt (ut_invocation_id options) (tk_invocation_id st),
          tk_result := or_opt (ut_result options) (tk_result st),
          tk_action := or_opt (ut_action options) (tk_action st),
          tk_state_rev := tk_state_rev st + 1,
          tk_updated_at := now,
          tk_previous_event_id := previous_event_id \<rparr>"

definition check_not_stale :: "string \<Rightarrow> u64 \<Rightarrow> u64 option \<Rightarrow> (WorkspaceError, unit) result" where
  "check_not_stale task_id current_rev expected_rev = (case expected_rev of
       Some expected \<Rightarrow>
         if expected \<noteq> current_rev then Inl (StaleTaskUpdate task_id expected current_rev) else Inr ()
     | None \<Rightarrow> Inr ())"

definition check_known_state :: "string \<Rightarrow> (WorkspaceError, unit) result" where
  "check_known_state state = (if is_known_state state then Inr () else Inl (InvalidTaskState state))"

definition check_transition :: "string \<Rightarrow> string \<Rightarrow> string \<Rightarrow> (WorkspaceError, unit) result" where
  "check_transition task_id old to =
     and_then (check_known_state to) (\<lambda>_.
     if can_transition old to then Inr () else Inl (InvalidTaskTransition task_id old to))"

definition matches_filters :: "TaskState \<Rightarrow> ListTasksOptions \<Rightarrow> bool" where
  "matches_filters task options \<longleftrightarrow>
     (case lt_state options of None \<Rightarrow> True | Some s \<Rightarrow> tk_state task = s) \<and>
     (case lt_assigned_to options of None \<Rightarrow> True | Some a \<Rightarrow> tk_assigned_to task = a)"

text \<open>The checks before a write: revision first, then the transition when a state is given.\<close>

definition update_guard :: "TaskState \<Rightarrow> UpdateTaskOptions \<Rightarrow> (WorkspaceError, unit) result" where
  "update_guard current options =
     and_then (check_not_stale (tk_task_id current) (tk_state_rev current) (ut_expected_state_rev options)) (\<lambda>_.
     case ut_state options of
       Some to \<Rightarrow> check_transition (tk_task_id current) (tk_state current) to
     | None \<Rightarrow> Inr ())"

definition apply_and_publish_task ::
  "Env \<Rightarrow> TaskState \<Rightarrow> string option \<Rightarrow> UpdateTaskOptions \<Rightarrow> Room
    \<Rightarrow> (WorkspaceError, TaskState \<times> string) result \<times> Room" where
  "apply_and_publish_task env current previous_event_id options rm = (case update_guard current options of
       Inl e \<Rightarrow> (Inl e, rm)
     | Inr _ \<Rightarrow>
        (let st = apply_update options (now_rfc3339 env) previous_event_id current
         in case publish_task_state env (ut_task_id options) st rm of
              (Inl e, rm') \<Rightarrow> (Inl e, rm')
            | (Inr event_id, rm') \<Rightarrow> (Inr (st, event_id), rm')))"

definition read_task_or_fail :: "Room \<Rightarrow> string \<Rightarrow> (WorkspaceError, TaskState \<times> string option) result" where
  "read_task_or_fail rm task_id =
     and_then (read_task_state rm task_id) (\<lambda>v. ok_or v (TaskNotFound task_id))"

definition update_task_in_room ::
  "Env \<Rightarrow> UpdateTaskOptions \<Rightarrow> Room \<Rightarrow> (WorkspaceError, TaskState \<times> string) result \<times> Room" where
  "update_task_in_room env options rm = (case read_task_or_fail rm (ut_task_id options) of
       Inl e \<Rightarrow> (Inl e, rm)
     | Inr (st, event_id) \<Rightarrow> apply_and_publish_task env st event_id options rm)"

definition update_task ::
  "Env \<Rightarrow> UpdateTaskOptions \<Rightarrow> Client \<Rightarrow> (WorkspaceError, TaskState) result \<times> Client" where
  "update_task env options cl = (case in_room cl (ut_room options) (update_task_in_room env options) of
       (Inl e, cl') \<Rightarrow> (Inl e, cl')
     | (Inr (st, _), cl') \<Rightarrow> (Inr st, cl'))"

definition chosen_task_id :: "Env \<Rightarrow> CreateTaskOptions \<Rightarrow> string" where
  "chosen_task_id env options = unwrap_or (non_empty (ct_task_id options)) (en_task_id env)"

definition create_in_room ::
  "Env \<Rightarrow> CreateTaskOptions \<Rightarrow> string \<Rightarrow> Room \<Rightarrow> (WorkspaceError, TaskState \<times> string) result \<times> Room" where
  "create_in_room env options created_by rm =
     (let task_id = chosen_task_id env options
      in case read_task_state rm task_id of
           Inl e \<Rightarrow> (Inl e, rm)
         | Inr (Some _) \<Rightarrow> (Inl (TaskExists task_id), rm)
         | Inr None \<Rightarrow>
            (let st = build_new_task options task_id created_by (now_rfc3339 env)
             in case check_known_state (tk_state st) of
                  Inl e \<Rightarrow> (Inl e, rm)
                | Inr _ \<Rightarrow>
                   (case publish_task_state env task_id st rm of
                      (Inl e, rm') \<Rightarrow> (Inl e, rm')
                    | (Inr event_id, rm') \<Rightarrow> (Inr (st, event_id), rm'))))"

definition create_task_returning_event_id ::
  "Env \<Rightarrow> CreateTaskOptions \<Rightarrow> Client \<Rightarrow> (WorkspaceError, TaskState \<times> string) result \<times> Client" where
  "create_task_returning_event_id env options cl =
     in_room cl (ct_room options) (create_in_room env options (resolve_created_by options cl))"

text \<open>\<open>key\<close> is the outcome of \<open>load_authoring_key\<close>.\<close>

definition create_task_for_session ::
  "('sk, 'vk) crypto \<Rightarrow> Env \<Rightarrow> (WorkspaceError, 'sk \<times> string) result \<Rightarrow> CreateTaskOptions \<Rightarrow> Client
    \<Rightarrow> (WorkspaceError, TaskState \<times> string) result \<times> Client" where
  "create_task_for_session cr env key options0 cl =
     (let task_id = chosen_task_id env options0;
          options = options0 \<lparr> ct_task_id := Some task_id \<rparr>
      in case (case ct_action options of
                 None \<Rightarrow> Inr None
               | Some action \<Rightarrow>
                  and_then key (\<lambda>signing.
                  authored_authorization cr env signing task_id action (resolve_created_by options cl)
                    (ct_assigned_to options))) of
           Inl e \<Rightarrow> (Inl e, cl)
         | Inr signed_action \<Rightarrow>
            create_task_returning_event_id env
              (options \<lparr> ct_action := or_opt signed_action (ct_action options) \<rparr>) cl)"

definition resign_action ::
  "('sk, 'vk) crypto \<Rightarrow> Env \<Rightarrow> 'sk \<times> string \<Rightarrow> Client \<Rightarrow> TaskState \<Rightarrow> UpdateTaskOptions
    \<Rightarrow> (WorkspaceError, TaskAction option) result" where
  "resign_action cr env signing cl current options =
     (let effective_assignee = unwrap_or (ut_assigned_to options) (tk_assigned_to current);
          requester = (if tk_created_by current = [] then user_id_or_empty cl else tk_created_by current)
      in case ut_action options of
           Some new_action \<Rightarrow>
             authored_authorization cr env signing (tk_task_id current) new_action requester effective_assignee
         | None \<Rightarrow>
            if ut_assigned_to options \<noteq> None then
              (case tk_action current of
                 Some current_action \<Rightarrow>
                   authored_authorization cr env signing (tk_task_id current)
                     (without_authorization current_action) requester effective_assignee
               | None \<Rightarrow> Inr None)
            else Inr None)"

definition update_task_with_signing ::
  "('sk, 'vk) crypto \<Rightarrow> Env \<Rightarrow> 'sk \<times> string \<Rightarrow> UpdateTaskOptions \<Rightarrow> Client
    \<Rightarrow> (WorkspaceError, TaskState \<times> string) result \<times> Client" where
  "update_task_with_signing cr env signing options cl = in_room cl (ut_room options) (\<lambda>rm.
     case read_task_or_fail rm (ut_task_id options) of
       Inl e \<Rightarrow> (Inl e, rm)
     | Inr (current, event_id) \<Rightarrow>
        (case resign_action cr env signing cl current options of
           Inl e \<Rightarrow> (Inl e, rm)
         | Inr signed_action \<Rightarrow>
            apply_and_publish_task env current event_id
              (options \<lparr> ut_action := or_opt signed_action (ut_action options) \<rparr>) rm))"

definition update_task_for_session ::
  "('sk, 'vk) crypto \<Rightarrow> Env \<Rightarrow> (WorkspaceError, 'sk \<times> string) result \<Rightarrow> UpdateTaskOptions \<Rightarrow> Client
    \<Rightarrow> (WorkspaceError, TaskState \<times> string) result \<times> Client" where
  "update_task_for_session cr env key options cl =
     (if ut_action options \<noteq> None \<or> ut_assigned_to options \<noteq> None then
        (case key of
           Inl e \<Rightarrow> (Inl e, cl)
         | Inr signing \<Rightarrow> update_task_with_signing cr env signing options cl)
      else in_room cl (ut_room options) (update_task_in_room env options))"

definition cancel_finalization ::
  "InvocationState option \<Rightarrow> TaskState \<Rightarrow> string \<Rightarrow> string \<Rightarrow> string \<times> json" where
  "cancel_finalization i task completed_by now = (case i of
       Some i' \<Rightarrow>
         (unwrap_or (task_state_for_invocation (iv_state i')) STATE_CANCELLED,
          into_value (task_result_from_invocation i' completed_by now))
     | None \<Rightarrow>
         (STATE_CANCELLED,
          into_value \<lparr> tr_status = STATE_CANCELLED, tr_completed_by = completed_by,
            tr_completed_at = now, tr_invocation_id = tk_invocation_id task, tr_action = None,
            tr_reason = Some ''cancelled'', tr_exit_code = None,
            tr_summary = Some ''task cancelled'', tr_artifact_mxc = None, tr_extra = [] \<rparr>))"

definition cancel_task ::
  "('sk, 'vk) crypto \<Rightarrow> Env \<Rightarrow> 'sk \<Rightarrow> string \<Rightarrow> string \<Rightarrow> string \<Rightarrow> string \<Rightarrow> Client
    \<Rightarrow> (WorkspaceError, TaskState) result \<times> Client" where
  "cancel_task cr env sk key_id room task_id reason cl =
     (case and_then (sync_and_get_room cl room) (\<lambda>(_, rm). read_task_or_fail rm task_id) of
        Inl e \<Rightarrow> (Inl e, cl)
      | Inr (task, _) \<Rightarrow>
         if is_terminal (tk_state task) then (Inr task, cl)
         else
           (case (case tk_invocation_id task of
                    Some invocation_id \<Rightarrow>
                      (case cancel_invocation cr env sk key_id room invocation_id reason cl of
                         (Inr i, cl1) \<Rightarrow> (Inr (Some i), cl1)
                       | (Inl e, cl1) \<Rightarrow>
                          (case e of InvocationNotFound _ \<Rightarrow> (Inr None, cl1) | _ \<Rightarrow> (Inl e, cl1)))
                  | None \<Rightarrow> (Inr None, cl)) of
              (Inl e, cl1) \<Rightarrow> (Inl e, cl1)
            | (Inr i, cl1) \<Rightarrow>
               (let (terminal, result) =
                      cancel_finalization i task (user_id_or_empty cl) (now_rfc3339 env)
                in update_task env (default_update \<lparr> ut_room := room, ut_task_id := task_id,
                     ut_state := Some terminal, ut_result := Some result \<rparr>) cl1)))"

definition read_tasks :: "ListTasksOptions \<Rightarrow> Room \<Rightarrow> (WorkspaceError, TaskState list) result" where
  "read_tasks options rm =
     and_then (read_all_task_states rm) (\<lambda>tasks.
     Inr (sort_key tk_task_id (filter (\<lambda>task. matches_filters task options) tasks)))"

definition list_tasks :: "ListTasksOptions \<Rightarrow> Client \<Rightarrow> (WorkspaceError, TaskState list) result" where
  "list_tasks options cl =
     and_then (sync_and_get_room cl (lt_room options)) (\<lambda>(_, rm). read_tasks options rm)"

subsection \<open>The transition table\<close>

lemma task_states_distinct: "distinct KNOWN_STATES" "distinct (rev KNOWN_STATES)"
  by (simp_all add: KNOWN_STATES_def task_states)

lemmas state_neq = task_states_distinct [unfolded KNOWN_STATES_def, simplified]

lemma terminal_known: "is_terminal s \<Longrightarrow> is_known_state s"
  by (auto simp: is_terminal_def is_known_state_def KNOWN_STATES_def)

lemma terminal_absorbing:
  assumes "is_terminal s"
  shows "can_transition s t \<longleftrightarrow> t = s"
proof -
  have "s = STATE_SUCCEEDED \<or> s = STATE_FAILED \<or> s = STATE_CANCELLED \<or> s = STATE_SUPERSEDED"
    using assms by (simp add: is_terminal_def)
  then show ?thesis
    by (elim disjE; simp add: can_transition_def is_known_state_def KNOWN_STATES_def state_neq eq_commute [of t])
qed

lemma transition_known: "can_transition s t \<Longrightarrow> is_known_state s \<and> is_known_state t"
  unfolding can_transition_def is_known_state_def KNOWN_STATES_def by (auto split: if_splits)

lemma executing_exits:
  "can_transition STATE_EXECUTING t \<longleftrightarrow> t \<in> {STATE_EXECUTING, STATE_SUCCEEDED, STATE_FAILED, STATE_CANCELLED}"
  by (simp add: can_transition_def is_known_state_def KNOWN_STATES_def state_neq eq_commute [of t])

lemma executing_entry:
  "can_transition s STATE_EXECUTING \<longleftrightarrow> s \<in> {STATE_EXECUTING, STATE_PENDING, STATE_ASSIGNED}"
  by (simp add: can_transition_def is_known_state_def KNOWN_STATES_def state_neq)

lemma runnable_not_terminal: "is_runnable s \<Longrightarrow> \<not> is_terminal s"
  by (auto simp: is_terminal_def is_runnable_def state_neq)

lemma terminal_reach: "can_transition\<^sup>*\<^sup>* s t \<Longrightarrow> is_terminal s \<Longrightarrow> t = s"
  by (induction rule: rtranclp_induct) (auto simp: terminal_absorbing)

lemma inv_terminal_is_terminal: "inv_is_terminal s \<Longrightarrow> is_terminal s"
  by (auto simp: inv_is_terminal_def is_terminal_def inv_states task_states)

subsection \<open>One write\<close>

lemma check_not_stale_ok [simp]:
  "check_not_stale tid cur exp = Inr u \<longleftrightarrow> exp = None \<or> exp = Some cur"
  by (auto simp: check_not_stale_def split: option.splits)

lemma check_known_state_ok [simp]: "check_known_state s = Inr u \<longleftrightarrow> is_known_state s"
  by (simp add: check_known_state_def)

lemma check_transition_ok [simp]: "check_transition tid s t = Inr u \<longleftrightarrow> can_transition s t"
  using transition_known by (auto simp: check_transition_def)

lemma check_transition_err:
  "is_known_state t \<Longrightarrow> check_transition tid s t =
    (if can_transition s t then Inr () else Inl (InvalidTaskTransition tid s t))"
  by (simp add: check_transition_def check_known_state_def)

lemma update_guard_ok:
  "update_guard cur opt = Inr u \<longleftrightarrow>
   (ut_expected_state_rev opt = None \<or> ut_expected_state_rev opt = Some (tk_state_rev cur)) \<and>
   (case ut_state opt of None \<Rightarrow> True | Some t \<Rightarrow> can_transition (tk_state cur) t)"
  by (auto simp: update_guard_def split: option.splits)

lemma apply_and_publish_eq:
  "apply_and_publish_task env cur prev opt rm = (case update_guard cur opt of
     Inl e \<Rightarrow> (Inl e, rm)
   | Inr _ \<Rightarrow>
      (let st = apply_update opt (now_rfc3339 env) prev cur
       in case en_state env TASK_STATE_TYPE (ut_task_id opt) of
            Inl e \<Rightarrow> (Inl e, rm)
          | Inr ev \<Rightarrow> (Inr (st, ev), rm \<lparr> rm_tasks := bm_insert (ut_task_id opt) (Parsed st, Some ev) (rm_tasks rm) \<rparr>)))"
  by (simp add: apply_and_publish_task_def publish_task_state_def Let_def split: sum.split)

lemma apply_update_fields [simp]:
  "tk_task_id (apply_update opt now prev st) = tk_task_id st"
  "tk_created_by (apply_update opt now prev st) = tk_created_by st"
  "tk_created_at (apply_update opt now prev st) = tk_created_at st"
  "tk_depends_on (apply_update opt now prev st) = tk_depends_on st"
  "tk_blocks (apply_update opt now prev st) = tk_blocks st"
  "tk_state_rev (apply_update opt now prev st) = tk_state_rev st + 1"
  "tk_state (apply_update opt now prev st) = unwrap_or (ut_state opt) (tk_state st)"
  "tk_previous_event_id (apply_update opt now prev st) = prev"
  by (simp_all add: apply_update_def)

lemma read_task_or_fail_ok:
  "read_task_or_fail rm k = Inr (cur, cev) \<longleftrightarrow> read_task_state rm k = Inr (Some (cur, cev))"
  by (auto simp: read_task_or_fail_def)

lemma update_in_room_cases:
  obtains (denied) e where "update_task_in_room env opt rm = (Inl e, rm)"
  | (written) cur cev ev where
    "read_task_state rm (ut_task_id opt) = Inr (Some (cur, cev))"
    "update_task_in_room env opt rm = (Inr (apply_update opt (now_rfc3339 env) cev cur, ev),
       rm \<lparr> rm_tasks := bm_insert (ut_task_id opt)
         (Parsed (apply_update opt (now_rfc3339 env) cev cur), Some ev) (rm_tasks rm) \<rparr>)"
    "update_guard cur opt = Inr ()"
proof (cases "read_task_or_fail rm (ut_task_id opt)")
  case (Inl e)
  then show ?thesis
    by (intro denied [of e]) (simp add: update_task_in_room_def)
next
  case (Inr p)
  obtain cur cev where p: "p = (cur, cev)"
    by (cases p)
  have r: "read_task_state rm (ut_task_id opt) = Inr (Some (cur, cev))"
    using Inr p by (simp add: read_task_or_fail_ok)
  have u: "update_task_in_room env opt rm = apply_and_publish_task env cur cev opt rm"
    using Inr p by (simp add: update_task_in_room_def)
  show ?thesis
  proof (cases "update_guard cur opt")
    case (Inl e)
    then show ?thesis
      using u by (intro denied [of e]) (simp add: apply_and_publish_eq)
  next
    case g: (Inr v)
    show ?thesis
    proof (cases "en_state env TASK_STATE_TYPE (ut_task_id opt)")
      case (Inl e)
      then show ?thesis
        using u g by (intro denied [of e]) (simp add: apply_and_publish_eq Let_def)
    next
      case (Inr ev)
      then show ?thesis
        using u g r by (intro written [of cur cev ev]) (simp_all add: apply_and_publish_eq Let_def)
    qed
  qed
qed

lemma create_in_room_cases:
  obtains (denied) e where "create_in_room env opt cb rm = (Inl e, rm)"
  | (written) st ev where
    "read_task_state rm (chosen_task_id env opt) = Inr None"
    "st = build_new_task opt (chosen_task_id env opt) cb (now_rfc3339 env)"
    "create_in_room env opt cb rm = (Inr (st, ev),
       rm \<lparr> rm_tasks := bm_insert (chosen_task_id env opt) (Parsed st, Some ev) (rm_tasks rm) \<rparr>)"
    "is_known_state (tk_state st)"
proof -
  define k where "k = chosen_task_id env opt"
  define st where "st = build_new_task opt k cb (now_rfc3339 env)"
  have e: "create_in_room env opt cb rm = (case read_task_state rm k of
      Inl e \<Rightarrow> (Inl e, rm)
    | Inr (Some _) \<Rightarrow> (Inl (TaskExists k), rm)
    | Inr None \<Rightarrow> if \<not> is_known_state (tk_state st) then (Inl (InvalidTaskState (tk_state st)), rm)
        else (case en_state env TASK_STATE_TYPE k of Inl e \<Rightarrow> (Inl e, rm)
          | Inr ev \<Rightarrow> (Inr (st, ev), rm \<lparr> rm_tasks := bm_insert k (Parsed st, Some ev) (rm_tasks rm) \<rparr>)))"
    unfolding create_in_room_def k_def [symmetric] Let_def st_def [symmetric] check_known_state_def
      publish_task_state_def
    by (simp split: sum.split option.split)
  show ?thesis
  proof (cases "read_task_state rm k")
    case (Inl e')
    then show ?thesis
      using e by (intro denied [of e']) simp
  next
    case r: (Inr v)
    show ?thesis
    proof (cases "v = None \<and> is_known_state (tk_state st)")
      case False
      then show ?thesis
        using e r by (cases v) (auto intro: denied)
    next
      case True
      then show ?thesis
        using e r by (cases "en_state env TASK_STATE_TYPE k") (auto intro: denied written simp: k_def st_def)
    qed
  qed
qed

subsection \<open>Histories of a room\<close>

text \<open>\<open>same_task st st'\<close>: one record is a later version of the other.\<close>

definition same_task :: "TaskState \<Rightarrow> TaskState \<Rightarrow> bool" where
  "same_task st st' \<longleftrightarrow>
     tk_task_id st' = tk_task_id st \<and> tk_created_by st' = tk_created_by st \<and>
     tk_created_at st' = tk_created_at st \<and> tk_depends_on st' = tk_depends_on st \<and>
     tk_blocks st' = tk_blocks st \<and> can_transition\<^sup>*\<^sup>* (tk_state st) (tk_state st')"

definition room_evolves :: "Room \<Rightarrow> Room \<Rightarrow> bool" where
  "room_evolves rm rm' \<longleftrightarrow> (\<forall>k st ev. read_task_state rm k = Inr (Some (st, ev)) \<longrightarrow>
     (\<exists>st' ev'. read_task_state rm' k = Inr (Some (st', ev')) \<and> same_task st st'))"

definition client_evolves :: "Client \<Rightarrow> Client \<Rightarrow> bool" where
  "client_evolves cl cl' \<longleftrightarrow>
     cl_user_id cl' = cl_user_id cl \<and> cl_resolve cl' = cl_resolve cl \<and>
     (\<forall>r rm. bm_get (cl_rooms cl) r = Some rm \<longrightarrow>
       (\<exists>rm'. bm_get (cl_rooms cl') r = Some rm' \<and> room_evolves rm rm'))"

lemma same_task_refl [simp]: "same_task st st"
  by (simp add: same_task_def)

lemma same_task_trans: "same_task a b \<Longrightarrow> same_task b c \<Longrightarrow> same_task a c"
  by (auto simp: same_task_def)

lemma room_evolves_refl [simp]: "room_evolves rm rm"
  by (auto simp: room_evolves_def)

lemma room_evolves_trans: "room_evolves a b \<Longrightarrow> room_evolves b c \<Longrightarrow> room_evolves a c"
  unfolding room_evolves_def by (meson same_task_trans)

lemma client_evolves_refl [simp]: "client_evolves cl cl"
  by (auto simp: client_evolves_def)

lemma client_evolves_trans: "client_evolves a b \<Longrightarrow> client_evolves b c \<Longrightarrow> client_evolves a c"
  unfolding client_evolves_def by (metis room_evolves_trans)

lemma room_evolves_same_tasks: "rm_tasks rm' = rm_tasks rm \<Longrightarrow> room_evolves rm rm'"
  by (auto simp: room_evolves_def read_task_state_def)

lemma guard_same_task: "update_guard cur opt = Inr u \<Longrightarrow> same_task cur (apply_update opt now prev cur)"
  by (cases "ut_state opt") (auto simp: same_task_def update_guard_ok)

lemma read_task_insert:
  "read_task_state (rm \<lparr> rm_tasks := bm_insert k (Parsed st, ev) (rm_tasks rm) \<rparr>) j =
    (if j = k then Inr (Some (st, ev)) else read_task_state rm j)"
  by (simp add: read_task_state_def bm_get_insert)

lemma room_evolves_write:
  assumes "\<And>cur cev. read_task_state rm k = Inr (Some (cur, cev)) \<Longrightarrow> same_task cur st"
  shows "room_evolves rm (rm \<lparr> rm_tasks := bm_insert k (Parsed st, ev) (rm_tasks rm) \<rparr>)"
  using assms by (auto simp: room_evolves_def read_task_insert)

lemma update_in_room_evolves: "room_evolves rm (snd (update_task_in_room env opt rm))"
  by (rule update_in_room_cases [of env opt rm]) (auto intro!: room_evolves_write guard_same_task)

lemma create_in_room_evolves: "room_evolves rm (snd (create_in_room env opt cb rm))"
  by (rule create_in_room_cases [of env opt cb rm]) (auto intro!: room_evolves_write)

lemma apply_and_publish_evolves:
  "read_task_state rm (ut_task_id opt) = Inr (Some (cur, cev)) \<Longrightarrow>
   room_evolves rm (snd (apply_and_publish_task env cur prev opt rm))"
  by (auto simp: apply_and_publish_eq Let_def split: sum.split intro!: room_evolves_write guard_same_task)

lemma in_room_evolves:
  assumes "\<And>rm. room_evolves rm (snd (f rm))"
  shows "client_evolves cl (snd (in_room cl target f))"
proof (cases "sync_and_get_room cl target")
  case (Inr p)
  obtain r rm where p: "p = (r, rm)" by (cases p)
  have "bm_get (cl_rooms cl) r = Some rm"
    using Inr p by (auto simp: sync_and_get_room_def)
  then show ?thesis
    using Inr p assms [of rm]
    by (auto simp: in_room_def client_evolves_def put_room_def bm_get_insert split: prod.split)
qed (simp add: in_room_def)

lemma advance_invocation_evolves: "client_evolves cl (snd (advance_invocation env room iid s code cl))"
  unfolding advance_invocation_def Let_def
  by (rule in_room_evolves, rule room_evolves_same_tasks)
    (auto split: sum.split prod.split dest: publish_invocation_frame)

lemma cancel_invocation_evolves: "client_evolves cl (snd (cancel_invocation cr env sk kid room iid reason cl))"
  unfolding cancel_invocation_def Let_def send_exec_cancel_eq
  by (rule in_room_evolves, rule room_evolves_same_tasks)
    (auto split: sum.split prod.split dest: publish_invocation_frame)

lemma update_task_evolves: "client_evolves cl (snd (update_task env opt cl))"
  using in_room_evolves [of "update_task_in_room env opt" cl "ut_room opt"] update_in_room_evolves
  by (auto simp: update_task_def split: sum.split prod.split)

lemma create_evolves: "client_evolves cl (snd (create_task_returning_event_id env opt cl))"
  unfolding create_task_returning_event_id_def
  by (rule in_room_evolves) (rule create_in_room_evolves)

lemma create_for_session_evolves: "client_evolves cl (snd (create_task_for_session cr env key opt cl))"
  by (auto simp: create_task_for_session_def Let_def create_evolves split: sum.split)

lemma update_with_signing_evolves: "client_evolves cl (snd (update_task_with_signing cr env key opt cl))"
  unfolding update_task_with_signing_def
  by (rule in_room_evolves)
    (auto split: sum.split intro!: apply_and_publish_evolves simp: read_task_or_fail_ok)

lemma update_for_session_evolves: "client_evolves cl (snd (update_task_for_session cr env key opt cl))"
  by (auto simp: update_task_for_session_def update_with_signing_evolves
      intro!: in_room_evolves update_in_room_evolves split: sum.split)

lemma cancel_task_evolves: "client_evolves cl (snd (cancel_task cr env sk kid room tid reason cl))"
proof -
  have u: "client_evolves cl (snd (update_task env opt cl1))" if "client_evolves cl cl1" for opt cl1
    using client_evolves_trans [OF that update_task_evolves] .
  have i: "client_evolves cl cl1" if "cancel_invocation cr env sk kid room iid reason cl = (r, cl1)" for iid r cl1
    using cancel_invocation_evolves [of cl cr env sk kid room iid reason] that by simp
  show ?thesis
    unfolding cancel_task_def Let_def
    by (auto split: sum.split prod.split option.split WorkspaceError.split intro: u i)
qed

datatype 'sk task_op =
    OpCreate Env "(WorkspaceError, 'sk \<times> string) result" CreateTaskOptions
  | OpUpdate Env "(WorkspaceError, 'sk \<times> string) result" UpdateTaskOptions
  | OpWrite Env UpdateTaskOptions
  | OpCancel Env 'sk string string string string
  | OpAdvance Env string string string "int option"
  | OpCancelInvocation Env 'sk string string string string

fun run_task_op :: "('sk, 'vk) crypto \<Rightarrow> 'sk task_op \<Rightarrow> Client \<Rightarrow> Client" where
  "run_task_op cr (OpCreate env key options) cl = snd (create_task_for_session cr env key options cl)"
| "run_task_op cr (OpUpdate env key options) cl = snd (update_task_for_session cr env key options cl)"
| "run_task_op cr (OpWrite env options) cl = snd (update_task env options cl)"
| "run_task_op cr (OpCancel env sk key_id room task_id reason) cl =
     snd (cancel_task cr env sk key_id room task_id reason cl)"
| "run_task_op cr (OpAdvance env room invocation_id state exit_code) cl =
     snd (advance_invocation env room invocation_id state exit_code cl)"
| "run_task_op cr (OpCancelInvocation env sk key_id room invocation_id reason) cl =
     snd (cancel_invocation cr env sk key_id room invocation_id reason cl)"

definition task_in :: "Client \<Rightarrow> string \<Rightarrow> string \<Rightarrow> TaskState option" where
  "task_in cl room_id task_id = (case bm_get (cl_rooms cl) room_id of
       None \<Rightarrow> None
     | Some rm \<Rightarrow> (case read_task_state rm task_id of Inr (Some (st, _)) \<Rightarrow> Some st | _ \<Rightarrow> None))"

lemma run_task_op_evolves: "client_evolves cl (run_task_op cr op cl)"
  by (cases op)
    (simp_all add: create_for_session_evolves update_for_session_evolves update_task_evolves
      cancel_task_evolves advance_invocation_evolves cancel_invocation_evolves)

lemma history_evolves: "client_evolves cl (fold (run_task_op cr) ops cl)"
  by (induction ops arbitrary: cl) (auto intro: client_evolves_trans run_task_op_evolves)

lemma task_in_iff:
  "task_in cl r k = Some st \<longleftrightarrow>
   (\<exists>rm ev. bm_get (cl_rooms cl) r = Some rm \<and> read_task_state rm k = Inr (Some (st, ev)))"
  by (auto simp: task_in_def split: option.splits sum.splits)

lemma client_evolves_task:
  assumes "client_evolves cl cl'" "task_in cl r k = Some st"
  shows "\<exists>st'. task_in cl' r k = Some st' \<and> same_task st st'"
  using assms unfolding task_in_iff client_evolves_def room_evolves_def by metis


definition demo_room_task :: TaskState where
  "demo_room_task = \<lparr> tk_task_id = ''t1'', tk_title = ''build'', tk_description = [], tk_state = ''succeeded'',
     tk_assigned_to = ''@b'', tk_created_by = ''@a'', tk_depends_on = [], tk_blocks = [], tk_invocation_id = None,
     tk_created_at = ''c'', tk_updated_at = ''c'', tk_state_rev = 3, tk_previous_event_id = None, tk_result = None,
     tk_action = None, tk_extra = [] \<rparr>"

definition demo_client :: Client where
  "demo_client = \<lparr> cl_user_id = Some ''@a'', cl_resolve = Inr,
     cl_rooms = [(''!r'', \<lparr> rm_tasks = [(''t1'', (Parsed demo_room_task, Some ''$1''))], rm_invocations = [],
       rm_agents = [], rm_timeline = [] \<rparr>)] \<rparr>"

definition demo_env :: Env where
  "demo_env = \<lparr> en_now = 0, en_ttl_var = None, en_task_id = ''t2'', en_nonce = ''n'',
     en_state = (\<lambda>_ _. Inr ''$2''), en_send = (\<lambda>_. Inr ''$3'') \<rparr>"


subsection \<open>Revisions\<close>

text \<open>Updates of one room in order, with their results.\<close>

fun run_updates :: "(Env \<times> UpdateTaskOptions) list \<Rightarrow> Room \<Rightarrow> (WorkspaceError, TaskState \<times> string) result list" where
  "run_updates [] rm = []"
| "run_updates ((env, options) # us) rm = (case update_task_in_room env options rm of
     (r, rm') \<Rightarrow> r # run_updates us rm')"

definition rev_of :: "Room \<Rightarrow> string \<Rightarrow> u64 option" where
  "rev_of rm k = (case read_task_state rm k of Inr (Some (st, _)) \<Rightarrow> Some (tk_state_rev st) | _ \<Rightarrow> None)"

lemma length_run_updates [simp]: "length (run_updates us rm) = length us"
  by (induction us rm rule: run_updates.induct) (auto split: prod.split)

lemma update_rev:
  assumes "update_task_in_room env opt rm = (r, rm')"
  shows "(if ut_task_id opt = k \<and> (\<exists>x. r = Inr x) then
      (\<exists>v. rev_of rm k = Some v \<and> rev_of rm' k = Some (v + 1) \<and>
        (ut_expected_state_rev opt = None \<or> ut_expected_state_rev opt = Some v))
     else rev_of rm' k = rev_of rm k)"
  by (rule update_in_room_cases [of env opt rm])
    (use assms in \<open>auto simp: rev_of_def read_task_insert update_guard_ok\<close>)

text \<open>A later success that expects revision \<open>v\<close> when the room is \<open>d\<close> writes past it needs the
  counter to wrap.\<close>

lemma late_success_wraps:
  assumes "rev_of rm k = Some (v + of_nat d)" "j < length us" "ut_task_id (snd (us ! j)) = k"
    "ut_expected_state_rev (snd (us ! j)) = Some v" "\<exists>x. run_updates us rm ! j = Inr x"
  shows "\<exists>m \<le> j. of_nat (d + m) = (0 :: u64)"
  using assms
proof (induction us rm arbitrary: d j rule: run_updates.induct)
  case (2 env opt us rm)
  obtain r rm' where u: "update_task_in_room env opt rm = (r, rm')"
    by fastforce
  note rev = update_rev [OF u, of k]
  show ?case
  proof (cases j)
    case 0
    then have "\<exists>w. rev_of rm k = Some w \<and> v = w"
      using "2.prems" u rev by auto
    then have "v = v + of_nat d"
      using "2.prems"(1) by simp
    then have "of_nat (d + 0) = (0 :: u64)"
      by simp
    then show ?thesis
      by blast
  next
    case (Suc i)
    have p: "i < length us" "ut_task_id (snd (us ! i)) = k" "ut_expected_state_rev (snd (us ! i)) = Some v"
      "\<exists>x. run_updates us rm' ! i = Inr x"
      using "2.prems" Suc u by auto
    show ?thesis
    proof (cases "ut_task_id opt = k \<and> (\<exists>x. r = Inr x)")
      case True
      then have "rev_of rm' k = Some (v + of_nat (Suc d))"
        using rev "2.prems"(1) by (auto simp: algebra_simps)
      then obtain m where "m \<le> i" "of_nat (Suc d + m) = (0 :: u64)"
        using "2.IH" [OF u [symmetric] _ p] by blast
      then show ?thesis
        using Suc by (intro exI [of _ "Suc m"]) simp
    next
      case False
      then have "rev_of rm' k = Some (v + of_nat d)"
        using rev "2.prems"(1) by simp
      then obtain m where "m \<le> i" "of_nat (d + m) = (0 :: u64)"
        using "2.IH" [OF u [symmetric] _ p] by blast
      then show ?thesis
        using Suc by (intro exI [of _ m]) simp
    qed
  qed
qed simp

lemma of_nat_64_zero: "of_nat n = (0 :: u64) \<Longrightarrow> 0 < n \<Longrightarrow> 2 ^ 64 \<le> n"
  by (auto simp: word_of_nat_eq_0_iff dest: dvd_imp_le)


definition demo_pending_room :: Room where
  "demo_pending_room = \<lparr> rm_tasks = [(''t1'', (Parsed (demo_room_task \<lparr> tk_state := ''pending'' \<rparr>), Some ''$1''))],
     rm_invocations = [], rm_agents = [], rm_timeline = [] \<rparr>"

definition demo_claim :: "string \<Rightarrow> UpdateTaskOptions" where
  "demo_claim agent = default_update \<lparr> ut_task_id := ''t1'', ut_state := Some ''executing'',
     ut_assigned_to := Some agent, ut_expected_state_rev := Some 3 \<rparr>"


subsection \<open>Cancellation\<close>

definition linked_invocation :: "Room \<Rightarrow> TaskState \<Rightarrow> InvocationState option" where
  "linked_invocation rm task = (case tk_invocation_id task of
       None \<Rightarrow> None
     | Some iid \<Rightarrow> (case read_invocation_state rm iid of Inr v \<Rightarrow> v | Inl _ \<Rightarrow> None))"

definition cancelled_outcome :: "Room \<Rightarrow> TaskState \<Rightarrow> string" where
  "cancelled_outcome rm task = (case linked_invocation rm task of
       Some i \<Rightarrow> if inv_is_terminal (iv_state i) then iv_state i else STATE_CANCELLED
     | None \<Rightarrow> STATE_CANCELLED)"

lemma in_room_Inr:
  "sync_and_get_room cl room = Inr (rid, rm) \<Longrightarrow> f rm = (r, rm') \<Longrightarrow>
   in_room cl room f = (r, put_room rid rm' cl)"
  by (simp add: in_room_def)

lemma sync_put_room:
  "sync_and_get_room cl room = Inr (rid, rm) \<Longrightarrow> sync_and_get_room (put_room rid rm' cl) room = Inr (rid, rm')"
  by (auto simp: sync_and_get_room_def put_room_def bm_get_insert)

lemma bm_insert_insert [simp]: "bm_insert k v (bm_insert k w m) = bm_insert k v m"
  by (induction k w m rule: bm_insert.induct) auto

lemma bm_insert_same: "bm_wf m \<Longrightarrow> bm_get m k = Some v \<Longrightarrow> bm_insert k v m = m"
proof (induction k v m rule: bm_insert.induct)
  case (2 k v j w m)
  then show ?case
    by (auto simp: bm_get_def bm_wf_def dest!: map_of_SomeD split: if_splits)
qed (simp add: bm_get_def)

lemma put_room_put_room [simp]: "put_room rid rm' (put_room rid rm cl) = put_room rid rm' cl"
  by (simp add: put_room_def)

lemma cancel_invocation_ok:
  assumes "sync_and_get_room cl room = Inr (rid, rm)" "read_invocation_state rm iid = Inr v"
    and "\<And>ty k. \<exists>ev. en_state env ty k = Inr ev" "\<exists>ev. en_send env EXEC_CANCEL = Inr ev"
  shows "\<exists>rm'. cancel_invocation cr env sk kid room iid reason cl =
      ((case v of None \<Rightarrow> Inl (InvocationNotFound iid)
        | Some i \<Rightarrow> Inr (if inv_is_terminal (iv_state i) then i
            else apply_transition INV_CANCELLED None (now_rfc3339 env) i)), put_room rid rm' cl) \<and>
    rm_tasks rm' = rm_tasks rm \<and>
    map fst (rm_timeline rm') = map fst (rm_timeline rm) @
      (case v of Some i \<Rightarrow> if inv_is_terminal (iv_state i) then [] else [EXEC_CANCEL] | None \<Rightarrow> [])"
proof -
  obtain e1 where e1: "en_send env EXEC_CANCEL = Inr e1"
    using assms(4) by blast
  show ?thesis
  proof (cases v)
    case None
    then show ?thesis
      using assms(1,2) by (intro exI [of _ rm]) (simp add: cancel_invocation_def in_room_def read_invocation_or_fail_def)
  next
    case (Some i)
    let ?i = "apply_transition INV_CANCELLED None (now_rfc3339 env) i"
    obtain e2 where e2: "en_state env INVOCATION_STATE_TYPE (iv_invocation_id ?i) = Inr e2"
      using assms(3) by blast
    show ?thesis
    proof (cases "inv_is_terminal (iv_state i)")
      case True
      then show ?thesis
        using assms(1,2) Some
        by (intro exI [of _ rm]) (simp add: cancel_invocation_def in_room_def read_invocation_or_fail_def)
    next
      case False
      then show ?thesis
        using assms(1,2) Some e1 e2
        by (simp add: cancel_invocation_def in_room_def read_invocation_or_fail_def send_exec_cancel_eq Let_def
            publish_invocation_state_def) (intro exI conjI, rule refl, simp_all)
    qed
  qed
qed

lemma update_task_to:
  assumes "sync_and_get_room cl room = Inr (rid, rm)" "read_task_state rm tid = Inr (Some (task, tev))"
    and "\<exists>ev. en_state env TASK_STATE_TYPE tid = Inr ev" "is_known_state s"
  shows "(if can_transition (tk_state task) s then
      (\<exists>st ev. update_task env (default_update \<lparr> ut_room := room, ut_task_id := tid, ut_state := Some s, ut_result := Some res \<rparr>) cl =
        (Inr st, put_room rid (rm \<lparr> rm_tasks := bm_insert tid (Parsed st, Some ev) (rm_tasks rm) \<rparr>) cl) \<and> tk_state st = s \<and>
        tk_result st = Some res)
     else update_task env (default_update \<lparr> ut_room := room, ut_task_id := tid, ut_state := Some s, ut_result := Some res \<rparr>) cl =
       (Inl (InvalidTaskTransition (tk_task_id task) (tk_state task) s), put_room rid rm cl))"
proof -
  obtain ev where ev: "en_state env TASK_STATE_TYPE tid = Inr ev"
    using assms(3) by blast
  have r: "read_task_or_fail rm tid = Inr (task, tev)"
    using assms(2) by (simp add: read_task_or_fail_ok)
  show ?thesis
    using assms(1,4) r ev
    by (simp add: update_task_def in_room_def default_update_def update_task_in_room_def apply_and_publish_eq
        update_guard_def check_not_stale_def check_transition_err Let_def apply_update_def) blast
qed

lemma cancelled_names: "INV_CANCELLED = STATE_CANCELLED" "inv_is_terminal INV_CANCELLED"
  by (simp_all add: inv_states task_states inv_is_terminal_def)

lemma cancel_finalization_state:
  "fst (cancel_finalization (map_option (\<lambda>i. if inv_is_terminal (iv_state i) then i
      else apply_transition INV_CANCELLED None now i) (linked_invocation rm task)) task by' now') =
    cancelled_outcome rm task"
  by (auto simp: cancel_finalization_def cancelled_outcome_def task_state_for_invocation_terminal
      apply_transition_def cancelled_names split: option.split)

lemma cancelled_outcome_terminal: "is_terminal (cancelled_outcome rm task)"
proof -
  have "is_terminal STATE_CANCELLED"
    by (simp add: is_terminal_def)
  then show ?thesis
    by (simp add: cancelled_outcome_def inv_terminal_is_terminal split: option.split)
qed

text \<open>Cancelling a task. When the homeserver accepts what is sent and the linked invocation
  record is readable: a finished task is returned unchanged; otherwise a live linked invocation is
  sent one cancel request, an already finished one is not, and the task is finalized in the state
  its invocation really ended in (cancelled when there is none), if the transition table allows that
  state from the current one. A task that is not executing whose invocation has already succeeded or
  failed cannot be cancelled: the operation fails with the transition error.\<close>

theorem cancel_task_outcome:
  assumes "sync_and_get_room cl room = Inr (rid, rm)" "read_task_state rm tid = Inr (Some (task, tev))"
    and "\<And>ty k. \<exists>ev. en_state env ty k = Inr ev" "\<exists>ev. en_send env EXEC_CANCEL = Inr ev"
    and "\<And>iid. tk_invocation_id task = Some iid \<Longrightarrow> \<exists>v. read_invocation_state rm iid = Inr v"
  shows "(case cancel_task cr env sk kid room tid reason cl of (r, cl') \<Rightarrow>
      if is_terminal (tk_state task) then r = Inr task \<and> cl' = cl
      else
        (\<exists>rm'. bm_get (cl_rooms cl') rid = Some rm' \<and>
          map fst (rm_timeline rm') = map fst (rm_timeline rm) @
            (case linked_invocation rm task of
               Some i \<Rightarrow> if inv_is_terminal (iv_state i) then [] else [EXEC_CANCEL] | None \<Rightarrow> [])) \<and>
        (if can_transition (tk_state task) (cancelled_outcome rm task) then
           (\<exists>st. r = Inr st \<and> tk_state st = cancelled_outcome rm task \<and> task_in cl' rid tid = Some st)
         else r = Inl (InvalidTaskTransition (tk_task_id task) (tk_state task) (cancelled_outcome rm task))))"
proof (cases "is_terminal (tk_state task)")
  case True
  then show ?thesis
    using assms(1,2) by (simp add: cancel_task_def read_task_or_fail_def)
next
  case False
  let ?li = "linked_invocation rm task" and ?now = "now_rfc3339 env"
  let ?i = "map_option (\<lambda>i. if inv_is_terminal (iv_state i) then i else apply_transition INV_CANCELLED None ?now i) ?li"
  let ?tl = "map fst (rm_timeline rm) @ (case ?li of Some i \<Rightarrow> if inv_is_terminal (iv_state i) then [] else [EXEC_CANCEL] | None \<Rightarrow> [])"
  obtain s res where fin: "cancel_finalization ?i task (user_id_or_empty cl) ?now = (s, res)"
    by fastforce
  have s: "s = cancelled_outcome rm task"
    using fin cancel_finalization_state [of ?now rm task "user_id_or_empty cl" ?now] by simp
  obtain rm1 cl1 where step: "cancel_task cr env sk kid room tid reason cl =
      update_task env (default_update \<lparr> ut_room := room, ut_task_id := tid, ut_state := Some s, ut_result := Some res \<rparr>) cl1"
    and cl1: "sync_and_get_room cl1 room = Inr (rid, rm1)" "rm_tasks rm1 = rm_tasks rm"
      "map fst (rm_timeline rm1) = ?tl"
  proof (cases "tk_invocation_id task")
    case None
    then show thesis
      using assms(1,2) False fin
      by (intro that [of cl rm]) (simp_all add: cancel_task_def read_task_or_fail_def linked_invocation_def)
  next
    case (Some iid)
    obtain v where v: "read_invocation_state rm iid = Inr v"
      using assms(5) [OF Some] by blast
    have li: "?li = v"
      using Some v by (simp add: linked_invocation_def)
    obtain rm1 where c: "cancel_invocation cr env sk kid room iid reason cl =
      ((case v of None \<Rightarrow> Inl (InvocationNotFound iid)
        | Some i \<Rightarrow> Inr (if inv_is_terminal (iv_state i) then i
            else apply_transition INV_CANCELLED None ?now i)), put_room rid rm1 cl)"
      and rm1: "rm_tasks rm1 = rm_tasks rm" "map fst (rm_timeline rm1) = ?tl"
      unfolding li using cancel_invocation_ok [OF assms(1) v assms(3,4), of cr sk kid reason] by (elim exE conjE)
    show thesis
      using assms(1,2) False fin Some v c rm1 li
      by (intro that [of "put_room rid rm1 cl" rm1])
        (cases v; simp add: cancel_task_def read_task_or_fail_def sync_put_room Let_def)+
  qed
  have rd: "read_task_state rm1 tid = Inr (Some (task, tev))"
    using assms(2) cl1(2) by (simp add: read_task_state_def)
  have ok: "\<exists>ev. en_state env TASK_STATE_TYPE tid = Inr ev"
    using assms(3) .
  show ?thesis
    using update_task_to [OF cl1(1) rd ok terminal_known [OF cancelled_outcome_terminal [of rm task]], of res] False cl1(3)
    by (auto simp: step s task_in_def put_room_def bm_get_insert read_task_insert split: if_splits)
qed

definition demo_running :: Room where
  "demo_running = \<lparr> rm_tasks = [(''t1'', (Parsed (demo_room_task \<lparr> tk_state := ''executing'', tk_invocation_id := Some ''i1'' \<rparr>), Some ''$1''))],
     rm_invocations = [(''i1'', Parsed (invocation_for_task ''t1'' ''i1'' ''@a'' ''@b'' ''c''))], rm_agents = [], rm_timeline = [] \<rparr>"

theorem cancel_task_outcome_witness:
  "\<exists>st cl'. cancel_task demo_crypto demo_env ''sk'' ''kid'' ''!r'' ''t1'' ''stop''
     (demo_client \<lparr> cl_rooms := [(''!r'', demo_running)] \<rparr>) = (Inr st, cl') \<and>
   tk_state st = STATE_CANCELLED"
proof -
  let ?task = "demo_room_task \<lparr> tk_state := ''executing'', tk_invocation_id := Some ''i1'' \<rparr>"
  let ?cl = "demo_client \<lparr> cl_rooms := [(''!r'', demo_running)] \<rparr>"
  have r: "sync_and_get_room ?cl ''!r'' = Inr (''!r'', demo_running)"
    by (simp add: sync_and_get_room_def demo_client_def bm_get_def)
  have t: "read_task_state demo_running ''t1'' = Inr (Some (?task, Some ''$1''))"
    by (simp add: read_task_state_def demo_running_def bm_get_def)
  have i: "read_invocation_state demo_running ''i1'' = Inr (Some (invocation_for_task ''t1'' ''i1'' ''@a'' ''@b'' ''c''))"
    by (simp add: read_invocation_state_def demo_running_def bm_get_def)
  have o: "cancelled_outcome demo_running ?task = STATE_CANCELLED"
    by (simp add: cancelled_outcome_def linked_invocation_def i) (simp add: invocation_for_task_def inv_is_terminal_def inv_states)
  have s: "\<not> is_terminal (tk_state ?task)" "can_transition (tk_state ?task) STATE_CANCELLED"
    by (simp_all add: is_terminal_def can_transition_def task_states)
  have a: "\<exists>ev. en_state demo_env ty k = Inr ev" "\<exists>ev. en_send demo_env ty = Inr ev" for ty k
    by (simp_all add: demo_env_def)
  have l: "\<exists>v. read_invocation_state demo_running iid = Inr v" if "tk_invocation_id ?task = Some iid" for iid
    using that i by auto
  show ?thesis
    using cancel_task_outcome [OF r t a l, of demo_crypto "''sk''" "''kid''" "''stop''"] s o
    by (auto split: prod.splits)
qed

subsection \<open>Signed task actions\<close>

lemma sat_add_0 [simp]: "sat_add (a :: 'a::len word) 0 = a"
proof -
  have "unat a < 2 ^ LENGTH('a)"
    by (rule unsigned_less)
  then show ?thesis
    by (simp add: sat_add_def)
qed

lemma with_without_authorization [simp]: "with_authorization (without_authorization a) auth = with_authorization a auth"
  by (cases a) simp_all

lemma authorization_without [simp]: "authorization (without_authorization a) = None"
  by (simp add: authorization_def)

lemma action_wf_without [simp]: "action_wf (without_authorization a) = action_wf a"
  by (cases a) simp_all

lemma action_floatless_without [simp]: "action_floatless (without_authorization a) = action_floatless a"
  by (simp add: action_floatless_def)

definition signed_for ::
  "('sk, 'vk) crypto \<Rightarrow> 'vk \<Rightarrow> Env \<Rightarrow> string \<Rightarrow> string \<Rightarrow> TaskAction \<Rightarrow> TaskAction \<Rightarrow> bool" where
  "signed_for cr vk env task_id target action action' \<longleftrightarrow>
     (\<exists>auth. action' = with_authorization action auth \<and> au_target_agent auth = target \<and>
        au_created_at auth = unix_to_rfc3339 (en_now env) \<and>
        au_expires_at auth = unix_to_rfc3339 (sat_add (en_now env) (task_auth_ttl env)) \<and>
        au_nonce auth = en_nonce env \<and>
        verify_task_action_signature cr vk task_id action' auth = Inr ())"

lemma authored_authorization_ok:
  assumes "signature_laws cr public" "action_wf action" "action_floatless action"
    and "authorization action = None"
  shows "if target = [] then authored_authorization cr env (sk, kid) tid action requester target = Inr None
    else \<exists>action'. authored_authorization cr env (sk, kid) tid action requester target = Inr (Some action') \<and>
      signed_for cr (public sk) env tid target action action'"
proof (cases "target = []")
  case True
  then show ?thesis
    using assms(4) by (simp add: authored_authorization_def)
next
  case False
  let ?a = "without_authorization action"
  have wf: "action_wf ?a" "action_floatless ?a"
    using assms(2,3) by simp_all
  obtain auth where auth:
    "sign_task_action cr sk kid tid ?a requester target (rfc3339_after env 0)
       (rfc3339_after env (task_auth_ttl env)) (en_nonce env) = Inr auth"
    "verify_task_action_signature cr (public sk) tid (with_authorization ?a auth) auth = Inr ()"
    "au_target_agent auth = target" "au_created_at auth = rfc3339_after env 0"
    "au_expires_at auth = rfc3339_after env (task_auth_ttl env)" "au_nonce auth = en_nonce env"
    by (rule sign_task_action_ok [OF assms(1) wf, of sk kid tid requester target "rfc3339_after env 0"
          "rfc3339_after env (task_auth_ttl env)" "en_nonce env"])
  have z: "sat_add (en_now env) 0 = en_now env"
    by (rule sat_add_0)
  show ?thesis
    using False assms(4) auth z
    by (auto simp: authored_authorization_def signed_for_def rfc3339_after_def Let_def)
qed

lemma create_success:
  assumes "create_task_returning_event_id env opt cl = (Inr (st, ev), cl')"
  shows "tk_action st = ct_action opt \<and> tk_task_id st = chosen_task_id env opt \<and> tk_assigned_to st = ct_assigned_to opt"
proof -
  obtain rid rm rm' where "create_in_room env opt (resolve_created_by opt cl) rm = (Inr (st, ev), rm')"
    using assms by (auto simp: create_task_returning_event_id_def in_room_def split: sum.splits prod.splits)
  then show ?thesis
    by (cases rule: create_in_room_cases [of env opt "resolve_created_by opt cl" rm])
      (auto simp: build_new_task_def)
qed

text \<open>Created actions are executable by their assignee. When a local caller creates a task
  with an unsigned action, the published action is the one given; if the task is assigned it carries
  an authorization that names the assignee as target, is valid from now for the configured time to
  live, and verifies under the daemon's key for the identifier under which the task is published.
  Unassigned tasks are published unsigned.\<close>

theorem created_action_signed:
  assumes "signature_laws cr public"
    and "ct_action opt = Some action" "authorization action = None" "action_wf action" "action_floatless action"
    and "create_task_for_session cr env (Inr (sk, kid)) opt cl = (Inr (st, ev), cl')"
  shows "tk_assigned_to st = ct_assigned_to opt \<and>
    (if ct_assigned_to opt = [] then tk_action st = Some action
     else \<exists>action'. tk_action st = Some action' \<and>
       signed_for cr (public sk) env (tk_task_id st) (tk_assigned_to st) action action')"
proof -
  let ?k = "chosen_task_id env opt" and ?t = "ct_assigned_to opt"
  let ?opt = "opt \<lparr> ct_task_id := Some ?k \<rparr>"
  let ?a = "authored_authorization cr env (sk, kid) ?k action (resolve_created_by ?opt cl) ?t"
  have ne: "chosen_task_id env (?opt \<lparr> ct_action := x \<rparr>) = ?k" for x
    by (auto simp: chosen_task_id_def non_empty_def split: option.splits)
  have c: "create_task_for_session cr env (Inr (sk, kid)) opt cl = (case ?a of Inl e \<Rightarrow> (Inl e, cl)
    | Inr signed_action \<Rightarrow> create_task_returning_event_id env (?opt \<lparr> ct_action := or_opt signed_action (Some action) \<rparr>) cl)"
    using assms(2) by (simp add: create_task_for_session_def Let_def split: sum.split)
  show ?thesis
  proof (cases "?t = []")
    case True
    then have "?a = Inr None"
      using authored_authorization_ok [OF assms(1,4,5,3), of ?t env sk kid ?k "resolve_created_by ?opt cl"] by simp
    then show ?thesis
      using c assms(6) create_success [of env "?opt \<lparr> ct_action := Some action \<rparr>" cl st ev cl'] True by simp
  next
    case False
    then obtain action' where a: "?a = Inr (Some action')" "signed_for cr (public sk) env ?k ?t action action'"
      using authored_authorization_ok [OF assms(1,4,5,3), of ?t env sk kid ?k "resolve_created_by ?opt cl"] by auto
    then show ?thesis
      using c assms(6) create_success [of env "?opt \<lparr> ct_action := Some action' \<rparr>" cl st ev cl'] False ne by simp
  qed
qed

definition demo_create :: CreateTaskOptions where
  "demo_create = \<lparr> ct_room = ''!r'', ct_task_id = None, ct_title = ''test'', ct_description = [], ct_state = None,
     ct_assigned_to = ''@b'', ct_created_by = None, ct_depends_on = [], ct_blocks = [], ct_action = Some demo_action \<rparr>"

lemma demo_action_ok: "action_wf demo_action" "action_floatless demo_action" "authorization demo_action = None"
  by (simp_all add: demo_action_def bm_wf_def action_floatless_def action_json_no_float authorization_def)

theorem created_action_signed_witness:
  "\<exists>st ev cl' action'. create_task_for_session demo_crypto demo_env (Inr (''sk'', ''kid'')) demo_create demo_client =
     (Inr (st, ev), cl') \<and> tk_action st = Some action' \<and>
     signed_for demo_crypto ''sk'' demo_env (tk_task_id st) ''@b'' demo_action action'"
proof -
  let ?opt = "demo_create \<lparr> ct_task_id := Some ''t2'' \<rparr>"
  have a: "ct_action demo_create = Some demo_action" "ct_assigned_to demo_create = ''@b''"
    by (simp_all add: demo_create_def)
  have k: "chosen_task_id demo_env demo_create = ''t2''"
    by (simp add: chosen_task_id_def demo_env_def demo_create_def non_empty_def)
  obtain action' where sg: "authored_authorization demo_crypto demo_env (''sk'', ''kid'') ''t2'' demo_action
      (resolve_created_by ?opt demo_client) ''@b'' = Inr (Some action')"
    using authored_authorization_ok [OF demo_crypto_laws(1) demo_action_ok(1,2,3), of "''@b''" demo_env "''sk''" "''kid''"
        "''t2''" "resolve_created_by ?opt demo_client"] by auto
  have "is_known_state STATE_PENDING"
    by (simp add: is_known_state_def KNOWN_STATES_def)
  then have "\<exists>st ev cl'. create_task_returning_event_id demo_env (?opt \<lparr> ct_action := Some action' \<rparr>) demo_client = (Inr (st, ev), cl')"
    by (simp add: create_task_returning_event_id_def in_room_def sync_and_get_room_def demo_client_def bm_get_def
        demo_create_def create_in_room_def chosen_task_id_def non_empty_def read_task_state_def build_new_task_def
        check_known_state_def publish_task_state_def demo_env_def DEFAULT_TASK_STATE_def Let_def)
  then obtain st ev cl' where c: "create_task_for_session demo_crypto demo_env (Inr (''sk'', ''kid'')) demo_create demo_client =
     (Inr (st, ev), cl')"
    using sg k a by (auto simp: create_task_for_session_def Let_def)
  show ?thesis
    using created_action_signed [OF demo_crypto_laws(1) a(1) demo_action_ok(3,1,2) c] c a(2) by auto
qed

text \<open>Reassigning a task retargets its action. When a local caller changes only the assignee,
  the action of the task is signed again for the new assignee, whatever authorization it carried
  before, and the new authorization verifies under the daemon's key. Clearing the assignee leaves
  the action exactly as it was, with the authorization for the previous assignee.\<close>

theorem reassigned_action_signed:
  assumes "signature_laws cr public"
    and "sync_and_get_room cl (ut_room opt) = Inr (rid, rm)"
    and "read_task_state rm (ut_task_id opt) = Inr (Some (cur, cev))"
    and "ut_action opt = None" "ut_assigned_to opt = Some target"
    and "tk_action cur = Some action" "action_wf action" "action_floatless action"
    and "update_task_for_session cr env (Inr (sk, kid)) opt cl = (Inr (st, ev), cl')"
  shows "tk_assigned_to st = target \<and>
    (if target = [] then tk_action st = Some action
     else \<exists>action'. tk_action st = Some action' \<and>
       signed_for cr (public sk) env (tk_task_id st) target (without_authorization action) action')"
proof -
  let ?r = "if tk_created_by cur = [] then user_id_or_empty cl else tk_created_by cur"
  let ?a = "authored_authorization cr env (sk, kid) (tk_task_id cur) (without_authorization action) ?r target"
  have rd: "read_task_or_fail rm (ut_task_id opt) = Inr (cur, cev)"
    using assms(3) by (simp add: read_task_or_fail_ok)
  have "resign_action cr env (sk, kid) cl cur opt = ?a"
    using assms(4,5,6) by (simp add: resign_action_def)
  then obtain sa where sa: "?a = Inr sa"
    and st: "st = apply_update (opt \<lparr> ut_action := sa \<rparr>) (now_rfc3339 env) cev cur"
    using assms(2,4,5,9) rd
    by (auto simp: update_task_for_session_def update_task_with_signing_def in_room_def apply_and_publish_eq Let_def
        or_opt_def split: sum.splits option.splits)
  have fields: "tk_assigned_to st = target" "tk_action st = or_opt sa (Some action)" "tk_task_id st = tk_task_id cur"
    using st assms(5,6) by (simp_all add: apply_update_def)
  show ?thesis
    using authored_authorization_ok [OF assms(1), of "without_authorization action" target env sk kid "tk_task_id cur" ?r]
      assms(7,8) sa fields by (auto split: if_splits)
qed

definition demo_reassign :: UpdateTaskOptions where
  "demo_reassign = default_update \<lparr> ut_room := ''!r'', ut_task_id := ''t1'', ut_assigned_to := Some ''@c'' \<rparr>"

theorem reassigned_action_signed_witness:
  "\<exists>rm cl st ev cl' action'. update_task_for_session demo_crypto demo_env (Inr (''sk'', ''kid'')) demo_reassign
      (demo_client \<lparr> cl_rooms := [(''!r'', rm)] \<rparr>) = (Inr (st, ev), cl') \<and> tk_action st = Some action' \<and>
     signed_for demo_crypto ''sk'' demo_env ''t1'' ''@c'' (without_authorization demo_action) action'"
proof -
  define cur where "cur = demo_room_task \<lparr> tk_state := ''pending'', tk_action := Some demo_action \<rparr>"
  define rm where "rm = \<lparr> rm_tasks = [(''t1'', (Parsed cur, Some ''$1''))], rm_invocations = [], rm_agents = [], rm_timeline = [] \<rparr>"
  let ?cl = "demo_client \<lparr> cl_rooms := [(''!r'', rm)] \<rparr>"
  have o: "ut_action demo_reassign = None" "ut_assigned_to demo_reassign = Some ''@c''" "ut_room demo_reassign = ''!r''"
    "ut_task_id demo_reassign = ''t1''" "ut_expected_state_rev demo_reassign = None" "ut_state demo_reassign = None"
    by (simp_all add: demo_reassign_def default_update_def)
  have r: "sync_and_get_room ?cl (ut_room demo_reassign) = Inr (''!r'', rm)"
    by (simp add: sync_and_get_room_def demo_client_def bm_get_def o)
  have t: "read_task_state rm (ut_task_id demo_reassign) = Inr (Some (cur, Some ''$1''))"
    by (simp add: read_task_state_def rm_def bm_get_def o)
  have c: "tk_action cur = Some demo_action" "tk_created_by cur = ''@a''" "tk_task_id cur = ''t1''"
    by (simp_all add: cur_def demo_room_task_def)
  have "\<exists>x. authored_authorization demo_crypto demo_env (''sk'', ''kid'') ''t1'' (without_authorization demo_action) ''@a'' ''@c'' = Inr (Some x)"
    using authored_authorization_ok [OF demo_crypto_laws(1), of "without_authorization demo_action" "''@c''" demo_env
        "''sk''" "''kid''" "''t1''" "''@a''"] demo_action_ok by auto
  then obtain sa where sa: "resign_action demo_crypto demo_env (''sk'', ''kid'') ?cl cur demo_reassign = Inr sa"
    using o c by (auto simp: resign_action_def)
  have g: "update_guard cur (demo_reassign \<lparr> ut_action := x \<rparr>) = Inr ()" for x
    using o by (simp add: update_guard_ok)
  have e: "en_state demo_env ty k = Inr ''$2''" for ty k
    by (simp add: demo_env_def)
  have "\<exists>st ev cl'. update_task_for_session demo_crypto demo_env (Inr (''sk'', ''kid'')) demo_reassign ?cl =
      (Inr (st, ev), cl')"
    using o r t sa g e
    by (simp add: update_task_for_session_def update_task_with_signing_def in_room_def read_task_or_fail_def
        apply_and_publish_eq Let_def)
  then obtain st ev cl' where u: "update_task_for_session demo_crypto demo_env (Inr (''sk'', ''kid'')) demo_reassign ?cl =
      (Inr (st, ev), cl')"
    by blast
  have "tk_task_id st = ''t1''"
    using u o r t c by (auto simp: update_task_for_session_def update_task_with_signing_def in_room_def
        read_task_or_fail_def apply_and_publish_eq Let_def split: sum.splits)
  then show ?thesis
    using reassigned_action_signed [OF demo_crypto_laws(1) r t o(1,2) c(1) demo_action_ok(1,2) u] u by auto
qed

end
