(* ===== verification/Task_Graph.thy ===== *)
theory Task_Graph
  imports Task_Schema "HOL-Library.Product_Lexorder"
begin

text \<open>
  The task dependency graph, \<open>crates/mx-agent-daemon/src/task_graph.rs\<close>: nodes, edges and roots
  from a list of task records, the detection of dependency cycles by a depth-first search with an
  explicit stack, and the text tree. The stack is kept with its top element at the head of the list. The
  search is shown to end and to report a cycle exactly when the dependency relation has one.
\<close>

subsection \<open>Types\<close>

record GraphNode =
  gn_task_id :: string
  gn_state :: string
  gn_depends_on :: "string list"

record GraphEdge =
  ge_from :: string
  ge_to :: string

datatype Color = White | Gray | Black

subsection \<open>Cycle detection\<close>

definition present_ids :: "TaskState list \<Rightarrow> string list" where
  "present_ids tasks = map tk_task_id tasks"

definition build_deps :: "TaskState list \<Rightarrow> string list bmap" where
  "build_deps tasks = fold (\<lambda>task deps.
     bm_insert (tk_task_id task)
       (unwrap_or (bm_get deps (tk_task_id task)) [] @
        filter (\<lambda>dep. dep \<in> set (present_ids tasks)) (tk_depends_on task)) deps) tasks []"

definition adj :: "string list bmap \<Rightarrow> string \<Rightarrow> string list" where
  "adj deps node = unwrap_or (bm_get deps node) []"

text \<open>The slice of the stack from \<open>next\<close> to its top, with \<open>next\<close> repeated at the end.\<close>

definition cycle_from :: "string \<Rightarrow> (string \<times> nat) list \<Rightarrow> string list" where
  "cycle_from next stack = dropWhile (\<lambda>n. n \<noteq> next) (rev (map fst stack)) @ [next]"

definition dep_nodes :: "string list bmap \<Rightarrow> string set" where
  "dep_nodes deps = (\<Union>(k, ds)\<in>set deps. insert k (set ds))"

lemma finite_dep_nodes [simp]: "finite (dep_nodes deps)"
  by (auto simp: dep_nodes_def)

lemma adj_nodes: "i < length (adj deps node) \<Longrightarrow> adj deps node ! i \<in> dep_nodes deps"
  by (auto simp: adj_def dep_nodes_def bm_get_def dest!: map_of_SomeD split: option.splits
      simp: unwrap_or_def intro: nth_mem)

definition white_count :: "string list bmap \<Rightarrow> (string \<Rightarrow> Color) \<Rightarrow> nat" where
  "white_count deps color = card {n \<in> dep_nodes deps. color n = White}"

definition work_left :: "string list bmap \<Rightarrow> (string \<times> nat) list \<Rightarrow> nat" where
  "work_left deps stack = sum_list (map (\<lambda>(n, i). Suc (length (adj deps n) - i)) stack)"

lemma white_count_gray:
  assumes "next \<in> dep_nodes deps" "color next = White"
  shows "white_count deps (color(next := Gray)) < white_count deps color"
  unfolding white_count_def by (rule psubset_card_mono) (use assms in auto)

lemma white_count_black: "white_count deps (color(node := Black)) \<le> white_count deps color"
  unfolding white_count_def by (rule card_mono) auto

function dfs_loop ::
  "string list bmap \<Rightarrow> (string \<times> nat) list \<Rightarrow> (string \<Rightarrow> Color) \<Rightarrow> string list list
    \<Rightarrow> (string \<Rightarrow> Color) \<times> string list list" where
  "dfs_loop deps [] color cycles = (color, cycles)"
| "dfs_loop deps ((node, idx) # rest) color cycles =
     (if idx < length (adj deps node) then
        (let next = adj deps node ! idx; stack = (node, Suc idx) # rest
         in case color next of
              White \<Rightarrow> dfs_loop deps ((next, 0) # stack) (color(next := Gray)) cycles
            | Gray \<Rightarrow> dfs_loop deps stack color (cycles @ [cycle_from next stack])
            | Black \<Rightarrow> dfs_loop deps stack color cycles)
      else dfs_loop deps rest (color(node := Black)) cycles)"
  by pat_completeness auto
termination
  apply (relation "inv_image (less_than <*lex*> less_than)
    (\<lambda>(deps, stack, color, _). (white_count deps color, work_left deps stack))")
      apply (auto simp: adj_nodes white_count_gray work_left_def)
  using white_count_black le_neq_implies_less by blast

definition detect_cycles :: "TaskState list \<Rightarrow> string list list" where
  "detect_cycles tasks =
     (let deps = build_deps tasks
      in snd (fold (\<lambda>start (color, cycles).
           if color start \<noteq> White then (color, cycles)
           else dfs_loop deps [(start, 0)] (color(start := Gray)) cycles)
         (map fst deps) (\<lambda>_. White, [])))"

subsection \<open>The graph and its text\<close>

datatype Severity = Warning

record TaskDiagnostic =
  td_severity :: Severity
  td_kind :: string
  td_task_id :: "string option"
  td_message :: string

record TaskGraph =
  gr_nodes :: "GraphNode list"
  gr_edges :: "GraphEdge list"
  gr_roots :: "string list"
  gr_cycles :: "string list list"
  gr_warnings :: "TaskDiagnostic list"

definition present_deps :: "TaskState list \<Rightarrow> TaskState \<Rightarrow> string list" where
  "present_deps tasks task = filter (\<lambda>dep. dep \<in> set (present_ids tasks)) (tk_depends_on task)"

definition from_tasks :: "TaskState list \<Rightarrow> TaskGraph" where
  "from_tasks tasks = \<lparr>
     gr_nodes = sort_key gn_task_id (map (\<lambda>t. \<lparr> gn_task_id = tk_task_id t, gn_state = tk_state t,
       gn_depends_on = tk_depends_on t \<rparr>) tasks),
     gr_edges = map (\<lambda>(d, t). \<lparr> ge_from = d, ge_to = t \<rparr>) (remdups_adj (sort
       (concat (map (\<lambda>task. map (\<lambda>dep. (dep, tk_task_id task)) (present_deps tasks task)) tasks)))),
     gr_roots = remdups_adj (sort (map tk_task_id (filter (\<lambda>task. present_deps tasks task = []) tasks))),
     gr_cycles = detect_cycles tasks,
     gr_warnings = [] \<rparr>"

definition with_diagnostics :: "TaskDiagnostic list \<Rightarrow> TaskGraph \<Rightarrow> TaskGraph" where
  "with_diagnostics warnings g = g \<lparr> gr_warnings := warnings \<rparr>"

text \<open>The connector is the UTF-8 encoding of U+2514 U+2500 and a space.\<close>

definition connector :: string where
  "connector = map char_of [226 :: nat, 148, 148, 226, 148, 128, 32]"

definition node_line :: "(string \<rightharpoonup> string) \<Rightarrow> nat \<Rightarrow> string \<Rightarrow> string" where
  "node_line states depth ident =
     (if depth = 0 then [] else replicate (4 * depth - 2) CHR '' '' @ connector) @
     ident @ ''  '' @ unwrap_or (states ident) [] @ [CHR 0x0A]"

function render_node ::
  "(string \<rightharpoonup> string) \<Rightarrow> string list bmap \<Rightarrow> string list \<Rightarrow> nat \<Rightarrow> string \<Rightarrow> string" where
  "render_node states children path depth ident =
     node_line states depth ident @
     (if ident \<in> set path then []
      else case bm_get children ident of
        None \<Rightarrow> []
      | Some kids \<Rightarrow> concat (map (\<lambda>child. render_node states children (path @ [ident]) (Suc depth) child) kids))"
  by pat_completeness auto
termination
proof (relation "measure (\<lambda>(states, children, path, depth, ident). card (set (map fst children) - set path))")
  fix states :: "string \<rightharpoonup> string" and children :: "string list bmap" and path depth ident kids child
  assume a: "ident \<notin> set path" "bm_get children ident = Some kids"
  then have "ident \<in> set (map fst children)"
    by (auto dest: bm_get_in intro: rev_image_eqI)
  then have "set (map fst children) - set (path @ [ident]) \<subset> set (map fst children) - set path"
    using a by auto
  then show "((states, children, path @ [ident], Suc depth, child), states, children, path, depth, ident)
    \<in> measure (\<lambda>(states, children, path, depth, ident). card (set (map fst children) - set path))"
    by (auto intro: psubset_card_mono)
qed simp

definition children_of :: "GraphEdge list \<Rightarrow> string list bmap" where
  "children_of edges = fold (\<lambda>e m. bm_insert (ge_from e) (unwrap_or (bm_get m (ge_from e)) [] @ [ge_to e]) m) edges []"

definition render_text :: "TaskGraph \<Rightarrow> string" where
  "render_text g =
     (let states = map_of (rev (map (\<lambda>n. (gn_task_id n, gn_state n)) (gr_nodes g)));
          children = children_of (gr_edges g)
      in concat (map (render_node states children [] 0) (gr_roots g)) @
         concat (map (\<lambda>cycle. ''cycle detected: '' @ join_with '' -> '' cycle @ [CHR 0x0A]) (gr_cycles g)))"

subsection \<open>The search reports cycles exactly when there are any\<close>

definition dep_edges :: "string list bmap \<Rightarrow> (string \<times> string) set" where
  "dep_edges deps = {(a, b). b \<in> set (adj deps a)}"

text \<open>A closed walk, listed with its first node repeated at the end.\<close>

definition closed_walk :: "(string \<times> string) set \<Rightarrow> string list \<Rightarrow> bool" where
  "closed_walk E c \<longleftrightarrow> 2 \<le> length c \<and> hd c = last c \<and> successively (\<lambda>a b. (a, b) \<in> E) c"

fun frames_ok :: "string list bmap \<Rightarrow> (string \<Rightarrow> Color) \<Rightarrow> string option \<Rightarrow> (string \<times> nat) list \<Rightarrow> bool" where
  "frames_ok deps color upper [] = True"
| "frames_ok deps color upper ((n, i) # rest) =
     ((\<forall>k < i. k < length (adj deps n) \<longrightarrow> color (adj deps n ! k) = Black \<or> Some (adj deps n ! k) = upper) \<and>
      frames_ok deps color (Some n) rest)"

definition black_ok :: "string list bmap \<Rightarrow> (string \<Rightarrow> Color) \<Rightarrow> bool" where
  "black_ok deps color \<longleftrightarrow>
     (\<forall>a b. color a = Black \<longrightarrow> (a, b) \<in> dep_edges deps \<longrightarrow> color b = Black) \<and>
     acyclic {(a, b) \<in> dep_edges deps. color a = Black}"

definition search_inv ::
  "string list bmap \<Rightarrow> (string \<times> nat) list \<Rightarrow> (string \<Rightarrow> Color) \<Rightarrow> string list list \<Rightarrow> bool" where
  "search_inv deps stack color cycles \<longleftrightarrow>
     distinct (map fst stack) \<and> (\<forall>n. color n = Gray \<longleftrightarrow> n \<in> set (map fst stack)) \<and>
     successively (\<lambda>a b. (b, a) \<in> dep_edges deps) (map fst stack) \<and>
     (\<forall>c\<in>set cycles. closed_walk (dep_edges deps) c) \<and>
     (cycles = [] \<longrightarrow> frames_ok deps color None stack \<and> black_ok deps color)"

lemma frames_ok_mono:
  assumes "frames_ok deps color upper stack" "\<And>x. color x = Black \<Longrightarrow> color' x = Black"
  shows "frames_ok deps color' upper stack"
  using assms(1)
proof (induction stack arbitrary: upper)
  case (Cons f stack)
  then show ?case
    using assms(2) by (cases f) auto
qed simp

lemma frames_ok_pop:
  assumes "frames_ok deps color (Some n) stack"
  shows "frames_ok deps (color(n := Black)) None stack"
proof (cases stack)
  case (Cons f rest)
  obtain m i where f: "f = (m, i)" by (cases f)
  have "frames_ok deps (color(n := Black)) (Some m) rest"
    by (rule frames_ok_mono [of deps color]) (use assms Cons f in auto)
  moreover have "\<forall>k < i. k < length (adj deps m) \<longrightarrow>
      (color(n := Black)) (adj deps m ! k) = Black \<or> Some (adj deps m ! k) = None"
    using assms Cons f by auto
  ultimately show ?thesis
    unfolding Cons f frames_ok.simps by (rule conjI [rotated])
qed simp

lemma acyclic_add_source:
  assumes "acyclic R" "\<And>a. (a, n) \<notin> R" "\<And>b. (n, b) \<in> S \<Longrightarrow> b \<noteq> n"
    and S: "\<And>a b. (a, b) \<in> S \<Longrightarrow> a = n" and closed: "\<And>a b. (a, b) \<in> R \<Longrightarrow> a \<noteq> n"
  shows "acyclic (R \<union> S)"
proof (rule acyclicI, safe)
  fix x assume x: "(x, x) \<in> (R \<union> S)\<^sup>+"
  have no_in: "(a, n) \<notin> (R \<union> S)\<^sup>+" for a
  proof
    assume "(a, n) \<in> (R \<union> S)\<^sup>+"
    then obtain b where "(b, n) \<in> R \<union> S"
      by (meson tranclE)
    then show False
      using assms(2,3) S by blast
  qed
  have "(x, y) \<in> (R \<union> S)\<^sup>+ \<Longrightarrow> x \<noteq> n \<Longrightarrow> (x, y) \<in> R\<^sup>+" for y
  proof (induction rule: trancl_induct)
    case (base y)
    then show ?case using S by blast
  next
    case (step y z)
    then have "y \<noteq> n"
      using no_in by blast
    then have "(y, z) \<in> R"
      using step.hyps(2) S by blast
    then show ?case
      using step by (meson trancl.trancl_into_trancl)
  qed
  then show False
    using x no_in assms(1) by (metis acyclic_def)
qed

lemma cycle_from_closed:
  assumes "successively (\<lambda>a b. (b, a) \<in> E) (map fst ((node, i) # rest))" "next \<in> set (map fst ((node, i) # rest))"
    and "(node, next) \<in> E"
  shows "closed_walk E (cycle_from next ((node, i) # rest))"
proof -
  let ?xs = "rev (map fst rest) @ [node]"
  obtain ps qs where xs: "?xs = ps @ next # qs" "next \<notin> set ps"
    using assms(2) split_list_first [of "next" ?xs] by auto
  have "successively (\<lambda>a b. (a, b) \<in> E) ?xs"
    using assms(1) successively_rev [of "\<lambda>a b. (a, b) \<in> E" "map fst ((node, i) # rest)"] by simp
  then have w: "successively (\<lambda>a b. (a, b) \<in> E) (next # qs)"
    unfolding xs by (simp add: successively_append_iff)
  have l: "last (next # qs) = node"
    using xs(1) by (metis last_appendR last_snoc list.discI)
  have c: "cycle_from next ((node, i) # rest) = next # qs @ [next]"
    unfolding cycle_from_def using xs by (simp add: dropWhile_append)
  show ?thesis
    unfolding c closed_walk_def using w l assms(3)
    by (auto simp: successively_append_iff successively_Cons split: if_splits)
qed

lemma edge_adj: "idx < length (adj deps node) \<Longrightarrow> (node, adj deps node ! idx) \<in> dep_edges deps"
  by (simp add: dep_edges_def)

lemma black_ok_finish:
  assumes "black_ok deps color" "color node = Gray" "\<And>b. (node, b) \<in> dep_edges deps \<Longrightarrow> color b = Black"
  shows "black_ok deps (color(node := Black))"
proof -
  let ?R = "{(a, b) \<in> dep_edges deps. color a = Black}" and ?S = "{(a, b) \<in> dep_edges deps. a = node}"
  have e: "{(a, b) \<in> dep_edges deps. (color(node := Black)) a = Black} = ?R \<union> ?S"
    by auto
  have "acyclic (?R \<union> ?S)"
    by (rule acyclic_add_source [of _ node])
      (use assms in \<open>auto simp: black_ok_def\<close>)
  then show ?thesis
    using assms unfolding black_ok_def e by auto
qed

lemma search_inv_step:
  assumes "search_inv deps ((node, idx) # rest) color cycles"
  shows "idx < length (adj deps node) \<Longrightarrow> color (adj deps node ! idx) = White \<Longrightarrow>
      search_inv deps ((adj deps node ! idx, 0) # (node, Suc idx) # rest) (color(adj deps node ! idx := Gray)) cycles"
    and "idx < length (adj deps node) \<Longrightarrow> color (adj deps node ! idx) = Gray \<Longrightarrow>
      search_inv deps ((node, Suc idx) # rest) color
        (cycles @ [cycle_from (adj deps node ! idx) ((node, Suc idx) # rest)])"
    and "idx < length (adj deps node) \<Longrightarrow> color (adj deps node ! idx) = Black \<Longrightarrow>
      search_inv deps ((node, Suc idx) # rest) color cycles"
    and "\<not> idx < length (adj deps node) \<Longrightarrow> search_inv deps rest (color(node := Black)) cycles"
proof -
  note I = assms [unfolded search_inv_def]
  let ?x = "adj deps node ! idx"
  {
    assume l: "idx < length (adj deps node)" and w: "color ?x = White"
    have n: "?x \<notin> set (map fst ((node, idx) # rest))"
      using I w by (metis Color.distinct(1))
    have fr: "frames_ok deps (color(?x := Gray)) None ((?x, 0) # (node, Suc idx) # rest)" if "cycles = []"
    proof -
      have f: "frames_ok deps color None ((node, idx) # rest)"
        using I that by blast
      have "frames_ok deps (color(?x := Gray)) (Some node) rest"
        by (rule frames_ok_mono [of deps color]) (use f w in auto)
      then show ?thesis
        using f w by (auto simp: less_Suc_eq simp del: fun_upd_apply) (auto simp: fun_upd_apply)
    qed
    have bl: "black_ok deps (color(?x := Gray))" if "cycles = []"
    proof -
      have b: "black_ok deps color"
        using I that by blast
      have "{(a, b) \<in> dep_edges deps. (color(?x := Gray)) a = Black} = {(a, b) \<in> dep_edges deps. color a = Black}"
        using w by (auto split: if_splits)
      then show ?thesis
        using b w unfolding black_ok_def by auto
    qed
    show "search_inv deps ((?x, 0) # (node, Suc idx) # rest) (color(?x := Gray)) cycles"
      using I n fr bl edge_adj [OF l] unfolding search_inv_def by auto
  next
    assume l: "idx < length (adj deps node)" and g: "color ?x = Gray"
    have "closed_walk (dep_edges deps) (cycle_from ?x ((node, Suc idx) # rest))"
      by (rule cycle_from_closed) (use I g edge_adj [OF l] in auto)
    then show "search_inv deps ((node, Suc idx) # rest) color (cycles @ [cycle_from ?x ((node, Suc idx) # rest)])"
      using I unfolding search_inv_def by auto
  next
    assume l: "idx < length (adj deps node)" and b: "color ?x = Black"
    then show "search_inv deps ((node, Suc idx) # rest) color cycles"
      using I unfolding search_inv_def by (auto simp: less_Suc_eq)
  next
    assume l: "\<not> idx < length (adj deps node)"
    have bl: "black_ok deps (color(node := Black))" "frames_ok deps (color(node := Black)) None rest" if "cycles = []"
    proof -
      have f: "frames_ok deps color None ((node, idx) # rest)" and b: "black_ok deps color"
        using I that by blast+
      show "black_ok deps (color(node := Black))"
        by (rule black_ok_finish [OF b]) (use I f l in \<open>auto simp: dep_edges_def in_set_conv_nth\<close>)
      show "frames_ok deps (color(node := Black)) None rest"
        using f by (intro frames_ok_pop) simp
    qed
    then show "search_inv deps rest (color(node := Black)) cycles"
      using I unfolding search_inv_def by (auto simp: successively_Cons)
  }
qed

lemma dfs_loop_step:
  "dfs_loop deps ((node, idx) # rest) color cycles =
     (if idx < length (adj deps node) then
        (case color (adj deps node ! idx) of
           White \<Rightarrow> dfs_loop deps ((adj deps node ! idx, 0) # (node, Suc idx) # rest)
             (color(adj deps node ! idx := Gray)) cycles
         | Gray \<Rightarrow> dfs_loop deps ((node, Suc idx) # rest) color
             (cycles @ [cycle_from (adj deps node ! idx) ((node, Suc idx) # rest)])
         | Black \<Rightarrow> dfs_loop deps ((node, Suc idx) # rest) color cycles)
      else dfs_loop deps rest (color(node := Black)) cycles)"
  by (subst dfs_loop.simps(2)) (simp only: Let_def)

declare dfs_loop.simps(2) [simp del]

lemma dfs_loop_inv:
  "search_inv deps stack color cycles \<Longrightarrow> dfs_loop deps stack color cycles = (color', cycles') \<Longrightarrow>
   search_inv deps [] color' cycles'"
proof (induction deps stack color cycles rule: dfs_loop.induct)
  case (2 deps node idx rest color cycles)
  note st = search_inv_step [OF "2.prems"(1)] and eq = "2.prems"(2) [unfolded dfs_loop_step [of deps node idx]]
  show ?case
  proof (cases "idx < length (adj deps node)")
    case True
    show ?thesis
    proof (cases "color (adj deps node ! idx)")
      case White
      then show ?thesis
        using "2.IH"(1) [OF True refl refl White st(1) [OF True White]] eq True by (simp add: fun_upd_def)
    next
      case Gray
      then show ?thesis
        using "2.IH"(2) [OF True refl refl Gray st(2) [OF True Gray]] eq True by simp
    next
      case Black
      then show ?thesis
        using "2.IH"(3) [OF True refl refl Black st(3) [OF True Black]] eq True by simp
    qed
  next
    case False
    then show ?thesis
      using "2.IH"(4) [OF False st(4) [OF False]] eq by (simp add: fun_upd_def)
  qed
qed simp

lemma dfs_loop_marks:
  "dfs_loop deps stack color cycles = (color', cycles') \<Longrightarrow> color n \<noteq> White \<Longrightarrow> color' n \<noteq> White"
proof (induction deps stack color cycles rule: dfs_loop.induct)
  case (2 deps node idx rest color cycles)
  note eq = "2.prems"(1) [unfolded dfs_loop_step [of deps node idx]]
  show ?case
  proof (cases "idx < length (adj deps node)")
    case True
    show ?thesis
    proof (cases "color (adj deps node ! idx)")
      case White
      then show ?thesis
        using "2.IH"(1) [OF True refl refl White] eq True "2.prems"(2) by (simp add: fun_upd_def)
    next
      case Gray
      then show ?thesis
        using "2.IH"(2) [OF True refl refl Gray] eq True "2.prems"(2) by simp
    next
      case Black
      then show ?thesis
        using "2.IH"(3) [OF True refl refl Black] eq True "2.prems"(2) by simp
    qed
  next
    case False
    then show ?thesis
      using "2.IH"(4) [OF False] eq "2.prems"(2) by (simp add: fun_upd_def)
  qed
qed simp

definition visit :: "string list bmap \<Rightarrow> string \<Rightarrow> (string \<Rightarrow> Color) \<times> string list list \<Rightarrow> (string \<Rightarrow> Color) \<times> string list list" where
  "visit deps start = (\<lambda>(color, cycles). if color start \<noteq> White then (color, cycles)
     else dfs_loop deps [(start, 0)] (color(start := Gray)) cycles)"

lemma visit_inv:
  assumes "search_inv deps [] color cycles" "visit deps start (color, cycles) = (color', cycles')"
  shows "search_inv deps [] color' cycles'" "color' start \<noteq> White"
    "color n \<noteq> White \<Longrightarrow> color' n \<noteq> White"
proof -
  let ?c = "color(start := Gray)"
  have s: "search_inv deps [(start, 0)] ?c cycles" if "color start = White"
  proof -
    have "{(a, b) \<in> dep_edges deps. ?c a = Black} = {(a, b) \<in> dep_edges deps. color a = Black}"
      using that by (auto split: if_splits)
    then have "black_ok deps color \<Longrightarrow> black_ok deps ?c"
      using that unfolding black_ok_def by auto
    then show ?thesis
      using assms(1) unfolding search_inv_def by auto
  qed
  show "search_inv deps [] color' cycles'"
    using assms s dfs_loop_inv by (auto simp: visit_def split: if_splits)
  show "color' start \<noteq> White" "color n \<noteq> White \<Longrightarrow> color' n \<noteq> White"
    using assms(2) dfs_loop_marks [of deps "[(start, 0)]" ?c cycles color' cycles']
    by (auto simp: visit_def split: if_splits)
qed

lemma visits_inv:
  "search_inv deps [] color cycles \<Longrightarrow> fold (visit deps) keys (color, cycles) = (color', cycles') \<Longrightarrow>
   search_inv deps [] color' cycles' \<and> (\<forall>n. n \<in> set keys \<or> color n \<noteq> White \<longrightarrow> color' n \<noteq> White)"
proof (induction keys arbitrary: color cycles)
  case (Cons k keys)
  obtain c1 y1 where v: "visit deps k (color, cycles) = (c1, y1)"
    by fastforce
  note vi = visit_inv [OF Cons.prems(1) v]
  have "fold (visit deps) keys (c1, y1) = (color', cycles')"
    using Cons.prems(2) v by simp
  from Cons.IH [OF vi(1) this] show ?case
    using vi(2,3) by auto
qed simp

lemma search_inv_init: "search_inv deps [] (\<lambda>_. White) []"
  by (auto simp: search_inv_def black_ok_def acyclic_def)

lemma detect_cycles_visit: "detect_cycles tasks = snd (fold (visit (build_deps tasks)) (map fst (build_deps tasks)) (\<lambda>_. White, []))"
  unfolding detect_cycles_def visit_def Let_def ..

lemma dep_edges_key: "(a, b) \<in> dep_edges deps \<Longrightarrow> a \<in> set (map fst deps)"
proof -
  assume "(a, b) \<in> dep_edges deps"
  then obtain ds where "bm_get deps a = Some ds"
    by (cases "bm_get deps a") (auto simp: dep_edges_def adj_def)
  then show ?thesis
    by (force dest: bm_get_in)
qed

lemma closed_walk_cyclic: "closed_walk E c \<Longrightarrow> (hd c, hd c) \<in> E\<^sup>+"
proof -
  have "successively (\<lambda>a b. (a, b) \<in> E) c \<Longrightarrow> 2 \<le> length c \<Longrightarrow> (hd c, last c) \<in> E\<^sup>+" for c
  proof (induction c rule: induct_list012)
    case (3 x y zs)
    then show ?case
      by (cases zs) (auto intro: trancl_into_trancl2)
  qed simp_all
  then show "closed_walk E c \<Longrightarrow> (hd c, hd c) \<in> E\<^sup>+"
    unfolding closed_walk_def by metis
qed

lemma detect_cycles_deps:
  shows "list_all (closed_walk (dep_edges (build_deps tasks))) (detect_cycles tasks)"
    "detect_cycles tasks = [] \<longleftrightarrow> acyclic (dep_edges (build_deps tasks))"
proof -
  let ?d = "build_deps tasks"
  obtain color cycles where f: "fold (visit ?d) (map fst ?d) (\<lambda>_. White, []) = (color, cycles)"
    by fastforce
  then have dc: "detect_cycles tasks = cycles"
    by (simp add: detect_cycles_visit)
  have I: "search_inv ?d [] color cycles" "\<And>n. n \<in> set (map fst ?d) \<Longrightarrow> color n \<noteq> White"
    using visits_inv [OF search_inv_init f] by auto
  show w: "list_all (closed_walk (dep_edges ?d)) (detect_cycles tasks)"
    using I(1) unfolding dc search_inv_def by (simp add: list_all_iff)
  have black: "color n = Black" if "n \<in> set (map fst ?d)" for n
    using I(1) I(2) [OF that] unfolding search_inv_def by (cases "color n") auto
  show "detect_cycles tasks = [] \<longleftrightarrow> acyclic (dep_edges ?d)"
  proof
    assume "detect_cycles tasks = []"
    then have "acyclic {(a, b) \<in> dep_edges ?d. color a = Black}"
      using I(1) unfolding dc search_inv_def black_ok_def by blast
    moreover have "{(a, b) \<in> dep_edges ?d. color a = Black} = dep_edges ?d"
      using black dep_edges_key by blast
    ultimately show "acyclic (dep_edges ?d)"
      by simp
  next
    assume ac: "acyclic (dep_edges ?d)"
    show "detect_cycles tasks = []"
    proof (rule ccontr)
      assume "detect_cycles tasks \<noteq> []"
      then obtain c where "c \<in> set (detect_cycles tasks)"
        by (cases "detect_cycles tasks") auto
      then have "closed_walk (dep_edges ?d) c"
        using w by (simp add: list_all_iff)
      then show False
        using closed_walk_cyclic ac by (metis acyclic_def)
    qed
  qed
qed

text \<open>The dependency relation between the tasks of a room.\<close>

definition depends_rel :: "TaskState list \<Rightarrow> (string \<times> string) set" where
  "depends_rel tasks = {(a, b). \<exists>t\<in>set tasks. tk_task_id t = a \<and> b \<in> set (tk_depends_on t) \<and> b \<in> tk_task_id ` set tasks}"

lemma build_deps_edges: "dep_edges (build_deps tasks) = depends_rel tasks"
proof -
  let ?f = "\<lambda>task deps. bm_insert (tk_task_id task) (unwrap_or (bm_get deps (tk_task_id task)) [] @
        filter (\<lambda>dep. dep \<in> set (present_ids tasks)) (tk_depends_on task)) deps"
  have "set (adj (fold ?f ts deps) a) = set (adj deps a) \<union>
      (\<Union>t\<in>{t\<in>set ts. tk_task_id t = a}. set (tk_depends_on t) \<inter> tk_task_id ` set tasks)" for ts deps a
    by (induction ts arbitrary: deps) (auto simp: adj_def bm_get_insert present_ids_def)
  from this [of tasks "[]"] show ?thesis
    unfolding dep_edges_def depends_rel_def build_deps_def by (auto simp: adj_def bm_get_def)
qed

text \<open>C30. Cycle detection is sound and complete. The search over the dependencies of present tasks
  reports at least one cycle exactly when the dependency relation is cyclic, and everything it
  reports is a closed walk along dependencies (the first task repeated at the end).\<close>

theorem detect_cycles_correct:
  "(detect_cycles tasks = [] \<longleftrightarrow> acyclic (depends_rel tasks)) \<and>
   list_all (closed_walk (depends_rel tasks)) (gr_cycles (from_tasks tasks))"
  using detect_cycles_deps [of tasks] by (simp add: build_deps_edges from_tasks_def)

end
