(* ===== verification/Wire_Events.thy ===== *)
theory Wire_Events
  imports Requests Task_Schema "HOL-Library.Monad_Syntax"
begin

text \<open>
  The remaining event contents of \<open>crates/mx-agent-protocol/src/schema.rs\<close> that the event router
  reads: results, control frames, streams, task and invocation state, heartbeats, each as a record
  with the reader that \<open>serde\<close> derives for it; members that are not known are kept in \<open>extra\<close>.
\<close>

subsection \<open>Numbers and enumerations\<close>

definition as_u_below :: "nat \<Rightarrow> json \<Rightarrow> nat option" where
  "as_u_below bound v = do { n \<leftarrow> as_u64 v; if unat n < bound then Some (unat n) else None }"

fun as_i32 :: "json \<Rightarrow> int option" where
  "as_i32 (JNum (PosInt n)) = (if unat n < 2 ^ 31 then Some (int (unat n)) else None)"
| "as_i32 (JNum (NegInt i)) = (if - (2 ^ 31) \<le> i then Some i else None)"
| "as_i32 _ = None"

definition default_field :: "'a \<Rightarrow> (json \<Rightarrow> 'a option) \<Rightarrow> members \<Rightarrow> string \<Rightarrow> 'a option" where
  "default_field d f m k = (case map_of m k of None \<Rightarrow> Some d | Some v \<Rightarrow> f v)"

fun members_of :: "json \<Rightarrow> members option" where
  "members_of (JObject m) = Some m"
| "members_of _ = None"

datatype StreamKind = Stdin | Stdout | Stderr | Pty | Control

fun as_stream_kind :: "json \<Rightarrow> StreamKind option" where
  "as_stream_kind (JString s) = map_of [(''stdin'', Stdin), (''stdout'', Stdout), (''stderr'', Stderr),
     (''pty'', Pty), (''control'', Control)] s"
| "as_stream_kind _ = None"

subsection \<open>Exec results\<close>

record ExecAccepted =
  xa_invocation_id :: string
  xa_signature :: "Signature option"
  xa_extra :: members

definition exec_accepted_from_json :: "json \<Rightarrow> ExecAccepted option" where
  "exec_accepted_from_json v = do {
     m \<leftarrow> members_of v;
     i \<leftarrow> field as_string m ''invocation_id'';
     s \<leftarrow> opt_field signature_from_json m ''signature'';
     Some \<lparr> xa_invocation_id = i, xa_signature = s,
       xa_extra = others [''invocation_id'', ''signature''] m \<rparr> }"

record ExecRejected =
  xj_invocation_id :: string
  xj_reason :: string
  xj_signature :: "Signature option"
  xj_extra :: members

definition exec_rejected_from_json :: "json \<Rightarrow> ExecRejected option" where
  "exec_rejected_from_json v = do {
     m \<leftarrow> members_of v;
     i \<leftarrow> field as_string m ''invocation_id'';
     r \<leftarrow> field as_string m ''reason'';
     s \<leftarrow> opt_field signature_from_json m ''signature'';
     Some \<lparr> xj_invocation_id = i, xj_reason = r, xj_signature = s,
       xj_extra = others [''invocation_id'', ''reason'', ''signature''] m \<rparr> }"

record ExecFinished =
  xf_invocation_id :: string
  xf_exit_code :: "int option"
  xf_signal :: "string option"
  xf_duration_ms :: u64
  xf_stdout_bytes :: u64
  xf_stderr_bytes :: u64
  xf_truncated :: bool
  xf_artifact_mxc :: "string option"
  xf_signature :: "Signature option"
  xf_extra :: members

definition exec_finished_from_json :: "json \<Rightarrow> ExecFinished option" where
  "exec_finished_from_json v = do {
     m \<leftarrow> members_of v;
     i \<leftarrow> field as_string m ''invocation_id'';
     code \<leftarrow> opt_field as_i32 m ''exit_code'';
     sig \<leftarrow> opt_field as_string m ''signal'';
     d \<leftarrow> field as_u64 m ''duration_ms'';
     ob \<leftarrow> field as_u64 m ''stdout_bytes'';
     eb \<leftarrow> field as_u64 m ''stderr_bytes'';
     t \<leftarrow> field as_bool m ''truncated'';
     a \<leftarrow> opt_field as_string m ''artifact_mxc'';
     s \<leftarrow> opt_field signature_from_json m ''signature'';
     Some \<lparr> xf_invocation_id = i, xf_exit_code = code, xf_signal = sig, xf_duration_ms = d,
       xf_stdout_bytes = ob, xf_stderr_bytes = eb, xf_truncated = t, xf_artifact_mxc = a, xf_signature = s,
              xf_extra = others [''invocation_id'', ''exit_code'', ''signal'', ''duration_ms'',
         ''stdout_bytes'', ''stderr_bytes'', ''truncated'', ''artifact_mxc'', ''signature''] m \<rparr> }"

record ExecCancelled =
  xd_invocation_id :: string
  xd_signal_sent :: string
  xd_killed_process_group :: bool
  xd_finished_at :: string
  xd_signature :: "Signature option"
  xd_extra :: members

definition exec_cancelled_from_json :: "json \<Rightarrow> ExecCancelled option" where
  "exec_cancelled_from_json v = do {
     m \<leftarrow> members_of v;
     i \<leftarrow> field as_string m ''invocation_id'';
     g \<leftarrow> field as_string m ''signal_sent'';
     k \<leftarrow> field as_bool m ''killed_process_group'';
     t \<leftarrow> field as_string m ''finished_at'';
     s \<leftarrow> opt_field signature_from_json m ''signature'';
     Some \<lparr> xd_invocation_id = i, xd_signal_sent = g, xd_killed_process_group = k, xd_finished_at = t,
       xd_signature = s,
              xd_extra = others [''invocation_id'', ''signal_sent'', ''killed_process_group'', ''finished_at'',
         ''signature''] m \<rparr> }"

subsection \<open>Control frames\<close>

record ExecStdin =
  xs_invocation_id :: string
  xs_data :: string
  xs_eof :: bool
  xs_created_at :: string
  xs_nonce :: string
  xs_signature :: Signature
  xs_extra :: members

definition exec_stdin_from_json :: "json \<Rightarrow> ExecStdin option" where
  "exec_stdin_from_json v = do {
     m \<leftarrow> members_of v;
     i \<leftarrow> field as_string m ''invocation_id'';
     d \<leftarrow> field as_string m ''data'';
     e \<leftarrow> field as_bool m ''eof'';
     c \<leftarrow> field as_string m ''created_at'';
     n \<leftarrow> field as_string m ''nonce'';
     s \<leftarrow> field signature_from_json m ''signature'';
     Some \<lparr> xs_invocation_id = i, xs_data = d, xs_eof = e, xs_created_at = c, xs_nonce = n, xs_signature = s,
              xs_extra = others [''invocation_id'', ''data'', ''eof'', ''created_at'', ''nonce'', ''signature'']
         m \<rparr> }"

record ExecCancel =
  xc_invocation_id :: string
  xc_reason :: string
  xc_created_at :: string
  xc_nonce :: string
  xc_signature :: Signature
  xc_extra :: members

definition exec_cancel_from_json :: "json \<Rightarrow> ExecCancel option" where
  "exec_cancel_from_json v = do {
     m \<leftarrow> members_of v;
     i \<leftarrow> field as_string m ''invocation_id'';
     r \<leftarrow> field as_string m ''reason'';
     c \<leftarrow> field as_string m ''created_at'';
     n \<leftarrow> field as_string m ''nonce'';
     s \<leftarrow> field signature_from_json m ''signature'';
     Some \<lparr> xc_invocation_id = i, xc_reason = r, xc_created_at = c, xc_nonce = n, xc_signature = s,
       xc_extra = others [''invocation_id'', ''reason'', ''created_at'', ''nonce'', ''signature''] m \<rparr> }"

record PtyResize =
  pz_invocation_id :: string
  pz_rows :: nat
  pz_cols :: nat
  pz_pixel_width :: nat
  pz_pixel_height :: nat
  pz_created_at :: string
  pz_nonce :: string
  pz_signature :: Signature
  pz_extra :: members

definition pty_resize_from_json :: "json \<Rightarrow> PtyResize option" where
  "pty_resize_from_json v = do {
     m \<leftarrow> members_of v;
     i \<leftarrow> field as_string m ''invocation_id'';
     r \<leftarrow> field (as_u_below 65536) m ''rows'';
     c \<leftarrow> field (as_u_below 65536) m ''cols'';
     pw \<leftarrow> default_field 0 (as_u_below 65536) m ''pixel_width'';
     ph \<leftarrow> default_field 0 (as_u_below 65536) m ''pixel_height'';
     t \<leftarrow> field as_string m ''created_at'';
     n \<leftarrow> field as_string m ''nonce'';
     s \<leftarrow> field signature_from_json m ''signature'';
     Some \<lparr> pz_invocation_id = i, pz_rows = r, pz_cols = c, pz_pixel_width = pw, pz_pixel_height = ph,
       pz_created_at = t, pz_nonce = n, pz_signature = s,
              pz_extra = others [''invocation_id'', ''rows'', ''cols'', ''pixel_width'', ''pixel_height'',
         ''created_at'', ''nonce'', ''signature''] m \<rparr> }"

subsection \<open>Calls, streams\<close>

record CallResponse =
  cp_request_id :: string
  cp_ok :: bool
  cp_result :: "json option"
  cp_error :: "string option"
  cp_signature :: "Signature option"
  cp_extra :: members

definition call_response_from_json :: "json \<Rightarrow> CallResponse option" where
  "call_response_from_json v = do {
     m \<leftarrow> members_of v;
     i \<leftarrow> field as_string m ''request_id'';
     ok \<leftarrow> field as_bool m ''ok'';
     r \<leftarrow> opt_field Some m ''result'';
     e \<leftarrow> opt_field as_string m ''error'';
     s \<leftarrow> opt_field signature_from_json m ''signature'';
     Some \<lparr> cp_request_id = i, cp_ok = ok, cp_result = r, cp_error = e, cp_signature = s,
       cp_extra = others [''request_id'', ''ok'', ''result'', ''error'', ''signature''] m \<rparr> }"

record StreamChunk =
  sk_invocation_id :: string
  sk_stream :: StreamKind
  sk_seq :: u64
  sk_encoding :: string
  sk_data :: string
  sk_eof :: bool
  sk_compressed :: bool
  sk_sha256 :: "string option"
  sk_timestamp :: string
  sk_signature :: "Signature option"
  sk_extra :: members

definition stream_chunk_from_json :: "json \<Rightarrow> StreamChunk option" where
  "stream_chunk_from_json v = do {
     m \<leftarrow> members_of v;
     i \<leftarrow> field as_string m ''invocation_id'';
     k \<leftarrow> field as_stream_kind m ''stream'';
     q \<leftarrow> field as_u64 m ''seq'';
     enc \<leftarrow> field as_string m ''encoding'';
     d \<leftarrow> field as_string m ''data'';
     e \<leftarrow> field as_bool m ''eof'';
     c \<leftarrow> field as_bool m ''compressed'';
     h \<leftarrow> opt_field as_string m ''sha256'';
     t \<leftarrow> field as_string m ''timestamp'';
     s \<leftarrow> opt_field signature_from_json m ''signature'';
     Some \<lparr> sk_invocation_id = i, sk_stream = k, sk_seq = q, sk_encoding = enc, sk_data = d, sk_eof = e,
       sk_compressed = c, sk_sha256 = h, sk_timestamp = t, sk_signature = s,
              sk_extra = others [''invocation_id'', ''stream'', ''seq'', ''encoding'', ''data'', ''eof'',
         ''compressed'', ''sha256'', ''timestamp'', ''signature''] m \<rparr> }"

record StreamArtifact =
  sa_invocation_id :: string
  sa_stream :: StreamKind
  sa_name :: string
  sa_mime_type :: string
  sa_size_bytes :: u64
  sa_sha256 :: string
  sa_mxc_uri :: string
  sa_tail_preview :: string
  sa_encrypted_file :: "json option"
  sa_signature :: "Signature option"
  sa_extra :: members

definition stream_artifact_from_json :: "json \<Rightarrow> StreamArtifact option" where
  "stream_artifact_from_json v = do {
     m \<leftarrow> members_of v;
     i \<leftarrow> field as_string m ''invocation_id'';
     k \<leftarrow> field as_stream_kind m ''stream'';
     n \<leftarrow> field as_string m ''name'';
     mt \<leftarrow> field as_string m ''mime_type'';
     z \<leftarrow> field as_u64 m ''size_bytes'';
     h \<leftarrow> field as_string m ''sha256'';
     u \<leftarrow> field as_string m ''mxc_uri'';
     p \<leftarrow> field as_string m ''tail_preview'';
     f \<leftarrow> opt_field Some m ''encrypted_file'';
     s \<leftarrow> opt_field signature_from_json m ''signature'';
     Some \<lparr> sa_invocation_id = i, sa_stream = k, sa_name = n, sa_mime_type = mt, sa_size_bytes = z,
       sa_sha256 = h, sa_mxc_uri = u, sa_tail_preview = p, sa_encrypted_file = f, sa_signature = s,
              sa_extra = others [''invocation_id'', ''stream'', ''name'', ''mime_type'', ''size_bytes'',
         ''sha256'', ''mxc_uri'', ''tail_preview'', ''encrypted_file'', ''signature''] m \<rparr> }"

subsection \<open>Tasks, invocations, approvals, heartbeats\<close>

definition authorization_from_json :: "json \<Rightarrow> TaskActionAuthorization option" where
  "authorization_from_json v = do {
     m \<leftarrow> members_of v;
     r \<leftarrow> field as_string m ''requesting_agent'';
     t \<leftarrow> field as_string m ''target_agent'';
     c \<leftarrow> field as_string m ''created_at'';
     e \<leftarrow> field as_string m ''expires_at'';
     n \<leftarrow> field as_string m ''nonce'';
     s \<leftarrow> field signature_from_json m ''signature'';
     Some \<lparr> au_requesting_agent = r, au_target_agent = t, au_created_at = c, au_expires_at = e, au_nonce = n,
       au_signature = s,
              au_extra = others [''requesting_agent'', ''target_agent'', ''created_at'', ''expires_at'',
         ''nonce'', ''signature''] m \<rparr> }"

definition task_action_from_json :: "json \<Rightarrow> TaskAction option" where
  "task_action_from_json v = do {
     m \<leftarrow> members_of v;
     t \<leftarrow> field as_string m ''type'';
     if t = ''tool'' then do {
       tool \<leftarrow> field as_string m ''tool'';
       args \<leftarrow> default_field JNull Some m ''args'';
       a \<leftarrow> opt_field authorization_from_json m ''authorization'';
       Some (ToolAction tool args a) }
     else if t = ''exec'' then do {
       c \<leftarrow> field as_strings m ''command'';
       d \<leftarrow> field as_string m ''cwd'';
       e \<leftarrow> default_field [] as_string_map m ''env'';
       ms \<leftarrow> opt_field as_u64 m ''timeout_ms'';
       s \<leftarrow> default_field False as_bool m ''stream'';
       a \<leftarrow> opt_field authorization_from_json m ''authorization'';
       Some (ExecAction c d e ms s a) }
     else None }"

definition task_state_from_json :: "json \<Rightarrow> TaskState option" where
  "task_state_from_json v = do {
     m \<leftarrow> members_of v;
     tid \<leftarrow> field as_string m ''task_id'';
     title \<leftarrow> field as_string m ''title'';
     descr \<leftarrow> field as_string m ''description'';
     st \<leftarrow> field as_string m ''state'';
     asg \<leftarrow> field as_string m ''assigned_to'';
     crt \<leftarrow> field as_string m ''created_by'';
     deps \<leftarrow> field as_strings m ''depends_on'';
     blk \<leftarrow> field as_strings m ''blocks'';
     iid \<leftarrow> opt_field as_string m ''invocation_id'';
     ca \<leftarrow> field as_string m ''created_at'';
     ua \<leftarrow> field as_string m ''updated_at'';
     rv \<leftarrow> field as_u64 m ''state_rev'';
     pe \<leftarrow> opt_field as_string m ''previous_event_id'';
     res \<leftarrow> opt_field Some m ''result'';
     act \<leftarrow> opt_field task_action_from_json m ''action'';
     Some \<lparr> tk_task_id = tid, tk_title = title, tk_description = descr, tk_state = st, tk_assigned_to = asg,
       tk_created_by = crt, tk_depends_on = deps, tk_blocks = blk, tk_invocation_id = iid, tk_created_at = ca,
       tk_updated_at = ua, tk_state_rev = rv, tk_previous_event_id = pe, tk_result = res, tk_action = act,
              tk_extra = others [''task_id'', ''title'', ''description'', ''state'', ''assigned_to'',
         ''created_by'', ''depends_on'', ''blocks'', ''invocation_id'', ''created_at'', ''updated_at'',
         ''state_rev'', ''previous_event_id'', ''result'', ''action''] m \<rparr> }"

definition invocation_state_from_json :: "json \<Rightarrow> InvocationState option" where
  "invocation_state_from_json v = do {
     m \<leftarrow> members_of v;
     i \<leftarrow> field as_string m ''invocation_id'';
     t \<leftarrow> opt_field as_string m ''task_id'';
     r \<leftarrow> field as_string m ''requester'';
     g \<leftarrow> field as_string m ''target'';
     s \<leftarrow> field as_string m ''state'';
     ca \<leftarrow> field as_string m ''created_at'';
     ua \<leftarrow> field as_string m ''updated_at'';
     code \<leftarrow> opt_field as_i32 m ''exit_code'';
     rv \<leftarrow> field as_u64 m ''state_rev'';
     Some \<lparr> iv_invocation_id = i, iv_task_id = t, iv_requester = r, iv_target = g, iv_state = s,
       iv_created_at = ca, iv_updated_at = ua, iv_exit_code = code, iv_state_rev = rv,
              iv_extra = others [''invocation_id'', ''task_id'', ''requester'', ''target'', ''state'',
         ''created_at'', ''updated_at'', ''exit_code'', ''state_rev''] m \<rparr> }"

definition approval_request_from_json :: "json \<Rightarrow> ApprovalRequest option" where
  "approval_request_from_json v = do {
     m \<leftarrow> members_of v;
     r \<leftarrow> field as_string m ''request_id'';
     i \<leftarrow> field as_string m ''invocation_id'';
     q \<leftarrow> field as_string m ''requester'';
     t \<leftarrow> field as_string m ''target'';
     s \<leftarrow> field as_string m ''summary'';
     k \<leftarrow> field as_string m ''risk'';
     e \<leftarrow> field as_string m ''expires_at'';
     Some \<lparr> aq_request_id = r, aq_invocation_id = i, aq_requester = q, aq_target = t, aq_summary = s,
       aq_risk = k, aq_expires_at = e,
       aq_extra = others approval_request_fields m \<rparr> }"

text \<open>A struct without unknown members is also read from the sequence of its fields.\<close>

definition load_from_json :: "json \<Rightarrow> AgentLoad option" where
  "load_from_json v = (case v of
       JArray [r, x] \<Rightarrow> do {
         r' \<leftarrow> as_u_below (2 ^ 32) r;
         x' \<leftarrow> as_u_below (2 ^ 32) x;
         Some \<lparr> al_running_invocations = of_nat r', al_max_invocations = of_nat x' \<rparr> }
     | _ \<Rightarrow> do {
         m \<leftarrow> members_of v;
         r \<leftarrow> field (as_u_below (2 ^ 32)) m ''running_invocations'';
         x \<leftarrow> field (as_u_below (2 ^ 32)) m ''max_invocations'';
         Some \<lparr> al_running_invocations = of_nat r, al_max_invocations = of_nat x \<rparr> })"

definition heartbeat_from_json :: "json \<Rightarrow> Heartbeat option" where
  "heartbeat_from_json v = do {
     m \<leftarrow> members_of v;
     a \<leftarrow> field as_string m ''agent_id'';
     s \<leftarrow> field as_string m ''status'';
     l \<leftarrow> field load_from_json m ''load'';
     t \<leftarrow> field as_u64 m ''ts'';
     Some \<lparr> hb_agent_id = a, hb_status = s, hb_load = l, hb_ts = t,
       hb_extra = others [''agent_id'', ''status'', ''load'', ''ts''] m \<rparr> }"

end
