(* ===== verification/Scheduler.thy ===== *)
theory Scheduler
  imports Task_Lifecycle Wire_Events "HOL-Library.Multiset"
begin

text \<open>
  The task scheduler, \<open>crates/mx-agent-daemon/src/scheduler.rs\<close>: which tasks of a room snapshot an
  agent should try to run, given its capacity. It also holds \<open>action_from_task\<close> of
  \<open>task_orchestrator.rs\<close>: the record read from a room keeps the member \<open>action\<close> in its typed field,
  so the fallback to unknown members of that name never has a value and the action is the field.
\<close>

datatype TaskActionError = MissingAction | InvalidAction string

definition action_from_task :: "TaskState \<Rightarrow> (TaskActionError, TaskAction) result" where
  "action_from_task task = (case tk_action task of
       Some action \<Rightarrow> Inr action
     | None \<Rightarrow>
        and_then (ok_or (map_of (tk_extra task) ''action'') MissingAction) (\<lambda>value.
        ok_or (task_action_from_json value) (InvalidAction (tk_task_id task))))"

datatype ScheduleDecision =
    Runnable (sd_task_id: string)
  | NotAssigned (sd_task_id: string) string
  | TerminalState (sd_task_id: string) string
  | NotSchedulableState (sd_task_id: string) string
  | DependenciesUnmet (sd_task_id: string) "string list"
  | NoExecutableAction (sd_task_id: string)
  | AtCapacity (sd_task_id: string)

fun sd_is_runnable :: "ScheduleDecision \<Rightarrow> bool" where
  "sd_is_runnable (Runnable _) = True"
| "sd_is_runnable _ = False"

fun sd_kind :: "ScheduleDecision \<Rightarrow> string" where
  "sd_kind (Runnable _) = ''runnable''"
| "sd_kind (NotAssigned _ _) = ''not_assigned''"
| "sd_kind (TerminalState _ _) = ''terminal''"
| "sd_kind (NotSchedulableState _ _) = ''not_schedulable_state''"
| "sd_kind (DependenciesUnmet _ _) = ''dependencies_unmet''"
| "sd_kind (NoExecutableAction _) = ''no_executable_action''"
| "sd_kind (AtCapacity _) = ''at_capacity''"

record TaskScheduler =
  sc_agent_id :: string
  sc_max_invocations :: u32
  sc_auto_claim :: bool

definition new_scheduler :: "string \<Rightarrow> u32 \<Rightarrow> TaskScheduler" where
  "new_scheduler agent_id max_invocations =
     \<lparr> sc_agent_id = agent_id, sc_max_invocations = max_invocations, sc_auto_claim = False \<rparr>"

definition with_auto_claim :: "bool \<Rightarrow> TaskScheduler \<Rightarrow> TaskScheduler" where
  "with_auto_claim auto_claim s = s \<lparr> sc_auto_claim := auto_claim \<rparr>"

definition succeeded_ids :: "TaskState list \<Rightarrow> string set" where
  "succeeded_ids tasks = set (map tk_task_id (filter (\<lambda>task. tk_state task = STATE_SUCCEEDED) tasks))"

definition unmet_dependencies :: "TaskState \<Rightarrow> string set \<Rightarrow> string list" where
  "unmet_dependencies task succeeded = filter (\<lambda>dep. dep \<notin> succeeded) (tk_depends_on task)"

definition is_claimable :: "TaskScheduler \<Rightarrow> TaskState \<Rightarrow> bool" where
  "is_claimable s task \<longleftrightarrow> sc_auto_claim s \<or> tk_assigned_to task = sc_agent_id s"

definition evaluate :: "TaskScheduler \<Rightarrow> TaskState \<Rightarrow> TaskState list \<Rightarrow> ScheduleDecision" where
  "evaluate s task all_tasks =
     (if is_terminal (tk_state task) then TerminalState (tk_task_id task) (tk_state task)
      else if \<not> is_runnable (tk_state task) then NotSchedulableState (tk_task_id task) (tk_state task)
      else if \<not> is_claimable s task then NotAssigned (tk_task_id task) (tk_assigned_to task)
      else
        (let waiting_on = unmet_dependencies task (succeeded_ids all_tasks)
         in if waiting_on \<noteq> [] then DependenciesUnmet (tk_task_id task) waiting_on
            else if isl (action_from_task task) then NoExecutableAction (tk_task_id task)
            else Runnable (tk_task_id task)))"

fun decide_loop :: "TaskScheduler \<Rightarrow> TaskState list \<Rightarrow> u32 \<Rightarrow> TaskState list \<Rightarrow> ScheduleDecision list" where
  "decide_loop s tasks remaining [] = []"
| "decide_loop s tasks remaining (task # ordered) =
     (let decision = evaluate s task tasks
      in if sd_is_runnable decision then
           (if remaining = 0 then AtCapacity (tk_task_id task) # decide_loop s tasks remaining ordered
            else decision # decide_loop s tasks (remaining - 1) ordered)
         else decision # decide_loop s tasks remaining ordered)"

definition decide :: "TaskScheduler \<Rightarrow> TaskState list \<Rightarrow> u32 \<Rightarrow> ScheduleDecision list" where
  "decide s tasks running_count =
     decide_loop s tasks (sat_sub (sc_max_invocations s) running_count) (sort_key tk_task_id tasks)"

definition runnable :: "TaskScheduler \<Rightarrow> TaskState list \<Rightarrow> u32 \<Rightarrow> TaskState list" where
  "runnable s tasks running_count =
     (let runnable_ids = set (map sd_task_id (filter sd_is_runnable (decide s tasks running_count)))
      in filter (\<lambda>task. tk_task_id task \<in> runnable_ids) tasks)"

subsection \<open>Lemmas\<close>

definition eligible :: "TaskScheduler \<Rightarrow> TaskState list \<Rightarrow> TaskState \<Rightarrow> bool" where
  "eligible s tasks t \<longleftrightarrow> is_runnable (tk_state t) \<and> is_claimable s t \<and>
     list_all (\<lambda>d. d \<in> succeeded_ids tasks) (tk_depends_on t) \<and> \<not> isl (action_from_task t)"

lemma evaluate_runnable: "eligible s tasks t \<Longrightarrow> evaluate s t tasks = Runnable (tk_task_id t)"
  using runnable_not_terminal [of "tk_state t"]
  by (auto simp: eligible_def evaluate_def unmet_dependencies_def list_all_iff filter_empty_conv)

lemma evaluate_not_runnable: "sd_is_runnable (evaluate s t tasks) \<longleftrightarrow> eligible s tasks t"
proof
  show "sd_is_runnable (evaluate s t tasks) \<Longrightarrow> eligible s tasks t"
    by (auto simp: eligible_def evaluate_def unmet_dependencies_def list_all_iff Let_def filter_empty_conv
        split: if_splits)
qed (simp add: evaluate_runnable)

lemma evaluate_id [simp]: "sd_task_id (evaluate s t tasks) = tk_task_id t"
  by (simp add: evaluate_def Let_def)

lemma evaluate_snapshot:
  "mset tasks = mset tasks' \<Longrightarrow> evaluate s t tasks = evaluate s t tasks'"
  using mset_eq_setD [of tasks tasks'] by (simp add: evaluate_def succeeded_ids_def)

lemma length_decide_loop [simp]: "length (decide_loop s tasks r ord) = length ord"
  by (induction s tasks r ord rule: decide_loop.induct) (auto simp: Let_def)

lemma length_decide [simp]: "length (decide s tasks rc) = length tasks"
  by (simp add: decide_def)

lemma ids_decide_loop: "map sd_task_id (decide_loop s tasks r ord) = map tk_task_id ord"
  by (induction s tasks r ord rule: decide_loop.induct) (auto simp: Let_def)

lemma unat_dec: "r \<noteq> 0 \<Longrightarrow> unat (r - 1 :: u32) = unat r - 1"
  by (simp add: unat_minus_one)

lemma decide_loop_nth:
  "i < length ord \<Longrightarrow> decide_loop s tasks r ord ! i =
     (if eligible s tasks (ord ! i) \<and> unat r \<le> length (filter (eligible s tasks) (take i ord))
      then AtCapacity (tk_task_id (ord ! i)) else evaluate s (ord ! i) tasks)"
proof (induction s tasks r ord arbitrary: i rule: decide_loop.induct)
  case (2 s tasks r t ord)
  show ?case
  proof (cases i)
    case 0
    then show ?thesis
      by (auto simp: Let_def evaluate_not_runnable unat_eq_zero)
  next
    case (Suc j)
    have j: "j < length ord"
      using 2 Suc by simp
    show ?thesis
    proof (cases "eligible s tasks t")
      case False
      then show ?thesis
        using "2.IH"(3) [OF refl _ j] Suc by (simp add: Let_def evaluate_not_runnable)
    next
      case el: True
      show ?thesis
      proof (cases "r = 0")
        case True
        then show ?thesis
          using "2.IH"(1) [OF refl _ True j] Suc el by (simp add: Let_def evaluate_not_runnable)
      next
        case False
        then have "0 < unat r"
          by (simp add: unat_gt_0)
        then have "unat (r - 1) \<le> k \<longleftrightarrow> unat r \<le> Suc k" for k
          using unat_dec [OF False] by linarith
        then show ?thesis
          using "2.IH"(2) [OF refl _ False j] Suc el False by (simp add: Let_def evaluate_not_runnable)
      qed
    qed
  qed
qed simp

lemma decide_loop_count:
  "length (filter sd_is_runnable (decide_loop s tasks r ord)) = min (unat r) (length (filter (eligible s tasks) ord))"
proof (induction s tasks r ord rule: decide_loop.induct)
  case (2 s tasks r t ord)
  show ?case
  proof (cases "eligible s tasks t")
    case False
    then show ?thesis
      using "2.IH"(3) [OF refl] by (simp add: Let_def evaluate_not_runnable)
  next
    case el: True
    show ?thesis
    proof (cases "r = 0")
      case True
      then show ?thesis
        using "2.IH"(1) [OF refl _ True] el by (simp add: Let_def evaluate_not_runnable)
    next
      case False
      then have "0 < unat r"
        by (simp add: unat_gt_0)
      then show ?thesis
        using "2.IH"(2) [OF refl _ False] el False unat_dec [OF False]
        by (simp add: Let_def evaluate_not_runnable evaluate_runnable)
    qed
  qed
qed simp

lemma filter_sort_key_length: "length (filter P (sort_key f xs)) = length (filter P xs)"
  by (metis mset_filter mset_sort size_mset)

lemma decide_order_free:
  assumes "mset tasks = mset tasks'" "distinct (map tk_task_id tasks)"
  shows "decide s tasks rc = decide s tasks' rc"
proof -
  have o: "sort_key tk_task_id tasks = sort_key tk_task_id tasks'"
    by (rule sort_key_inj_key_eq) (use assms in \<open>simp_all add: distinct_map\<close>)
  have "decide_loop s tasks r ord = decide_loop s tasks' r ord" for r ord
    by (induction ord arbitrary: r) (simp_all add: evaluate_snapshot [OF assms(1)] Let_def)
  then show ?thesis
    unfolding decide_def o by simp
qed

lemma runnable_distinct:
  assumes "distinct (map tk_task_id tasks)"
  shows "set (runnable s tasks rc) = {t \<in> set tasks. Runnable (tk_task_id t) \<in> set (decide s tasks rc)}"
    "list_all (eligible s tasks) (runnable s tasks rc)"
proof -
  let ?o = "sort_key tk_task_id tasks"
  have inj: "t = u" if "t \<in> set tasks" "u \<in> set tasks" "tk_task_id t = tk_task_id u" for t u
    using assms that by (meson distinct_map inj_onD)
  have dec: "\<exists>t\<in>set tasks. d = Runnable (tk_task_id t) \<and> eligible s tasks t"
    if d: "d \<in> set (decide s tasks rc)" "sd_is_runnable d" for d
  proof -
    obtain i where i: "i < length tasks" "d = decide s tasks rc ! i"
      using d(1) by (auto simp: in_set_conv_nth)
    then have "?o ! i \<in> set tasks"
      using nth_mem [of i ?o] by simp
    moreover have "eligible s tasks (?o ! i) \<and> d = evaluate s (?o ! i) tasks"
      using d(2) i decide_loop_nth [of i ?o s tasks "sat_sub (sc_max_invocations s) rc"]
      by (auto simp: decide_def evaluate_not_runnable split: if_splits)
    ultimately show ?thesis
      using evaluate_runnable by metis
  qed
  have el: "eligible s tasks t \<and> Runnable (tk_task_id t) \<in> set (decide s tasks rc)" if t: "t \<in> set (runnable s tasks rc)" for t
  proof -
    obtain d where d: "d \<in> set (decide s tasks rc)" "sd_is_runnable d" "tk_task_id t = sd_task_id d"
      using t by (auto simp: runnable_def)
    obtain u where u: "u \<in> set tasks" "d = Runnable (tk_task_id u)" "eligible s tasks u"
      using dec [OF d(1,2)] by blast
    have "t = u"
      using inj [OF _ u(1)] t u(2) d(3) by (simp add: runnable_def)
    then show ?thesis
      using u d(1) by simp
  qed
  show "list_all (eligible s tasks) (runnable s tasks rc)"
    using el by (simp add: list_all_iff)
  show "set (runnable s tasks rc) = {t \<in> set tasks. Runnable (tk_task_id t) \<in> set (decide s tasks rc)}"
    using el by (force simp: runnable_def)
qed

lemma runnable_count:
  assumes "distinct (map tk_task_id tasks)"
  shows "length (runnable s tasks rc) = length (filter sd_is_runnable (decide s tasks rc))"
proof -
  have ids: "map sd_task_id (decide s tasks rc) = map tk_task_id (sort_key tk_task_id tasks)"
    by (simp add: decide_def ids_decide_loop)
  then have dd: "distinct (map sd_task_id (decide s tasks rc))"
    using assms by (simp add: distinct_map)
  let ?ids = "map sd_task_id (filter sd_is_runnable (decide s tasks rc))"
  have "tk_task_id ` set (runnable s tasks rc) = set ?ids"
  proof -
    have "set ?ids \<subseteq> set (map tk_task_id (sort_key tk_task_id tasks))"
      unfolding ids [symmetric] by auto
    then have "set ?ids \<subseteq> tk_task_id ` set tasks"
      by simp
    moreover have "tk_task_id ` set (runnable s tasks rc) = tk_task_id ` set tasks \<inter> set ?ids"
      unfolding runnable_def Let_def by auto
    ultimately show ?thesis
      by blast
  qed
  moreover have "distinct (map tk_task_id (runnable s tasks rc))"
    using assms by (simp add: runnable_def distinct_map_filter)
  moreover have "distinct ?ids"
    using dd by (simp add: distinct_map_filter)
  ultimately show ?thesis
    by (metis distinct_card length_map set_map)
qed

subsection \<open>Properties\<close>

text \<open>What the scheduler decides. It returns one decision per task in the order of task ids; a
  task is to be run exactly when it is pending or assigned, claimable, has an action and only
  succeeded dependencies, and fewer eligible tasks come before it than there is capacity left; an
  eligible task beyond that is reported as waiting for capacity. So the number of tasks to run is the
  smaller of the free capacity and the number of eligible tasks: capacity is never exceeded and
  never left idle.\<close>

theorem decide_spec:
  "decide s tasks running =
     map (\<lambda>i. let t = sort_key tk_task_id tasks ! i
       in if eligible s tasks t then
            (if length (filter (eligible s tasks) (take i (sort_key tk_task_id tasks))) <
                 unat (sc_max_invocations s) - unat running
             then Runnable (tk_task_id t) else AtCapacity (tk_task_id t))
          else evaluate s t tasks) [0..<length tasks] \<and>
   length (filter sd_is_runnable (decide s tasks running)) =
     min (unat (sc_max_invocations s) - unat running) (length (filter (eligible s tasks) tasks))"
proof
  show "decide s tasks running =
     map (\<lambda>i. let t = sort_key tk_task_id tasks ! i
       in if eligible s tasks t then
            (if length (filter (eligible s tasks) (take i (sort_key tk_task_id tasks))) <
                 unat (sc_max_invocations s) - unat running
             then Runnable (tk_task_id t) else AtCapacity (tk_task_id t))
          else evaluate s t tasks) [0..<length tasks]"
    by (rule nth_equalityI)
      (auto simp: decide_def decide_loop_nth sat_sub_unat Let_def evaluate_runnable)
  show "length (filter sd_is_runnable (decide s tasks running)) =
     min (unat (sc_max_invocations s) - unat running) (length (filter (eligible s tasks) tasks))"
    by (simp add: decide_def decide_loop_count sat_sub_unat filter_sort_key_length)
qed

text \<open>The runnable tasks. In a snapshot without two records of the same task id, the tasks
  handed out are exactly those decided runnable, all eligible, at most as many as the free capacity,
  and the decisions do not depend on the order of the snapshot.\<close>

theorem runnable_exact:
  assumes "distinct (map tk_task_id tasks)" "mset tasks = mset tasks'"
  shows "set (runnable s tasks running) = {t \<in> set tasks. Runnable (tk_task_id t) \<in> set (decide s tasks running)} \<and>
    list_all (eligible s tasks) (runnable s tasks running) \<and>
    length (runnable s tasks running) \<le> unat (sc_max_invocations s) - unat running \<and>
    decide s tasks' running = decide s tasks running"
  using runnable_distinct [OF assms(1)] runnable_count [OF assms(1), of s running] decide_order_free [OF assms(2,1)]
  by (simp add: decide_def decide_loop_count sat_sub_unat)

definition demo_pending :: "string \<Rightarrow> TaskState" where
  "demo_pending tid = demo_room_task \<lparr> tk_task_id := tid, tk_state := ''pending'', tk_action := Some demo_action \<rparr>"

theorem runnable_exact_witness:
  "decide (new_scheduler ''@b'' 1) [demo_pending ''t2'', demo_pending ''t1''] 0 =
     decide (new_scheduler ''@b'' 1) [demo_pending ''t1'', demo_pending ''t2''] 0 \<and>
   length (runnable (new_scheduler ''@b'' 1) [demo_pending ''t1'', demo_pending ''t2''] 0) \<le> 1"
  using runnable_exact [of "[demo_pending ''t1'', demo_pending ''t2'']" "[demo_pending ''t2'', demo_pending ''t1'']"
      "new_scheduler ''@b'' 1" 0]
  by (simp add: demo_pending_def new_scheduler_def add_mset_commute)

text \<open>Two records that claim the same task id defeat the hand-out: a finished task is returned for
  execution next to a pending record of the same id.\<close>

lemma runnable_duplicate_ids:
  "demo_pending ''t1'' \<lparr> tk_state := ''succeeded'' \<rparr> \<in>
   set (runnable (new_scheduler ''@b'' 1) [demo_pending ''t1'', demo_pending ''t1'' \<lparr> tk_state := ''succeeded'' \<rparr>] 0)"
  by (simp add: runnable_def decide_def evaluate_def demo_pending_def demo_room_task_def is_terminal_def is_runnable_def
      task_states is_claimable_def new_scheduler_def unmet_dependencies_def action_from_task_def sat_sub_def Let_def)

end
