(* ===== verification/Event_Router.thy ===== *)
theory Event_Router
  imports Wire_Events Replay_Cache Event_Types
begin

text \<open>
  The event router, \<open>crates/mx-agent-daemon/src/event_router.rs\<close>: classification of Matrix events by
  type, parsing of their content, the replay check of requests that can start work, and the dispatch
  to at most one handler. The handler sink is the list of what was dispatched; the replay cache and
  its file are threaded through, and the clock and write outcome of an admission are parameters.
\<close>

subsection \<open>Events\<close>

definition ENCRYPTED_EVENT_TYPE :: string where
  "ENCRYPTED_EVENT_TYPE = ''m.room.encrypted''"

record IncomingEvent =
  ie_event_type :: string
  ie_room_id :: string
  ie_sender :: string
  ie_event_id :: "string option"
  ie_state_key :: "string option"
  ie_encrypted :: bool
  ie_content :: json

record EventMeta =
  em_event_type :: string
  em_room_id :: string
  em_sender :: string
  em_event_id :: "string option"
  em_state_key :: "string option"

datatype EventCategory =
    CatExecRequest | CatExecAccepted | CatExecRejected | CatExecFinished | CatExecStdin | CatExecCancel
  | CatExecCancelled | CatPtyResize | CatCallRequest | CatCallResponse | CatStreamChunk
  | CatStreamArtifact | CatTask | CatInvocation | CatApprovalRequest | CatApprovalDecision | CatHeartbeat

fun category_str :: "EventCategory \<Rightarrow> string" where
  "category_str CatExecRequest = ''exec.request''"
| "category_str CatExecAccepted = ''exec.accepted''"
| "category_str CatExecRejected = ''exec.rejected''"
| "category_str CatExecFinished = ''exec.finished''"
| "category_str CatExecStdin = ''exec.stdin''"
| "category_str CatExecCancel = ''exec.cancel''"
| "category_str CatExecCancelled = ''exec.cancelled''"
| "category_str CatPtyResize = ''pty.resize''"
| "category_str CatCallRequest = ''call.request''"
| "category_str CatCallResponse = ''call.response''"
| "category_str CatStreamChunk = ''stream.chunk''"
| "category_str CatStreamArtifact = ''stream.artifact''"
| "category_str CatTask = ''task''"
| "category_str CatInvocation = ''invocation''"
| "category_str CatApprovalRequest = ''approval.request''"
| "category_str CatApprovalDecision = ''approval.decision''"
| "category_str CatHeartbeat = ''heartbeat''"

fun is_privileged :: "EventCategory \<Rightarrow> bool" where
  "is_privileged CatExecRequest = True"
| "is_privileged CatExecStdin = True"
| "is_privileged CatExecCancel = True"
| "is_privileged CatCallRequest = True"
| "is_privileged CatPtyResize = True"
| "is_privileged _ = False"

definition classify :: "string \<Rightarrow> EventCategory option" where
  "classify event_type = map_of [
     (EXEC_REQUEST, CatExecRequest), (EXEC_ACCEPTED, CatExecAccepted), (EXEC_REJECTED, CatExecRejected),
     (EXEC_FINISHED, CatExecFinished), (EXEC_STDIN, CatExecStdin), (EXEC_CANCEL, CatExecCancel),
     (EXEC_CANCELLED, CatExecCancelled), (PTY_RESIZE, CatPtyResize), (CALL_REQUEST, CatCallRequest),
     (CALL_RESPONSE, CatCallResponse), (STREAM_CHUNK, CatStreamChunk), (STREAM_ARTIFACT, CatStreamArtifact),
     (APPROVAL_REQUEST, CatApprovalRequest), (APPROVAL_DECISION, CatApprovalDecision),
     (HEARTBEAT, CatHeartbeat), (TASK_STATE_TYPE, CatTask), (INVOCATION_STATE_TYPE, CatInvocation)] event_type"

datatype RoutedEvent =
    REExecRequest ExecRequest
  | REExecAccepted ExecAccepted
  | REExecRejected ExecRejected
  | REExecFinished ExecFinished
  | REExecStdin ExecStdin
  | REExecCancel ExecCancel
  | REExecCancelled ExecCancelled
  | REPtyResize PtyResize
  | RECallRequest CallRequest
  | RECallResponse CallResponse
  | REStreamChunk StreamChunk
  | REStreamArtifact StreamArtifact
  | RETask TaskState
  | REInvocation InvocationState
  | REApprovalRequest ApprovalRequest
  | REApprovalDecision ApprovalDecision
  | REHeartbeat Heartbeat

fun category :: "RoutedEvent \<Rightarrow> EventCategory" where
  "category (REExecRequest _) = CatExecRequest"
| "category (REExecAccepted _) = CatExecAccepted"
| "category (REExecRejected _) = CatExecRejected"
| "category (REExecFinished _) = CatExecFinished"
| "category (REExecStdin _) = CatExecStdin"
| "category (REExecCancel _) = CatExecCancel"
| "category (REExecCancelled _) = CatExecCancelled"
| "category (REPtyResize _) = CatPtyResize"
| "category (RECallRequest _) = CatCallRequest"
| "category (RECallResponse _) = CatCallResponse"
| "category (REStreamChunk _) = CatStreamChunk"
| "category (REStreamArtifact _) = CatStreamArtifact"
| "category (RETask _) = CatTask"
| "category (REInvocation _) = CatInvocation"
| "category (REApprovalRequest _) = CatApprovalRequest"
| "category (REApprovalDecision _) = CatApprovalDecision"
| "category (REHeartbeat _) = CatHeartbeat"

datatype RouteOutcome =
    Dispatched EventCategory
  | Ignored
  | SkippedEncrypted
  | MalformedEvent EventCategory
  | ReplayRejected EventCategory

fun was_dispatched :: "RouteOutcome \<Rightarrow> bool" where
  "was_dispatched (Dispatched _) = True"
| "was_dispatched _ = False"

fun parse_routed :: "EventCategory \<Rightarrow> json \<Rightarrow> RoutedEvent option" where
  "parse_routed CatExecRequest c = map_option REExecRequest (exec_request_from_json c)"
| "parse_routed CatExecAccepted c = map_option REExecAccepted (exec_accepted_from_json c)"
| "parse_routed CatExecRejected c = map_option REExecRejected (exec_rejected_from_json c)"
| "parse_routed CatExecFinished c = map_option REExecFinished (exec_finished_from_json c)"
| "parse_routed CatExecStdin c = map_option REExecStdin (exec_stdin_from_json c)"
| "parse_routed CatExecCancel c = map_option REExecCancel (exec_cancel_from_json c)"
| "parse_routed CatExecCancelled c = map_option REExecCancelled (exec_cancelled_from_json c)"
| "parse_routed CatPtyResize c = map_option REPtyResize (pty_resize_from_json c)"
| "parse_routed CatCallRequest c = map_option RECallRequest (call_request_from_json c)"
| "parse_routed CatCallResponse c = map_option RECallResponse (call_response_from_json c)"
| "parse_routed CatStreamChunk c = map_option REStreamChunk (stream_chunk_from_json c)"
| "parse_routed CatStreamArtifact c = map_option REStreamArtifact (stream_artifact_from_json c)"
| "parse_routed CatTask c = map_option RETask (task_state_from_json c)"
| "parse_routed CatInvocation c = map_option REInvocation (invocation_state_from_json c)"
| "parse_routed CatApprovalRequest c = map_option REApprovalRequest (approval_request_from_json c)"
| "parse_routed CatApprovalDecision c = map_option REApprovalDecision (decision_from_json c)"
| "parse_routed CatHeartbeat c = map_option REHeartbeat (heartbeat_from_json c)"

subsection \<open>Routing\<close>

fun replay_key :: "RoutedEvent \<Rightarrow> (string \<times> string) option" where
  "replay_key (REExecRequest req) = Some (xr_nonce req, xr_expires_at req)"
| "replay_key (RECallRequest req) = Some (cq_nonce req, cq_expires_at req)"
| "replay_key _ = None"

definition meta_of :: "IncomingEvent \<Rightarrow> EventMeta" where
  "meta_of event = \<lparr> em_event_type = ie_event_type event, em_room_id = ie_room_id event,
     em_sender = ie_sender event, em_event_id = ie_event_id event, em_state_key = ie_state_key event \<rparr>"

definition admit_decision_nonce ::
  "(StoredCache \<Rightarrow> string) \<Rightarrow> io_kind option \<Rightarrow> int \<Rightarrow> string \<Rightarrow> string \<Rightarrow> ReplayCache \<times> ReplayStore
    \<Rightarrow> bool \<times> ReplayCache \<times> ReplayStore" where
  "admit_decision_nonce enc wr now nonce expires_at s =
     (case admit_at enc wr nonce expires_at now s of (r, s') \<Rightarrow> (r = Inr (), s'))"

definition route ::
  "(StoredCache \<Rightarrow> string) \<Rightarrow> io_kind option \<Rightarrow> int \<Rightarrow> IncomingEvent \<Rightarrow> ReplayCache \<times> ReplayStore
    \<Rightarrow> RouteOutcome \<times> (EventMeta \<times> RoutedEvent) list \<times> ReplayCache \<times> ReplayStore" where
  "route enc wr now event s =
     (if ie_encrypted event \<or> ie_event_type event = ENCRYPTED_EVENT_TYPE then (SkippedEncrypted, [], s)
      else case classify (ie_event_type event) of
        None \<Rightarrow> (Ignored, [], s)
      | Some cat \<Rightarrow>
         (case parse_routed cat (ie_content event) of
            None \<Rightarrow> (MalformedEvent cat, [], s)
          | Some routed \<Rightarrow>
             (case replay_key routed of
                None \<Rightarrow> (Dispatched cat, [(meta_of event, routed)], s)
              | Some (nonce, expires_at) \<Rightarrow>
                 (case admit_at enc wr nonce expires_at now s of
                    (Inl _, s') \<Rightarrow> (ReplayRejected cat, [], s')
                  | (Inr _, s') \<Rightarrow> (Dispatched cat, [(meta_of event, routed)], s')))))"

subsection \<open>Events of a sync response\<close>

definition str_member :: "members \<Rightarrow> string \<Rightarrow> string option" where
  "str_member raw k = field as_string raw k"

text \<open>\<open>raw\<close> is the event as the SDK hands it over, decrypted when that was possible.\<close>

definition incoming_from_timeline :: "members \<Rightarrow> string option \<Rightarrow> string \<Rightarrow> IncomingEvent" where
  "incoming_from_timeline raw event_id room_id =
     (let event_type = unwrap_or (str_member raw ''type'') []
      in \<lparr> ie_event_type = event_type, ie_room_id = room_id,
           ie_sender = unwrap_or (str_member raw ''sender'') [], ie_event_id = event_id,
           ie_state_key = str_member raw ''state_key'',
           ie_encrypted = (event_type = ENCRYPTED_EVENT_TYPE),
           ie_content = unwrap_or (map_of raw ''content'') JNull \<rparr>)"

definition events_from_sync_response :: "(string \<times> (members \<times> string option) list) list \<Rightarrow> IncomingEvent list" where
  "events_from_sync_response joined =
     concat (map (\<lambda>(room, events). map (\<lambda>(raw, event_id). incoming_from_timeline raw event_id room) events) joined)"

text \<open>Events in order, each with its clock and the outcome of the write it may cause; the result is
  everything that was dispatched.\<close>

fun route_all ::
  "(StoredCache \<Rightarrow> string) \<Rightarrow> (int \<times> io_kind option \<times> IncomingEvent) list \<Rightarrow> ReplayCache \<times> ReplayStore
    \<Rightarrow> (EventMeta \<times> RoutedEvent) list" where
  "route_all enc [] s = []"
| "route_all enc ((now, wr, event) # evs) s =
     (case route enc wr now event s of (_, ds, s') \<Rightarrow> ds @ route_all enc evs s')"

subsection \<open>Lemmas\<close>

lemma parse_routed_category: "parse_routed cat v = Some r \<Longrightarrow> category r = cat"
  by (cases cat) auto

lemma replay_key_request:
  "replay_key r \<noteq> None \<longleftrightarrow> category r \<in> {CatExecRequest, CatCallRequest}"
  by (cases r) auto

lemma classify_table:
  "map classify timeline_ALL = [Some CatExecRequest, Some CatExecAccepted, Some CatExecRejected,
     Some CatExecFinished, Some CatExecStdin, Some CatExecCancel, Some CatExecCancelled, Some CatCallRequest,
     Some CatCallResponse, Some CatStreamChunk, Some CatStreamArtifact, None, Some CatHeartbeat,
     Some CatApprovalRequest, Some CatApprovalDecision, Some CatPtyResize]"
  by code_simp

lemma route_cases [consumes 1, case_names refused rejected passed admitted]:
  assumes "route enc wr now event (c, st) = (out, ds, c', st')"
  obtains (refused) "ds = []" "c' = c" "st' = st" "\<not> was_dispatched out"
  | (rejected) cat n x e where "ds = []" "out = ReplayRejected cat"
      "admit_at enc wr n x now (c, st) = (Inl e, c', st')"
  | (passed) r where "ds = [(meta_of event, r)]" "out = Dispatched (category r)" "replay_key r = None"
      "classify (ie_event_type event) = Some (category r)" "parse_routed (category r) (ie_content event) = Some r"
      "\<not> ie_encrypted event" "ie_event_type event \<noteq> ENCRYPTED_EVENT_TYPE" "c' = c" "st' = st"
  | (admitted) r n x where "ds = [(meta_of event, r)]" "out = Dispatched (category r)" "replay_key r = Some (n, x)"
      "classify (ie_event_type event) = Some (category r)" "parse_routed (category r) (ie_content event) = Some r"
      "\<not> ie_encrypted event" "ie_event_type event \<noteq> ENCRYPTED_EVENT_TYPE"
      "admit_at enc wr n x now (c, st) = (Inr (), c', st')"
proof (cases "ie_encrypted event \<or> ie_event_type event = ENCRYPTED_EVENT_TYPE")
  case True
  then show thesis using assms by (intro refused) (auto simp: route_def)
next
  case dec: False
  show thesis
  proof (cases "classify (ie_event_type event)")
    case None
    then show thesis using assms dec by (intro refused) (auto simp: route_def)
  next
    case cat: (Some cat)
    show thesis
    proof (cases "parse_routed cat (ie_content event)")
      case None
      then show thesis using assms dec cat by (intro refused) (auto simp: route_def)
    next
      case r: (Some r)
      note eq = assms [unfolded route_def] dec cat r parse_routed_category [OF r]
      show thesis
      proof (cases "replay_key r")
        case None
        then show thesis using eq by (intro passed [of r]) auto
      next
        case k: (Some k)
        obtain n x where nx: "k = (n, x)" by (cases k)
        obtain a s2 where a: "admit_at enc wr n x now (c, st) = (a, s2)" by (cases "admit_at enc wr n x now (c, st)")
        show thesis
        proof (cases a)
          case (Inl e)
          then show thesis using eq k nx a by (intro rejected [of cat n x e]) auto
        next
          case (Inr u)
          then show thesis using eq k nx a by (intro admitted [of r n x]) auto
        qed
      qed
    qed
  qed
qed

lemma route_spent:
  assumes "spent n e t c" "t \<le> now" "length (rc_nonces c) < rc_capacity c"
    and "route enc wr now event (c, st) = (out, ds, c', st')"
  shows "spent n e now c'"
  using assms(4)
proof (cases rule: route_cases)
  case (rejected cat m x err)
  with assms(1-3) show ?thesis by (intro spent_step [of n e t c now enc wr m x st])
next
  case (admitted r m x)
  with assms(1-3) show ?thesis by (intro spent_step [of n e t c now enc wr m x st])
qed (use assms(1,2) in \<open>auto simp: spent_def\<close>)

lemma route_length:
  assumes "length (rc_nonces c) < rc_capacity c" "route enc wr now event (c, st) = (out, ds, c', st')"
  shows "length (rc_nonces c') \<le> Suc (length (rc_nonces c)) \<and> rc_capacity c' = rc_capacity c"
  using assms(2)
  by (cases rule: route_cases) (use assms(1) admit_length in auto)

definition dispatched_keys :: "(EventMeta \<times> RoutedEvent) list \<Rightarrow> (string \<times> string) list" where
  "dispatched_keys ds = List.map_filter (replay_key \<circ> snd) ds"

lemma dispatched_keys_append [simp]: "dispatched_keys (a @ b) = dispatched_keys a @ dispatched_keys b"
  by (simp add: dispatched_keys_def map_filter_def)

lemma dispatched_keys_simps [simp]:
  "dispatched_keys [] = []"
  "dispatched_keys [(m, r)] = (case replay_key r of None \<Rightarrow> [] | Some k \<Rightarrow> [k])"
  by (simp_all add: dispatched_keys_def map_filter_def split: option.splits)

lemma route_key:
  assumes "route enc wr now event (c, st) = (out, ds, c', st')" "k \<in> set (dispatched_keys ds)"
  shows "dispatched_keys ds = [k] \<and> admit_at enc wr (fst k) (snd k) now (c, st) = (Inr (), c', st')"
  using assms(1) by (cases rule: route_cases) (use assms(2) in auto)

lemma route_all_spent:
  assumes "spent n e t c" "parse_rfc3339_to_unix x = Some e" "sorted (t # map fst evs)"
    "length (rc_nonces c) + length evs \<le> rc_capacity c"
  shows "(n, x) \<notin> set (dispatched_keys (route_all enc evs (c, st)))"
  using assms
proof (induction evs arbitrary: t c st)
  case (Cons q evs)
  obtain u w ev where q: "q = (u, w, ev)" by (cases q)
  obtain out ds c' st' where a: "route enc w u ev (c, st) = (out, ds, c', st')"
    by (cases "route enc w u ev (c, st)") auto
  have room: "length (rc_nonces c) < rc_capacity c" and t: "t \<le> u"
    using Cons.prems(3,4) by (simp_all add: q)
  have "(n, x) \<notin> set (dispatched_keys ds)"
  proof
    assume "(n, x) \<in> set (dispatched_keys ds)"
    from route_key [OF a this] have "admit_at enc w n x u (c, st) = (Inr (), c', st')" by simp
    moreover have "spent n e u c" using Cons.prems(1) t by (auto simp: spent_def)
    ultimately show False using spent_denied Cons.prems(2) by blast
  qed
  moreover have "(n, x) \<notin> set (dispatched_keys (route_all enc evs (c', st')))"
    using Cons.prems route_length [OF room a] route_spent [OF Cons.prems(1) t room a]
    by (intro Cons.IH [of u]) (auto simp: q)
  ultimately show ?case
    by (simp add: q a)
qed simp

lemma route_all_distinct:
  assumes "sorted (map fst evs)" "length (rc_nonces c) + length evs \<le> rc_capacity c"
  shows "distinct (dispatched_keys (route_all enc evs (c, st)))"
  using assms
proof (induction evs arbitrary: c st)
  case (Cons q evs)
  obtain u w ev where q: "q = (u, w, ev)" by (cases q)
  obtain out ds c' st' where a: "route enc w u ev (c, st) = (out, ds, c', st')"
    by (cases "route enc w u ev (c, st)") auto
  have room: "length (rc_nonces c) < rc_capacity c"
    using Cons.prems(2) by simp
  have l: "length (rc_nonces c') + length evs \<le> rc_capacity c'"
    using route_length [OF room a] Cons.prems(2) by simp
  have tl: "distinct (dispatched_keys (route_all enc evs (c', st')))"
    using Cons.prems(1) l by (intro Cons.IH) (simp_all add: q)
  show ?case
  proof (cases "dispatched_keys ds = []")
    case True
    with tl show ?thesis by (simp add: q a)
  next
    case False
    then obtain k where k: "k \<in> set (dispatched_keys ds)" by (cases "dispatched_keys ds") auto
    note ad = route_key [OF a k]
    obtain e where "parse_rfc3339_to_unix (snd k) = Some e" "spent (fst k) e u c'"
      using admitted_spent ad by blast
    then have "(fst k, snd k) \<notin> set (dispatched_keys (route_all enc evs (c', st')))"
      using Cons.prems(1) l by (intro route_all_spent [of _ e u]) (simp_all add: q)
    with tl ad show ?thesis by (simp add: q a)
  qed
qed simp

subsection \<open>Properties\<close>

definition demo_exec :: ExecRequest where
  "demo_exec = \<lparr> xr_invocation_id = ''inv_1'', xr_request_id = ''req_1'', xr_target_agent = ''b'',
     xr_requesting_agent = ''a'', xr_command = [''ls''], xr_cwd = ''/w'', xr_env = [], xr_stdin = False,
     xr_stream = True, xr_pty = False, xr_timeout_ms = 1000, xr_task_id = None,
     xr_created_at = ''2026-06-02T12:00:00Z'', xr_expires_at = ''2026-06-02T12:05:00Z'', xr_nonce = ''n1'',
     xr_idempotency_key = ''k'', xr_signature = \<lparr> sg_alg = ''ed25519'', sg_key_id = ''kid'', sg_sig = ''s'' \<rparr>, xr_extra = [] \<rparr>"

definition demo_event :: IncomingEvent where
  "demo_event = \<lparr> ie_event_type = EXEC_REQUEST, ie_room_id = ''!r'', ie_sender = ''@a'', ie_event_id = Some ''$1'',
     ie_state_key = None, ie_encrypted = False, ie_content = exec_request_to_json demo_exec \<rparr>"

lemma demo_exec_parses: "exec_request_from_json (exec_request_to_json demo_exec) = Some demo_exec"
  by (rule exec_request_roundtrip) (simp_all add: demo_exec_def bm_wf_def fresh_members_def)

lemma demo_routed:
  "\<exists>c' st'. route (\<lambda>_. []) None 100 demo_event (demo_cache, demo_store)
     = (Dispatched CatExecRequest, [(meta_of demo_event, REExecRequest demo_exec)], c', st')"
proof -
  have "ie_event_type demo_event = EXEC_REQUEST" "\<not> ie_encrypted demo_event"
    "ie_content demo_event = exec_request_to_json demo_exec"
    by (simp_all add: demo_event_def)
  moreover have "classify EXEC_REQUEST = Some CatExecRequest" "EXEC_REQUEST \<noteq> ENCRYPTED_EVENT_TYPE"
    by (simp_all add: classify_def EXEC_REQUEST_def ENCRYPTED_EVENT_TYPE_def)
  moreover have "replay_key (REExecRequest demo_exec) = Some (''n1'', ''2026-06-02T12:05:00Z'')"
    by (simp add: demo_exec_def)
  ultimately show ?thesis
    by (simp add: route_def demo_exec_parses admit_at_def demo_expiry demo_cache_def bm_get_def Let_def persist_def)
qed

text \<open>The gate of the router. At most one handler runs per event, and it runs only on an event
  that was decrypted, has a known type and whose content parses as that type; the handler gets the
  payload of that category and the metadata of the event. An execution or call request reaches it
  only when its expiry lies in the future and its nonce was not held before; then the nonce is held
  and the cache file contains the new table. Every other dispatch leaves cache and file alone.\<close>

theorem route_dispatch_gate:
  assumes "route enc wr now event (c, st) = (out, ds, c', st')" "(m, r) \<in> set ds"
  shows "ds = [(m, r)] \<and> out = Dispatched (category r) \<and> m = meta_of event \<and>
    \<not> ie_encrypted event \<and> ie_event_type event \<noteq> ENCRYPTED_EVENT_TYPE \<and>
    classify (ie_event_type event) = Some (category r) \<and>
    parse_routed (category r) (ie_content event) = Some r \<and>
    (case replay_key r of
       None \<Rightarrow> category r \<notin> {CatExecRequest, CatCallRequest} \<and> c' = c \<and> st' = st
     | Some (n, x) \<Rightarrow> category r \<in> {CatExecRequest, CatCallRequest} \<and> \<not> seen (c, st) n \<and> seen (c', st') n \<and>
         (case parse_rfc3339_to_unix x of None \<Rightarrow> False | Some e \<Rightarrow> now < e) \<and>
         rs_file st' = Inr (enc \<lparr> sc_capacity = rc_capacity c', sc_nonces = rc_nonces c' \<rparr>))"
  using assms(1)
proof (cases rule: route_cases)
  case (passed r')
  then show ?thesis
    using assms(2) replay_key_request [of r'] by simp
next
  case (admitted r' n x)
  have "case parse_rfc3339_to_unix x of None \<Rightarrow> False | Some e \<Rightarrow> now < e"
    using admitted(8) by (cases rule: admit_at_cases) auto
  then show ?thesis
    using admitted assms(2) replay_key_request [of r'] admit_at_fresh admit_at_persists(1) by auto
qed (use assms(2) in auto)

theorem route_dispatch_gate_witness:
  "\<exists>c' st'. route (\<lambda>_. []) None 100 demo_event (demo_cache, demo_store)
       = (Dispatched CatExecRequest, [(meta_of demo_event, REExecRequest demo_exec)], c', st') \<and>
     \<not> seen (demo_cache, demo_store) ''n1'' \<and> seen (c', st') ''n1''"
proof -
  obtain c' st' where r: "route (\<lambda>_. []) None 100 demo_event (demo_cache, demo_store)
      = (Dispatched CatExecRequest, [(meta_of demo_event, REExecRequest demo_exec)], c', st')"
    using demo_routed by blast
  have "\<not> seen (demo_cache, demo_store) ''n1'' \<and> seen (c', st') ''n1''"
    using route_dispatch_gate [OF r, of "meta_of demo_event" "REExecRequest demo_exec"]
    by (simp add: demo_exec_def)
  with r show ?thesis by blast
qed

text \<open>C32. Requests start at most once. Of the events of a session that arrive in the order of time
  at a cache with room for them, no two dispatched execution or call requests carry the same nonce
  and expiry, whatever else arrives between them and whichever writes fail.\<close>

theorem requests_dispatched_once:
  assumes "sorted (map fst evs)" "length (rc_nonces c) + length evs \<le> rc_capacity c"
  shows "distinct (dispatched_keys (route_all enc evs (c, st)))"
  using assms by (rule route_all_distinct)

theorem requests_dispatched_once_witness:
  "distinct (dispatched_keys (route_all (\<lambda>_. []) [(100, None, demo_event), (200, None, demo_event)] (demo_cache, demo_store)))"
  by (rule requests_dispatched_once) (simp_all add: demo_cache_def)

end
