(* ===== verification/Approval.thy ===== *)
theory Approval
  imports Event_Router Policy_Engine Trust_Store Room_State "HOL-Library.Multiset" "HOL-Library.Countable"
begin

text \<open>
  Approvals, \<open>crates/mx-agent-daemon/src/approval.rs\<close>: whether an authorized request runs or is
  held, the request for approval that is emitted, the local queue of held requests and its file, the
  redacted views of it, decisions with their verification, and deciding a queued request. The JSON
  text of the queue file is the pair of parameters \<open>prt\<close> and \<open>rd\<close> (\<open>serde_json\<close>); its content
  is what \<open>fs::read\<close> gives, and the outcome of a write is a parameter.
\<close>

subsection \<open>Dispositions\<close>

definition risk_for :: "Allowance \<Rightarrow> string" where
  "risk_for limits =
     (let networked = (al_network limits = Some NetAllow);
          unsandboxed = (al_sandbox limits = None \<or> al_sandbox limits = Some SbNone)
      in if networked \<or> unsandboxed then ''high'' else ''medium'')"

definition summary_for :: "ExecRequest \<Rightarrow> string" where
  "summary_for request = ''Run '' @ join_with '' '' (xr_command request) @ '' in '' @ xr_cwd request"

definition approval_request_for :: "ExecRequest \<Rightarrow> Allowance \<Rightarrow> ApprovalRequest" where
  "approval_request_for request limits = \<lparr>
     aq_request_id = xr_request_id request, aq_invocation_id = xr_invocation_id request,
     aq_requester = xr_requesting_agent request, aq_target = xr_target_agent request,
     aq_summary = summary_for request, aq_risk = risk_for limits,
     aq_expires_at = xr_expires_at request, aq_extra = [] \<rparr>"

definition approval_request_for_call :: "CallRequest \<Rightarrow> Allowance \<Rightarrow> ApprovalRequest" where
  "approval_request_for_call request limits = \<lparr>
     aq_request_id = cq_request_id request, aq_invocation_id = cq_invocation_id request,
     aq_requester = unwrap_or (cq_requesting_agent request) [],
     aq_target = unwrap_or (cq_target_agent request) [],
     aq_summary = ''Call tool '' @ cq_tool request, aq_risk = risk_for limits,
     aq_expires_at = cq_expires_at request, aq_extra = [] \<rparr>"

datatype ExecDisposition = Execute ExecRequest | RequiresApproval ExecRequest ApprovalRequest

fun requires_approval :: "ExecDisposition \<Rightarrow> bool" where
  "requires_approval (RequiresApproval _ _) = True"
| "requires_approval (Execute _) = False"

fun executable :: "ExecDisposition \<Rightarrow> ExecRequest option" where
  "executable (Execute request) = Some request"
| "executable (RequiresApproval _ _) = None"

definition disposition_for_exec :: "ExecRequest \<Rightarrow> Allowance \<Rightarrow> ExecDisposition" where
  "disposition_for_exec request limits =
     (if al_requires_approval limits
      then RequiresApproval request (approval_request_for request limits)
      else Execute request)"

datatype CallDisposition = CallExecute CallRequest | CallRequiresApproval CallRequest ApprovalRequest

fun call_requires_approval :: "CallDisposition \<Rightarrow> bool" where
  "call_requires_approval (CallRequiresApproval _ _) = True"
| "call_requires_approval (CallExecute _) = False"

fun call_executable :: "CallDisposition \<Rightarrow> CallRequest option" where
  "call_executable (CallExecute request) = Some request"
| "call_executable (CallRequiresApproval _ _) = None"

definition disposition_for_call :: "CallRequest \<Rightarrow> Allowance \<Rightarrow> CallDisposition" where
  "disposition_for_call request limits =
     (if al_requires_approval limits
      then CallRequiresApproval request (approval_request_for_call request limits)
      else CallExecute request)"

definition emit_approval_request :: "Env \<Rightarrow> ApprovalRequest \<Rightarrow> Room \<Rightarrow> (WorkspaceError, unit) result \<times> Room" where
  "emit_approval_request env request rm = send_raw env APPROVAL_REQUEST (approval_request_to_json request) rm"

subsection \<open>The queue\<close>

datatype HeldRequest = HeldExec ExecRequest | HeldCall CallRequest

fun redacted_for_inspection :: "HeldRequest \<Rightarrow> HeldRequest" where
  "redacted_for_inspection (HeldExec req) = HeldExec (req \<lparr> xr_command := [], xr_env := [], xr_extra := [] \<rparr>)"
| "redacted_for_inspection (HeldCall req) = HeldCall (req \<lparr> cq_args := JNull, cq_extra := [] \<rparr>)"

record PendingApproval =
  pa_room_id :: string
  pa_request :: ApprovalRequest
  pa_held_request :: "HeldRequest option"
  pa_requester_user :: "string option"

definition pa_request_id :: "PendingApproval \<Rightarrow> string" where
  "pa_request_id p = aq_request_id (pa_request p)"

type_synonym ApprovalQueue = "PendingApproval list"

definition pending_in_room :: "ApprovalQueue \<Rightarrow> string \<Rightarrow> PendingApproval list" where
  "pending_in_room q room_id = filter (\<lambda>p. pa_room_id p = room_id) q"

definition queue_get :: "ApprovalQueue \<Rightarrow> string \<Rightarrow> PendingApproval option" where
  "queue_get q request_id = find (\<lambda>p. pa_request_id p = request_id) q"

definition enqueue :: "PendingApproval \<Rightarrow> ApprovalQueue \<Rightarrow> ApprovalQueue" where
  "enqueue approval q = (case position_from 0 (\<lambda>p. pa_request_id p = pa_request_id approval) q of
       Some idx \<Rightarrow> q[idx := approval]
     | None \<Rightarrow> q @ [approval])"

definition queue_remove :: "string \<Rightarrow> ApprovalQueue \<Rightarrow> PendingApproval option \<times> ApprovalQueue" where
  "queue_remove request_id q = (case position_from 0 (\<lambda>p. pa_request_id p = request_id) q of
       None \<Rightarrow> (None, q)
     | Some idx \<Rightarrow> (Some (q ! idx), take idx q @ drop (Suc idx) q))"

subsection \<open>The queue file\<close>

fun held_request_to_json :: "HeldRequest \<Rightarrow> json" where
  "held_request_to_json (HeldExec req) = JObject [(''exec'', exec_request_to_json req)]"
| "held_request_to_json (HeldCall req) = JObject [(''call'', call_request_to_json req)]"

definition held_request_from_json :: "json \<Rightarrow> HeldRequest option" where
  "held_request_from_json v = (case v of
       JObject [(tag, content)] \<Rightarrow>
         if tag = ''exec'' then map_option HeldExec (exec_request_from_json content)
         else if tag = ''call'' then map_option HeldCall (call_request_from_json content)
         else None
     | _ \<Rightarrow> None)"

definition pending_to_json :: "PendingApproval \<Rightarrow> json" where
  "pending_to_json p = JObject ([
     (''room_id'', JString (pa_room_id p)), (''request'', approval_request_to_json (pa_request p))] @
     opt_member ''held_request'' held_request_to_json (pa_held_request p) @
     opt_member ''requester_user'' JString (pa_requester_user p))"

text \<open>A struct without unknown members is also read from the sequence of its fields.\<close>

definition opt_value :: "(json \<Rightarrow> 'a option) \<Rightarrow> json \<Rightarrow> 'a option option" where
  "opt_value f v = (if v = JNull then Some None else map_option Some (f v))"

definition pending_from_seq :: "json list \<Rightarrow> PendingApproval option" where
  "pending_from_seq vs = (case vs of
       r # q # opts \<Rightarrow>
         if 2 < length opts then None
         else do {
           r' \<leftarrow> as_string r;
           q' \<leftarrow> approval_request_from_json q;
           h \<leftarrow> (if 0 < length opts then opt_value held_request_from_json (opts ! 0) else Some None);
           u \<leftarrow> (if 1 < length opts then opt_value as_string (opts ! 1) else Some None);
           Some \<lparr> pa_room_id = r', pa_request = q', pa_held_request = h, pa_requester_user = u \<rparr> }
     | _ \<Rightarrow> None)"

fun pending_from_json :: "json \<Rightarrow> PendingApproval option" where
  "pending_from_json (JObject m) = do {
     r \<leftarrow> field as_string m ''room_id'';
     q \<leftarrow> field approval_request_from_json m ''request'';
     h \<leftarrow> opt_field held_request_from_json m ''held_request'';
     u \<leftarrow> opt_field as_string m ''requester_user'';
     Some \<lparr> pa_room_id = r, pa_request = q, pa_held_request = h, pa_requester_user = u \<rparr> }"
| "pending_from_json (JArray vs) = pending_from_seq vs"
| "pending_from_json _ = None"

definition queue_to_json :: "ApprovalQueue \<Rightarrow> json" where
  "queue_to_json q = JObject [(''pending'', JArray (map pending_to_json q))]"

definition as_pending :: "json \<Rightarrow> ApprovalQueue option" where
  "as_pending v = (case v of JArray vs \<Rightarrow> all_some (map pending_from_json vs) | _ \<Rightarrow> None)"

fun queue_from_json :: "json \<Rightarrow> ApprovalQueue option" where
  "queue_from_json (JObject m) = default_field [] as_pending m ''pending''"
| "queue_from_json (JArray []) = Some []"
| "queue_from_json (JArray [v]) = as_pending v"
| "queue_from_json _ = None"

type_synonym queue_file = "(io_error, string) result"

definition queue_load :: "(string \<Rightarrow> json option) \<Rightarrow> queue_file \<Rightarrow> (io_error, ApprovalQueue) result" where
  "queue_load rd file = (case file of
       Inr content \<Rightarrow> ok_or (Option.bind (rd content) queue_from_json) (IoError OtherKind ''invalid data'')
     | Inl e \<Rightarrow> if io_kind e = NotFound then Inr [] else Inl e)"

text \<open>The file is replaced by a rename, so a failed write leaves the old content.\<close>

definition queue_save ::
  "(json \<Rightarrow> string) \<Rightarrow> io_error option \<Rightarrow> ApprovalQueue \<Rightarrow> queue_file \<Rightarrow> (io_error, unit) result \<times> queue_file" where
  "queue_save prt wr q file = (case wr of
       Some e \<Rightarrow> (Inl e, file)
     | None \<Rightarrow> (Inr (), Inr (prt (queue_to_json q))))"

definition redact_pending :: "PendingApproval \<Rightarrow> PendingApproval" where
  "redact_pending p = p \<lparr> pa_held_request := map_option redacted_for_inspection (pa_held_request p) \<rparr>"

definition list_pending_approvals ::
  "(string \<Rightarrow> json option) \<Rightarrow> queue_file \<Rightarrow> string option \<Rightarrow> (io_error, PendingApproval list) result" where
  "list_pending_approvals rd file room =
     and_then (queue_load rd file) (\<lambda>q.
     let pending = (case room of Some room_id \<Rightarrow> pending_in_room q room_id | None \<Rightarrow> q)
     in Inr (map redact_pending (sort_key pa_request_id pending)))"

definition get_pending_approval ::
  "(string \<Rightarrow> json option) \<Rightarrow> queue_file \<Rightarrow> string \<Rightarrow> (io_error, PendingApproval option) result" where
  "get_pending_approval rd file request_id =
     and_then (queue_load rd file) (\<lambda>q. Inr (map_option redact_pending (queue_get q request_id)))"

subsection \<open>Decisions\<close>

definition DECISION_APPROVED :: string where "DECISION_APPROVED = ''approved''"

definition DECISION_DENIED :: string where "DECISION_DENIED = ''denied''"

definition approval_decision_for :: "string \<Rightarrow> string \<Rightarrow> string \<Rightarrow> string \<Rightarrow> ApprovalDecision" where
  "approval_decision_for request_id decision approved_by created_at = \<lparr>
     dc_request_id = request_id, dc_decision = decision, dc_approved_by = approved_by,
     dc_created_at = created_at, dc_nonce = None, dc_expires_at = None, dc_signature = None, dc_extra = [] \<rparr>"

definition decision_permits_spawn :: "ApprovalDecision \<Rightarrow> bool" where
  "decision_permits_spawn d \<longleftrightarrow> dc_decision d = DECISION_APPROVED"

definition emit_approval_decision :: "Env \<Rightarrow> ApprovalDecision \<Rightarrow> Room \<Rightarrow> (WorkspaceError, unit) result \<times> Room" where
  "emit_approval_decision env decision rm = send_raw env APPROVAL_DECISION (decision_to_json decision) rm"

text \<open>\<open>entry(k).or_insert(v)\<close>.\<close>

definition or_insert :: "string \<Rightarrow> 'v \<Rightarrow> 'v bmap \<Rightarrow> 'v bmap" where
  "or_insert k v m = (if bm_get m k = None then bm_insert k v m else m)"

definition decision_content :: "members \<Rightarrow> ApprovalDecision option" where
  "decision_content raw =
     (if str_member raw ''type'' = Some APPROVAL_DECISION then field decision_from_json raw ''content'' else None)"

text \<open>\<open>chunk\<close> is what the homeserver answers for the newest timeline events, newest first.\<close>

definition read_approval_decisions ::
  "(WorkspaceError, members list) result \<Rightarrow> (WorkspaceError, ApprovalDecision bmap) result" where
  "read_approval_decisions messages =
     and_then messages (\<lambda>chunk.
     Inr (fold (\<lambda>raw decisions. case decision_content raw of
         None \<Rightarrow> decisions
       | Some d \<Rightarrow> or_insert (dc_request_id d) d decisions) chunk []))"

record 'vk DecisionVerification =
  dv_local_user :: string
  dv_approvers :: "string list"
  dv_verifying_keys :: "'vk bmap"
  dv_trust :: TrustStore
  dv_now_unix :: int

definition verification_failure ::
  "('sk, 'vk) crypto \<Rightarrow> ApprovalDecision \<Rightarrow> string \<Rightarrow> 'vk DecisionVerification \<Rightarrow> string option" where
  "verification_failure cr decision sender ctx =
     (let authorized = (sender \<noteq> [] \<and> (sender = dv_local_user ctx \<or> sender \<in> set (dv_approvers ctx)))
      in if \<not> authorized then Some ''untrusted_sender''
         else case dc_signature decision of
           None \<Rightarrow> Some ''missing_signature''
         | Some signature \<Rightarrow>
            (case bm_get (dv_verifying_keys ctx) (sg_key_id signature) of
               None \<Rightarrow> Some ''unresolved_key''
             | Some key \<Rightarrow>
                if \<not> is_key_trusted (dv_trust ctx) (sg_key_id signature) then Some ''untrusted_key''
                else if isl (verify_approval_decision cr key decision) then Some ''invalid_signature''
                else case (dc_nonce decision, dc_expires_at decision) of
                  (Some _, Some expires_at) \<Rightarrow>
                    (case parse_rfc3339_to_unix expires_at of
                       None \<Rightarrow> Some ''malformed_expiry''
                     | Some expiry \<Rightarrow> if expiry \<le> dv_now_unix ctx then Some ''decision_expired'' else None)
                | _ \<Rightarrow> Some ''missing_replay_material''))"

definition verified_step ::
  "('sk, 'vk) crypto \<Rightarrow> 'vk DecisionVerification \<Rightarrow> members \<Rightarrow> ApprovalDecision bmap \<Rightarrow> ApprovalDecision bmap" where
  "verified_step cr ctx raw decisions = (case decision_content raw of
       None \<Rightarrow> decisions
     | Some d \<Rightarrow>
        if verification_failure cr d (unwrap_or (str_member raw ''sender'') []) ctx \<noteq> None then decisions
        else or_insert (dc_request_id d) d decisions)"

definition read_verified_approval_decisions ::
  "('sk, 'vk) crypto \<Rightarrow> 'vk DecisionVerification \<Rightarrow> (WorkspaceError, members list) result
    \<Rightarrow> (WorkspaceError, ApprovalDecision bmap) result" where
  "read_verified_approval_decisions cr ctx messages =
     and_then messages (\<lambda>chunk. Inr (fold (verified_step cr ctx) chunk []))"

subsection \<open>Expiry\<close>

definition APPROVAL_REQUEST_TTL :: u64 where "APPROVAL_REQUEST_TTL = 3600"

definition approval_request_expiry :: "u64 \<Rightarrow> u64 \<Rightarrow> string" where
  "approval_request_expiry now ttl = unix_to_rfc3339 (sat_add now ttl)"

definition approval_request_expired :: "string \<Rightarrow> int \<Rightarrow> bool" where
  "approval_request_expired expires_at now_unix = (case parse_rfc3339_to_unix expires_at of
       Some expiry \<Rightarrow> expiry \<le> now_unix
     | None \<Rightarrow> False)"

subsection \<open>Deciding\<close>

record ApprovalDecisionRecord =
  ar_decision :: ApprovalDecision
  ar_room_id :: string

definition ar_approved :: "ApprovalDecisionRecord \<Rightarrow> bool" where
  "ar_approved r = decision_permits_spawn (ar_decision r)"

text \<open>What the daemon has at hand: the restored session, its signing key with the key id, and the
  outcome of writing the queue file.\<close>

record ('sk, 'vk) DecideEnv =
  de_crypto :: "('sk, 'vk) crypto"
  de_env :: Env
  de_client :: "(WorkspaceError, unit) result"
  de_key :: "(string, 'sk \<times> string) result"
  de_print :: "json \<Rightarrow> string"
  de_read :: "string \<Rightarrow> json option"
  de_write :: "io_error option"

definition signature_io_error :: "SignatureError \<Rightarrow> WorkspaceError" where
  "signature_io_error e = WsIo ''signature''"

definition signed_decision ::
  "('sk, 'vk) DecideEnv \<Rightarrow> string \<Rightarrow> string \<Rightarrow> string \<Rightarrow> (WorkspaceError, ApprovalDecision) result" where
  "signed_decision de request_id decision approved_by =
     (let env = de_env de;
          content = (approval_decision_for request_id decision approved_by (now_rfc3339 env)) \<lparr>
            dc_nonce := Some (en_nonce env),
            dc_expires_at := Some (approval_request_expiry (en_now env) APPROVAL_REQUEST_TTL) \<rparr>
      in and_then (map_err WsIo (de_key de)) (\<lambda>(sk, key_id).
         map_err signature_io_error (sign_approval_decision (de_crypto de) sk key_id content)))"

definition publish_decision ::
  "('sk, 'vk) DecideEnv \<Rightarrow> string \<Rightarrow> string \<Rightarrow> string \<Rightarrow> Room \<Rightarrow> (WorkspaceError, ApprovalDecision) result \<times> Room" where
  "publish_decision de request_id decision approved_by rm = (case signed_decision de request_id decision approved_by of
       Inl e \<Rightarrow> (Inl e, rm)
     | Inr content \<Rightarrow> (case emit_approval_decision (de_env de) content rm of
          (Inl e, rm') \<Rightarrow> (Inl e, rm')
        | (Inr _, rm') \<Rightarrow> (Inr content, rm')))"

definition decide_approval_for_session ::
  "('sk, 'vk) DecideEnv \<Rightarrow> string \<Rightarrow> string \<Rightarrow> string \<Rightarrow> Client \<times> queue_file
    \<Rightarrow> (WorkspaceError, ApprovalDecisionRecord) result \<times> Client \<times> queue_file" where
  "decide_approval_for_session de request_id decision approved_by = (\<lambda>(cl, file).
     case queue_load (de_read de) file of
       Inl e \<Rightarrow> (Inl (WsIo (io_text e)), cl, file)
     | Inr queue \<Rightarrow>
        (case queue_get queue request_id of
           None \<Rightarrow> (Inl (ApprovalNotFound request_id), cl, file)
         | Some pending \<Rightarrow>
            (case de_client de of
               Inl e \<Rightarrow> (Inl e, cl, file)
             | Inr _ \<Rightarrow>
                (case in_room cl (pa_room_id pending) (publish_decision de request_id decision approved_by) of
                   (Inl e, cl') \<Rightarrow> (Inl e, cl', file)
                 | (Inr content, cl') \<Rightarrow>
                    (let outcome = \<lparr> ar_decision = content, ar_room_id = pa_room_id pending \<rparr>
                     in if pa_held_request pending = None then
                          (case queue_save (de_print de) (de_write de) (snd (queue_remove request_id queue)) file of
                             (Inl e, file') \<Rightarrow> (Inl (WsIo (io_text e)), cl', file')
                           | (Inr _, file') \<Rightarrow> (Inr outcome, cl', file'))
                        else (Inr outcome, cl', file))))))"

subsection \<open>The queue interface\<close>

text \<open>What the holders of the queue rely on: at most one entry per request id, which a lookup
  finds, a second enqueue replaces and a removal takes away for good.\<close>

locale keyed_queue =
  fixes key :: "'e \<Rightarrow> string"
    and get :: "'q \<Rightarrow> string \<Rightarrow> 'e option"
    and put :: "'e \<Rightarrow> 'q \<Rightarrow> 'q"
    and rem :: "string \<Rightarrow> 'q \<Rightarrow> 'q"
    and invar :: "'q \<Rightarrow> bool"
  assumes put_get: "invar q \<Longrightarrow> get (put e q) k = (if k = key e then Some e else get q k)"
    and rem_get: "invar q \<Longrightarrow> get (rem j q) k = (if k = j then None else get q k)"
    and put_invar: "invar q \<Longrightarrow> invar (put e q)"
    and rem_invar: "invar q \<Longrightarrow> invar (rem k q)"
    and get_key: "get q k = Some e \<Longrightarrow> key e = k"
begin

lemma removed_stays: "invar q \<Longrightarrow> get (rem j (rem k q)) k = None"
  by (simp add: rem_get rem_invar)

lemma put_twice: "invar q \<Longrightarrow> key e = key e' \<Longrightarrow> get (put e' (put e q)) k = get (put e' q) k"
  by (simp add: put_get put_invar)

lemma held_until_removed: "invar q \<Longrightarrow> k \<noteq> j \<Longrightarrow> get q k = Some e \<Longrightarrow> get (rem j q) k = Some e"
  by (simp add: rem_get)

text \<open>A history of enqueues and removals acts like the updates of a finite map.\<close>

lemma history_invar: "invar q \<Longrightarrow> invar (fold (case_sum put rem) ops q)"
  by (induction ops arbitrary: q) (auto simp: put_invar rem_invar split: sum.splits)

lemma history_get:
  "invar q \<Longrightarrow> get (fold (case_sum put rem) ops q) k =
     fold (case_sum (\<lambda>e m. m(key e \<mapsto> e)) (\<lambda>j m. m(j := None))) ops (get q) k"
proof (induction ops arbitrary: q)
  case (Cons op ops)
  have "get (case_sum put rem op q) = case_sum (\<lambda>e m. m(key e \<mapsto> e)) (\<lambda>j m. m(j := None)) op (get q)"
    using Cons.prems by (cases op) (auto simp: put_get rem_get fun_eq_iff)
  moreover have "invar (case_sum put rem op q)"
    using Cons.prems by (cases op) (auto simp: put_invar rem_invar)
  ultimately show ?case
    using Cons.IH by simp
qed simp

end

subsection \<open>The queue implements it\<close>

definition queue_inv :: "ApprovalQueue \<Rightarrow> bool" where
  "queue_inv q \<longleftrightarrow> distinct (map pa_request_id q)"

lemma find_id: "find (\<lambda>p. pa_request_id p = k) q = Some e \<Longrightarrow> e \<in> set q \<and> pa_request_id e = k"
  by (auto simp: find_Some_iff)

lemma queue_get_iff:
  "queue_inv q \<Longrightarrow> queue_get q k = Some e \<longleftrightarrow> e \<in> set q \<and> pa_request_id e = k"
  by (induction q) (auto simp: queue_inv_def queue_get_def rev_image_eqI split: if_splits)

lemma queue_get_None: "queue_get q k = None \<longleftrightarrow> k \<notin> pa_request_id ` set q"
  by (auto simp: queue_get_def find_None_iff)

lemma queue_position:
  "position_from 0 (\<lambda>p. pa_request_id p = k) q = Some i \<Longrightarrow> i < length q \<and> pa_request_id (q ! i) = k"
  using position_from_Some by fastforce

lemma queue_position_None: "position_from 0 (\<lambda>p. pa_request_id p = k) q = None \<longleftrightarrow> k \<notin> pa_request_id ` set q"
  by (auto simp: position_from_None list_ex_iff image_iff)

lemma enqueue_ids:
  "map pa_request_id (enqueue e q) =
     (if pa_request_id e \<in> pa_request_id ` set q then map pa_request_id q else map pa_request_id q @ [pa_request_id e])"
proof (cases "position_from 0 (\<lambda>p. pa_request_id p = pa_request_id e) q")
  case None
  note absent = iffD1 [OF queue_position_None None]
  show ?thesis using absent by (auto simp: enqueue_def None)
next
  case (Some i)
  note i = queue_position [OF Some]
  then have "pa_request_id e \<in> pa_request_id ` set q"
    by (intro image_eqI [of _ _ "q ! i"]) simp_all
  moreover have "(map pa_request_id q)[i := pa_request_id e] = map pa_request_id q"
    using i by (intro nth_equalityI) (auto simp: nth_list_update)
  ultimately show ?thesis
    using Some by (simp add: enqueue_def map_update)
qed

lemma enqueue_inv [mx_inv]: "queue_inv q \<Longrightarrow> queue_inv (enqueue e q)"
  by (simp add: queue_inv_def enqueue_ids image_iff)

lemma enqueue_set:
  assumes "queue_inv q"
  shows "set (enqueue e q) = insert e {p \<in> set q. pa_request_id p \<noteq> pa_request_id e}"
proof (cases "position_from 0 (\<lambda>p. pa_request_id p = pa_request_id e) q")
  case None
  note absent = iffD1 [OF queue_position_None None]
  have "pa_request_id p \<noteq> pa_request_id e" if "p \<in> set q" for p
    using absent imageI [OF that, of pa_request_id] by auto
  then have "{p \<in> set q. pa_request_id p \<noteq> pa_request_id e} = set q"
    by auto
  then show ?thesis by (simp add: enqueue_def None)
next
  case (Some i)
  note i = queue_position [OF Some]
  have d: "distinct q"
    using assms by (simp add: queue_inv_def distinct_map)
  have "p = q ! i" if "p \<in> set q" "pa_request_id p = pa_request_id e" for p
    using assms i that by (intro inj_onD [of pa_request_id "set q"]) (simp_all add: queue_inv_def distinct_map)
  then show ?thesis
    using Some i d by (auto simp: enqueue_def set_update_distinct)
qed

lemma queue_remove_snd:
  assumes "queue_inv q"
  shows "snd (queue_remove k q) = filter (\<lambda>p. pa_request_id p \<noteq> k) q"
proof (cases "position_from 0 (\<lambda>p. pa_request_id p = k) q")
  case None
  note absent = iffD1 [OF queue_position_None None]
  have "filter (\<lambda>p. pa_request_id p \<noteq> k) q = q"
    using absent by (auto simp: filter_id_conv)
  then show ?thesis by (simp add: queue_remove_def None)
next
  case (Some i)
  note i = queue_position [OF Some]
  have q: "q = take i q @ q ! i # drop (Suc i) q"
    using i by (simp add: id_take_nth_drop)
  have "distinct (map pa_request_id (take i q @ q ! i # drop (Suc i) q))"
    using assms q by (simp add: queue_inv_def)
  then have "k \<notin> pa_request_id ` set (take i q)" "k \<notin> pa_request_id ` set (drop (Suc i) q)"
    using i by (auto simp del: set_drop_subset)
  then have "filter (\<lambda>p. pa_request_id p \<noteq> k) (take i q) = take i q"
    "filter (\<lambda>p. pa_request_id p \<noteq> k) (drop (Suc i) q) = drop (Suc i) q"
    by (auto simp: filter_id_conv)
  then have "filter (\<lambda>p. pa_request_id p \<noteq> k) (take i q @ q ! i # drop (Suc i) q) = take i q @ drop (Suc i) q"
    using i by simp
  then show ?thesis
    using Some q by (simp add: queue_remove_def)
qed

lemma queue_remove_inv [mx_inv]: "queue_inv q \<Longrightarrow> queue_inv (snd (queue_remove k q))"
  by (simp add: queue_remove_snd) (simp add: queue_inv_def distinct_map_filter)

lemma queue_get_filter: "queue_get (filter (\<lambda>p. pa_request_id p \<noteq> j) q) k = (if k = j then None else queue_get q k)"
  by (induction q) (auto simp: queue_get_def)

lemma option_ext: "(\<And>x. a = Some x \<longleftrightarrow> b = Some x) \<Longrightarrow> a = b"
  by (cases a; cases b) auto

interpretation aq: keyed_queue pa_request_id queue_get enqueue "\<lambda>k q. snd (queue_remove k q)" queue_inv
proof unfold_locales
  show "queue_get (enqueue e q) k = (if k = pa_request_id e then Some e else queue_get q k)" if h: "queue_inv q" for e q k
    by (rule option_ext) (auto simp: queue_get_iff [OF h] queue_get_iff [OF enqueue_inv [OF h]] enqueue_set [OF h])
  show "queue_get (snd (queue_remove j q)) k = (if k = j then None else queue_get q k)" if h: "queue_inv q" for j q k
    by (simp add: queue_remove_snd [OF h] queue_get_filter)
qed (auto simp: enqueue_inv queue_remove_inv queue_get_def dest: find_id)

subsection \<open>Round trip of the queue file\<close>

definition held_wf :: "HeldRequest \<Rightarrow> bool" where
  "held_wf h = (case h of
       HeldExec r \<Rightarrow> bm_wf (xr_env r) \<and> fresh_members exec_fields (xr_extra r)
     | HeldCall r \<Rightarrow> fresh_members call_fields (cq_extra r))"

definition pending_wf :: "PendingApproval \<Rightarrow> bool" where
  "pending_wf p \<longleftrightarrow> fresh_members approval_request_fields (aq_extra (pa_request p)) \<and> pred_option held_wf (pa_held_request p)"

lemma approval_request_roundtrip:
  assumes "fresh_members approval_request_fields (aq_extra r)"
  shows "approval_request_from_json (approval_request_to_json r) = Some r"
proof -
  have "others approval_request_fields (aq_extra r) = aq_extra r"
    using assms by simp
  then show ?thesis
    by (simp add: approval_request_from_json_def approval_request_to_json_def others_Cons approval_request_fields_def)
qed

lemma held_roundtrip: "held_wf h \<Longrightarrow> held_request_from_json (held_request_to_json h) = Some h"
  by (cases h) (simp_all add: held_wf_def held_request_from_json_def exec_request_roundtrip call_request_roundtrip)

lemma pending_roundtrip: "pending_wf p \<Longrightarrow> pending_from_json (pending_to_json p) = Some p"
proof -
  assume wf: "pending_wf p"
  have r: "approval_request_from_json (approval_request_to_json (pa_request p)) = Some (pa_request p)"
    using wf by (simp add: pending_wf_def approval_request_roundtrip)
  have "held_request_to_json h \<noteq> JNull" for h
    by (cases h) simp_all
  then have o: "opt_field held_request_from_json ((''held_request'', held_request_to_json h) # m) ''held_request'' = Some (Some h)"
    if "held_wf h" for h m
    using held_roundtrip [OF that] by (auto simp: opt_field_def split: json.splits)
  obtain room q h u where p: "p = \<lparr> pa_room_id = room, pa_request = q, pa_held_request = h, pa_requester_user = u \<rparr>"
    by (cases p)
  show ?thesis
    using wf r o
    by (cases h; cases u; simp add: p pending_to_json_def pending_wf_def opt_member_def; simp add: opt_field_def)
qed

lemma all_some_map: "list_all (\<lambda>x. f x = Some (g x)) xs \<Longrightarrow> all_some (map f xs) = Some (map g xs)"
  by (induction xs) auto

lemma queue_roundtrip: "list_all pending_wf q \<Longrightarrow> queue_from_json (queue_to_json q) = Some q"
  using all_some_map [of "pending_from_json \<circ> pending_to_json" "\<lambda>p. p" q]
  by (simp add: queue_to_json_def default_field_def as_pending_def list_all_iff pending_roundtrip comp_def)

subsection \<open>What the inspection views see\<close>

text \<open>The same held request with another secret payload.\<close>

fun with_payload :: "string list \<times> string bmap \<times> json \<times> members \<Rightarrow> HeldRequest \<Rightarrow> HeldRequest" where
  "with_payload (cmd, env, args, ex) (HeldExec req) = HeldExec (req \<lparr> xr_command := cmd, xr_env := env, xr_extra := ex \<rparr>)"
| "with_payload (cmd, env, args, ex) (HeldCall req) = HeldCall (req \<lparr> cq_args := args, cq_extra := ex \<rparr>)"

definition replace_payload ::
  "(PendingApproval \<Rightarrow> string list \<times> string bmap \<times> json \<times> members) \<Rightarrow> PendingApproval \<Rightarrow> PendingApproval" where
  "replace_payload f p = p \<lparr> pa_held_request := map_option (with_payload (f p)) (pa_held_request p) \<rparr>"

lemma redact_payload: "redacted_for_inspection (with_payload x h) = redacted_for_inspection h"
  by (cases x; cases h) simp_all

lemma redact_replace: "redact_pending (replace_payload f p) = redact_pending p"
  by (cases "pa_held_request p") (simp_all add: redact_pending_def replace_payload_def redact_payload)

lemma redact_id [simp]: "pa_request_id (redact_pending p) = pa_request_id p"
  by (simp add: redact_pending_def pa_request_id_def)

lemma redact_room [simp]: "pa_room_id (redact_pending p) = pa_room_id p"
  by (simp add: redact_pending_def)

lemma list_redacted:
  "list_pending_approvals rd file room = and_then (queue_load rd file) (\<lambda>q.
     Inr (sort_key pa_request_id (filter (\<lambda>p. case room of None \<Rightarrow> True | Some r \<Rightarrow> pa_room_id p = r) (map redact_pending q))))"
proof -
  have "filter (\<lambda>p. case room of None \<Rightarrow> True | Some r \<Rightarrow> pa_room_id p = r) (map redact_pending q) =
      map redact_pending (case room of Some room_id \<Rightarrow> pending_in_room q room_id | None \<Rightarrow> q)" for q
    by (cases room) (simp_all add: pending_in_room_def filter_map comp_def)
  then show ?thesis
    by (simp add: list_pending_approvals_def Let_def sort_key_map)
qed

lemma get_redacted:
  "get_pending_approval rd file k = and_then (queue_load rd file) (\<lambda>q. Inr (queue_get (map redact_pending q) k))"
proof -
  have "queue_get (map redact_pending q) k = map_option redact_pending (queue_get q k)" for q
    by (induction q) (auto simp: queue_get_def)
  then show ?thesis
    by (simp add: get_pending_approval_def)
qed

subsection \<open>Decisions on the timeline\<close>

definition verified_content ::
  "('sk, 'vk) crypto \<Rightarrow> 'vk DecisionVerification \<Rightarrow> members \<Rightarrow> ApprovalDecision option" where
  "verified_content cr ctx raw = (case decision_content raw of
       None \<Rightarrow> None
     | Some d \<Rightarrow> if verification_failure cr d (unwrap_or (str_member raw ''sender'') []) ctx = None then Some d else None)"

lemma or_insert_get:
  "bm_get (or_insert k v m) j = (case bm_get m j of Some x \<Rightarrow> Some x | None \<Rightarrow> if j = k then Some v else None)"
  by (auto simp: or_insert_def bm_get_insert split: option.splits)

lemma verified_step_get:
  "bm_get (verified_step cr ctx raw m) k = (case bm_get m k of
      Some x \<Rightarrow> Some x
    | None \<Rightarrow> (case verified_content cr ctx raw of
         Some d \<Rightarrow> if dc_request_id d = k then Some d else None
       | None \<Rightarrow> None))"
  by (auto simp: verified_step_def verified_content_def or_insert_get split: option.splits)

lemma fold_verified_get:
  "bm_get (fold (verified_step cr ctx) chunk m) k = (case bm_get m k of
      Some x \<Rightarrow> Some x
    | None \<Rightarrow> find (\<lambda>d. dc_request_id d = k) (List.map_filter (verified_content cr ctx) chunk))"
proof (induction chunk arbitrary: m)
  case (Cons raw chunk)
  then show ?case
    by (auto simp: verified_step_get map_filter_simps split: option.splits)
qed (simp add: map_filter_simps split: option.splits)

lemma find_map_filter_None:
  "find P (List.map_filter f xs) = None \<longleftrightarrow> list_all (\<lambda>x. case f x of None \<Rightarrow> True | Some d \<Rightarrow> \<not> P d) xs"
  by (induction xs) (auto simp: map_filter_simps split: option.splits)

lemma find_map_filter_Some:
  "find P (List.map_filter f xs) = Some d \<Longrightarrow>
   \<exists>i < length xs. f (xs ! i) = Some d \<and> P d \<and> list_all (\<lambda>x. case f x of None \<Rightarrow> True | Some d' \<Rightarrow> \<not> P d') (take i xs)"
proof (induction xs)
  case (Cons x xs)
  show ?case
  proof (cases "case f x of None \<Rightarrow> True | Some d' \<Rightarrow> \<not> P d'")
    case True
    then have "find P (List.map_filter f xs) = Some d"
      using Cons.prems by (auto simp: map_filter_simps split: option.splits)
    from Cons.IH [OF this] obtain i where "i < length xs" "f (xs ! i) = Some d" "P d"
      "list_all (\<lambda>x. case f x of None \<Rightarrow> True | Some d' \<Rightarrow> \<not> P d') (take i xs)"
      by blast
    then show ?thesis
      using True by (intro exI [of _ "Suc i"]) simp
  next
    case False
    then show ?thesis
      using Cons.prems by (intro exI [of _ 0]) (auto simp: map_filter_simps split: option.splits)
  qed
qed (simp add: map_filter_simps)

lemma not_isl_unit: "\<not> isl r \<longleftrightarrow> r = Inr ()"
  by (cases r) auto

lemma verification_ok_iff:
  "verification_failure cr d sender ctx = None \<longleftrightarrow>
     sender \<noteq> [] \<and> (sender = dv_local_user ctx \<or> sender \<in> set (dv_approvers ctx)) \<and>
     (\<exists>s key n x e. dc_signature d = Some s \<and> bm_get (dv_verifying_keys ctx) (sg_key_id s) = Some key \<and>
        is_key_trusted (dv_trust ctx) (sg_key_id s) \<and> verify_approval_decision cr key d = Inr () \<and>
        dc_nonce d = Some n \<and> dc_expires_at d = Some x \<and> parse_rfc3339_to_unix x = Some e \<and> dv_now_unix ctx < e)"
  by (cases "dc_signature d"; cases "dc_nonce d"; cases "dc_expires_at d")
    (auto simp: verification_failure_def Let_def not_le not_isl_unit split: option.splits)

text \<open>The bytes signed for a decision identify its content.\<close>

definition decision_bytes :: "('sk, 'vk) crypto \<Rightarrow> ApprovalDecision \<Rightarrow> (SignatureError, string) result" where
  "decision_bytes cr d = signing_bytes cr (decision_to_json d)"

definition same_verdict :: "ApprovalDecision \<Rightarrow> ApprovalDecision \<Rightarrow> bool" where
  "same_verdict d d' \<longleftrightarrow> dc_request_id d = dc_request_id d' \<and> dc_decision d = dc_decision d' \<and>
     dc_approved_by d = dc_approved_by d' \<and> dc_created_at d = dc_created_at d' \<and>
     dc_nonce d = dc_nonce d' \<and> dc_expires_at d = dc_expires_at d'"

lemma map_of_sort_key: "distinct (map fst m) \<Longrightarrow> map_of (sort_key fst m) k = map_of m k"
proof -
  assume d: "distinct (map fst m)"
  then have d': "distinct (map fst (sort_key fst m))"
    by (simp flip: sort_keys)
  show ?thesis
    by (rule option_ext) (simp add: map_of_eq_Some_iff d d')
qed

lemma norm_lookup:
  assumes "distinct (map fst a)" "distinct (map fst b)" "norm (JObject a) = norm (JObject b)"
  shows "map_option norm (map_of a k) = map_option norm (map_of b k)"
proof -
  have d: "distinct (map fst (map (\<lambda>(k, v). (k, norm v)) m))" if "distinct (map fst m)" for m
    using that by (simp add: comp_def case_prod_unfold)
  have l: "map_of (map (\<lambda>(k, v). (k, norm v)) m) k = map_option norm (map_of m k)" for m
    by (simp add: map_of_map)
  show ?thesis
    using assms(3) map_of_sort_key [OF d [OF assms(1)], of k] map_of_sort_key [OF d [OF assms(2)], of k]
    by (simp add: l)
qed

lemma decision_lookup:
  assumes "fresh_members decision_fields (dc_extra d)" "decision_to_json d = JObject m"
  shows "map_of (unsigned_members m) ''request_id'' = Some (JString (dc_request_id d))"
    "map_of (unsigned_members m) ''decision'' = Some (JString (dc_decision d))"
    "map_of (unsigned_members m) ''approved_by'' = Some (JString (dc_approved_by d))"
    "map_of (unsigned_members m) ''created_at'' = Some (JString (dc_created_at d))"
    "map_of (unsigned_members m) ''nonce'' = map_option JString (dc_nonce d)"
    "map_of (unsigned_members m) ''expires_at'' = map_option JString (dc_expires_at d)"
proof -
  have u: "unsigned_members m = [
     (''request_id'', JString (dc_request_id d)), (''decision'', JString (dc_decision d)),
     (''approved_by'', JString (dc_approved_by d)), (''created_at'', JString (dc_created_at d))] @
     opt_member ''nonce'' JString (dc_nonce d) @ opt_member ''expires_at'' JString (dc_expires_at d) @ dc_extra d"
    using decision_unsigned [OF assms(1)] assms(2) by auto
  have n: "map_of (dc_extra d) ''nonce'' = None" "map_of (dc_extra d) ''expires_at'' = None"
    by (rule fresh_map_of [OF assms(1)], simp add: decision_fields_def)+
  show "map_of (unsigned_members m) ''request_id'' = Some (JString (dc_request_id d))"
    "map_of (unsigned_members m) ''decision'' = Some (JString (dc_decision d))"
    "map_of (unsigned_members m) ''approved_by'' = Some (JString (dc_approved_by d))"
    "map_of (unsigned_members m) ''created_at'' = Some (JString (dc_created_at d))"
    by (simp_all add: u)
  show "map_of (unsigned_members m) ''nonce'' = map_option JString (dc_nonce d)"
    "map_of (unsigned_members m) ''expires_at'' = map_option JString (dc_expires_at d)"
    by (cases "dc_nonce d"; cases "dc_expires_at d"; simp add: u opt_member_def n)+
qed

definition decision_wf :: "ApprovalDecision \<Rightarrow> bool" where
  "decision_wf d \<longleftrightarrow> fresh_members decision_fields (dc_extra d) \<and> json_wf (decision_to_json d)"

lemma option_norm_string: "map_option norm (map_option JString a) = map_option norm (map_option JString b) \<longleftrightarrow> a = b"
  by (cases a; cases b) simp_all

lemma decision_bytes_bind:
  assumes "string_token (cr_esc cr)" "decision_wf d" "decision_wf d'"
    "decision_bytes cr d = Inr bs" "decision_bytes cr d' = Inr bs"
  shows "same_verdict d d'"
proof -
  obtain a b where a: "decision_to_json d = JObject a" and b: "decision_to_json d' = JObject b"
    by (simp add: decision_to_json_def)
  have wf: "json_wf (JObject a)" "json_wf (JObject b)"
    and f: "fresh_members decision_fields (dc_extra d)" "fresh_members decision_fields (dc_extra d')"
    using assms(2,3) a b by (simp_all add: decision_wf_def)
  have n: "norm (JObject (unsigned_members a)) = norm (JObject (unsigned_members b))"
    using signing_bytes_binds [OF assms(1) wf] assms(4,5) a b by (simp add: decision_bytes_def)
  have "distinct (map fst (unsigned_members a))" "distinct (map fst (unsigned_members b))"
    using unsigned_wf [OF wf(1)] unsigned_wf [OF wf(2)] by simp_all
  note eq = norm_lookup [OF this n]
  show ?thesis
    using eq [of "''request_id''"] eq [of "''decision''"] eq [of "''approved_by''"] eq [of "''created_at''"]
      eq [of "''nonce''"] eq [of "''expires_at''"]
    unfolding decision_lookup [OF f(1) a] decision_lookup [OF f(2) b] option_norm_string
    by (simp add: same_verdict_def)
qed

lemma verified_decision_bytes:
  assumes "verify_approval_decision cr key d = Inr ()"
  shows "\<exists>bs s. decision_bytes cr d = Inr bs \<and> cr_verify cr key bs s"
  using assms
  by (auto simp: verify_approval_decision_def verify_def decision_bytes_def decision_to_json_def verify_signature_def
      split: if_splits option.splits)

lemma approval_expiry_parse:
  "parse_rfc3339_to_unix (approval_request_expiry now ttl) =
     (if unat now + unat ttl < 253402300800 then Some (int (unat now + unat ttl)) else None)"
proof -
  have s: "uint (sat_add now ttl) = int (min (unat now + unat ttl) (2 ^ 64 - 1))"
    using sat_add_unat [of now ttl] by (simp only: uint_nat) simp
  show ?thesis
  proof (cases "unat now + unat ttl < 253402300800")
    case True
    then have "uint (sat_add now ttl) = int (unat now + unat ttl)"
      unfolding s by simp
    moreover have "int (unat now + unat ttl) < 253402300800"
      using True by linarith
    ultimately show ?thesis
      using True by (simp only: approval_request_expiry_def rfc3339_round_trip_aux if_True)
  next
    case False
    then have "\<not> uint (sat_add now ttl) < 253402300800"
      unfolding s by (simp add: min_def)
    then show ?thesis
      using False by (simp only: approval_request_expiry_def rfc3339_round_trip_aux if_False)
  qed
qed

subsection \<open>Properties\<close>

definition run_queue :: "(PendingApproval + string) list \<Rightarrow> ApprovalQueue" where
  "run_queue ops = fold (case_sum enqueue (\<lambda>k q. snd (queue_remove k q))) ops []"

definition spec_queue :: "(PendingApproval + string) list \<Rightarrow> string \<Rightarrow> PendingApproval option" where
  "spec_queue ops = fold (case_sum (\<lambda>e m. m(pa_request_id e \<mapsto> e)) (\<lambda>j m. m(j := None))) ops Map.empty"

text \<open>C33. The approval queue. Any history of enqueues and removals acts on lookups like the updates
  of a finite map from request ids to entries, and no request id ever has two entries; what is saved
  is loaded again unchanged, given that the JSON text of a value is read back as that value.\<close>

theorem approval_queue_refines:
  assumes "\<And>v. rd (prt v) = Some v" "list_all pending_wf (run_queue ops)"
  shows "queue_get (run_queue ops) = spec_queue ops \<and> distinct (map pa_request_id (run_queue ops)) \<and>
    queue_load rd (snd (queue_save prt None (run_queue ops) file)) = Inr (run_queue ops)"
proof -
  have i: "queue_inv []" "queue_get [] = Map.empty"
    by (simp_all add: queue_inv_def queue_get_def fun_eq_iff)
  show ?thesis
    using aq.history_get [OF i(1), of ops] aq.history_invar [OF i(1), of ops] assms(1) queue_roundtrip [OF assms(2)]
    by (simp add: run_queue_def [symmetric] spec_queue_def i queue_inv_def queue_save_def queue_load_def fun_eq_iff)
qed

text \<open>Inspection shows no payload. Listing and showing pending approvals gives the same answer
  whatever the commands, environments, arguments and unknown members of the held requests are. The
  list is sorted by request id and holds, up to that redaction, exactly the entries of the room. The
  summary written into the entry when it was queued is shown as it is.\<close>

theorem inspection_redacted:
  assumes "queue_load rd file = Inr q" "queue_load rd file' = Inr (map (replace_payload f) q)"
  shows "list_pending_approvals rd file' room = list_pending_approvals rd file room \<and>
    get_pending_approval rd file' k = get_pending_approval rd file k \<and>
    (case list_pending_approvals rd file room of
       Inl _ \<Rightarrow> False
     | Inr ps \<Rightarrow> sorted (map pa_request_id ps) \<and>
         mset ps = mset (map redact_pending (filter (\<lambda>p. room = None \<or> room = Some (pa_room_id p)) q)))"
proof -
  have m: "map (redact_pending \<circ> replace_payload f) q = map redact_pending q"
    by (simp add: comp_def redact_replace)
  have "filter (\<lambda>p. case room of None \<Rightarrow> True | Some r \<Rightarrow> pa_room_id p = r) (map redact_pending q) =
      map redact_pending (filter (\<lambda>p. room = None \<or> room = Some (pa_room_id p)) q)"
    by (cases room) (auto simp: filter_map comp_def intro!: arg_cong [of _ _ "map redact_pending"] filter_cong)
  then show ?thesis
    unfolding list_redacted get_redacted assms by (simp add: m)
qed

text \<open>C34. Verified decisions. Of the decisions on the timeline about a request, the newest one that
  verifies counts: it came from the local user or a configured approver, carries a signature of a
  locally trusted, published key that verifies, a nonce and an expiry in the future. Newer decisions
  about the request that fail any of these checks are as if absent.\<close>

theorem newest_verified_decision:
  assumes "read_verified_approval_decisions cr ctx (Inr chunk) = Inr ds"
  shows "case bm_get ds k of
      None \<Rightarrow> list_all (\<lambda>raw. case verified_content cr ctx raw of None \<Rightarrow> True | Some d \<Rightarrow> dc_request_id d \<noteq> k) chunk
    | Some d \<Rightarrow>
       (\<exists>i < length chunk.
          decision_content (chunk ! i) = Some d \<and> dc_request_id d = k \<and>
          list_all (\<lambda>raw. case verified_content cr ctx raw of None \<Rightarrow> True | Some d' \<Rightarrow> dc_request_id d' \<noteq> k) (take i chunk) \<and>
          (case str_member (chunk ! i) ''sender'' of
             None \<Rightarrow> False
           | Some sender \<Rightarrow> sender \<noteq> [] \<and> (sender = dv_local_user ctx \<or> sender \<in> set (dv_approvers ctx)))) \<and>
       (\<exists>s key n x e. dc_signature d = Some s \<and> bm_get (dv_verifying_keys ctx) (sg_key_id s) = Some key \<and>
          is_key_trusted (dv_trust ctx) (sg_key_id s) \<and> verify_approval_decision cr key d = Inr () \<and>
          dc_nonce d = Some n \<and> dc_expires_at d = Some x \<and> parse_rfc3339_to_unix x = Some e \<and> dv_now_unix ctx < e)"
proof -
  have g: "bm_get ds k = find (\<lambda>d. dc_request_id d = k) (List.map_filter (verified_content cr ctx) chunk)"
    using assms fold_verified_get [of cr ctx chunk "[]" k]
    by (auto simp: read_verified_approval_decisions_def bm_get_def)
  show ?thesis
  proof (cases "bm_get ds k")
    case None
    then have "list_all (\<lambda>raw. case verified_content cr ctx raw of None \<Rightarrow> True | Some d \<Rightarrow> dc_request_id d \<noteq> k) chunk"
      unfolding g find_map_filter_None .
    then show ?thesis
      unfolding None option.case .
  next
    case (Some d)
    then obtain i where i: "i < length chunk" "verified_content cr ctx (chunk ! i) = Some d" "dc_request_id d = k"
      "list_all (\<lambda>raw. case verified_content cr ctx raw of None \<Rightarrow> True | Some d' \<Rightarrow> dc_request_id d' \<noteq> k) (take i chunk)"
      using find_map_filter_Some [of "\<lambda>d. dc_request_id d = k"] g by metis
    have c: "decision_content (chunk ! i) = Some d"
      and v: "verification_failure cr d (unwrap_or (str_member (chunk ! i) ''sender'') []) ctx = None"
      using i(2) by (auto simp: verified_content_def split: option.splits if_splits)
    have "case str_member (chunk ! i) ''sender'' of None \<Rightarrow> False
      | Some sender \<Rightarrow> sender \<noteq> [] \<and> (sender = dv_local_user ctx \<or> sender \<in> set (dv_approvers ctx))"
      using conjunct1 [OF v [unfolded verification_ok_iff]] conjunct1 [OF conjunct2 [OF v [unfolded verification_ok_iff]]]
      by (cases "str_member (chunk ! i) ''sender''") simp_all
    then show ?thesis
      unfolding Some option.case
      using i c conjunct2 [OF conjunct2 [OF v [unfolded verification_ok_iff]]] by (intro conjI exI [of _ i]) simp_all
  qed
qed


text \<open>The approval window. A request stamped with a lifetime is open strictly before the instant
  that lies that many seconds after its creation and closed from then on, also when the addition
  saturates; from the year 10000 on the stamp is unreadable and the request never counts as expired.\<close>

theorem approval_window:
  "approval_request_expired (approval_request_expiry now ttl) t \<longleftrightarrow>
     unat now + unat ttl < 253402300800 \<and> int (unat now + unat ttl) \<le> t"
  by (simp only: approval_request_expired_def approval_expiry_parse split: if_split option.split) auto

lemma signed_decision_ok:
  assumes "signature_laws (de_crypto de) public" "de_key de = Inr (sk, kid)"
    "signed_decision de request_id decision approved_by = Inr d"
  shows "\<exists>s. d = (approval_decision_for request_id decision approved_by (now_rfc3339 (de_env de))) \<lparr>
      dc_nonce := Some (en_nonce (de_env de)),
      dc_expires_at := Some (approval_request_expiry (en_now (de_env de)) APPROVAL_REQUEST_TTL), dc_signature := Some s \<rparr> \<and>
      sg_key_id s = kid"
    "decision_from_json (decision_to_json d) = Some d"
    "verify_approval_decision (de_crypto de) (public sk) d = Inr ()"
proof -
  define c where "c = (approval_decision_for request_id decision approved_by (now_rfc3339 (de_env de))) \<lparr>
      dc_nonce := Some (en_nonce (de_env de)),
      dc_expires_at := Some (approval_request_expiry (en_now (de_env de)) APPROVAL_REQUEST_TTL) \<rparr>"
  have f: "fresh_members decision_fields (dc_extra c)"
    by (simp add: c_def approval_decision_for_def fresh_members_def)
  have "sign_approval_decision (de_crypto de) sk kid c = Inr d"
    using assms(2,3) by (simp add: signed_decision_def Let_def c_def)
  from approval_decision_signed [OF assms(1) f this]
  show "\<exists>s. d = (approval_decision_for request_id decision approved_by (now_rfc3339 (de_env de))) \<lparr>
      dc_nonce := Some (en_nonce (de_env de)),
      dc_expires_at := Some (approval_request_expiry (en_now (de_env de)) APPROVAL_REQUEST_TTL), dc_signature := Some s \<rparr> \<and>
      sg_key_id s = kid"
    "decision_from_json (decision_to_json d) = Some d"
    "verify_approval_decision (de_crypto de) (public sk) d = Inr ()"
    by (auto simp: c_def)
qed

lemma in_room_ok:
  "in_room cl target f = (Inr x, cl') \<Longrightarrow>
   \<exists>room_id rm rm'. sync_and_get_room cl target = Inr (room_id, rm) \<and> f rm = (Inr x, rm') \<and> cl' = put_room room_id rm' cl"
  by (auto simp: in_room_def split: sum.splits prod.splits)

lemma publish_decision_ok:
  "publish_decision de request_id decision approved_by rm = (Inr d, rm') \<Longrightarrow>
   signed_decision de request_id decision approved_by = Inr d \<and>
   rm' = rm \<lparr> rm_timeline := rm_timeline rm @ [(APPROVAL_DECISION, decision_to_json d)] \<rparr>"
  by (auto simp: publish_decision_def emit_approval_decision_def send_raw_def split: sum.splits prod.splits)

text \<open>The runs of \<open>decide_approval_for_session\<close>.\<close>

lemma decide_cases:
  assumes "decide_approval_for_session de request_id decision approved_by (cl, file) = (r, cl', file')"
  obtains (failed) e where "r = Inl e" "file' = file"
  | (decided) q p room_id rm d where "queue_load (de_read de) file = Inr q" "queue_get q request_id = Some p"
      "r = Inr \<lparr> ar_decision = d, ar_room_id = pa_room_id p \<rparr>"
      "sync_and_get_room cl (pa_room_id p) = Inr (room_id, rm)"
      "signed_decision de request_id decision approved_by = Inr d"
      "cl' = put_room room_id (rm \<lparr> rm_timeline := rm_timeline rm @ [(APPROVAL_DECISION, decision_to_json d)] \<rparr>) cl"
      "file' = (if pa_held_request p = None then Inr (de_print de (queue_to_json (snd (queue_remove request_id q)))) else file)"
proof -
  note eq = assms [unfolded decide_approval_for_session_def Let_def prod.case]
  consider (load) e where "queue_load (de_read de) file = Inl e"
    | (get) q where "queue_load (de_read de) file = Inr q" "queue_get q request_id = None"
    | (restore) q p e where "queue_load (de_read de) file = Inr q" "queue_get q request_id = Some p" "de_client de = Inl e"
    | (go) q p where "queue_load (de_read de) file = Inr q" "queue_get q request_id = Some p" "de_client de = Inr ()"
    by (metis option.exhaust old.sum.exhaust old.unit.exhaust)
  then show thesis
  proof cases
    case load
    then show thesis using eq by (intro failed) auto
  next
    case get
    then show thesis using eq by (intro failed) auto
  next
    case restore
    then show thesis using eq by (intro failed) auto
  next
    case go
    obtain x cl2 where x: "in_room cl (pa_room_id p) (publish_decision de request_id decision approved_by) = (x, cl2)"
      by (cases "in_room cl (pa_room_id p) (publish_decision de request_id decision approved_by)")
    show thesis
    proof (cases x)
      case (Inl e)
      then show thesis using eq go x by (intro failed) auto
    next
      case (Inr d)
      from in_room_ok [OF x [unfolded Inr]] obtain room_id rm rm' where
        rm: "sync_and_get_room cl (pa_room_id p) = Inr (room_id, rm)" "cl2 = put_room room_id rm' cl"
        "publish_decision de request_id decision approved_by rm = (Inr d, rm')" by blast
      note pub = publish_decision_ok [OF rm(3)]
      show thesis
      proof (cases "pa_held_request p = None \<and> de_write de \<noteq> None")
        case True
        then show thesis using eq go x Inr by (intro failed [of "WsIo (io_text (the (de_write de)))"]) (auto simp: queue_save_def)
      next
        case False
        then show thesis
          using eq go x Inr rm pub
          by (intro decided [of q p d room_id rm]) (auto simp: queue_save_def split: if_splits option.splits)
      qed
    qed
  qed
qed

text \<open>Deciding a request takes effect. A failure leaves the queue file as it was. Otherwise the
  room of the queued request carries one more event, a signed decision with the given verdict that
  is read back as it was written; a daemon that trusts and knows the key accepts it from its own
  account for an hour and rejects it as expired from then on. The entry leaves the queue exactly
  when no live request waits on it.\<close>

theorem decided_approval_effective:
  assumes "signature_laws (de_crypto de) public" "de_key de = Inr (sk, kid)"
    and "bm_get (dv_verifying_keys ctx) kid = Some (public sk)" "is_key_trusted (dv_trust ctx) kid"
    and "dv_local_user ctx \<noteq> []" "unat (en_now (de_env de)) + 3600 < 253402300800"
    and "decide_approval_for_session de request_id decision approved_by (cl, file) = (r, cl', file')"
  shows "case r of
      Inl _ \<Rightarrow> file' = file
    | Inr ar \<Rightarrow>
       verification_failure (de_crypto de) (ar_decision ar) (dv_local_user ctx) ctx =
         (if dv_now_unix ctx < int (unat (en_now (de_env de))) + 3600 then None else Some ''decision_expired'') \<and>
       decision_from_json (decision_to_json (ar_decision ar)) = Some (ar_decision ar) \<and>
       dc_request_id (ar_decision ar) = request_id \<and> ar_approved ar = (decision = ''approved'') \<and>
       (\<exists>q p room_id rm. queue_load (de_read de) file = Inr q \<and> queue_get q request_id = Some p \<and>
          sync_and_get_room cl (pa_room_id p) = Inr (room_id, rm) \<and>
          cl' = put_room room_id (rm \<lparr> rm_timeline := rm_timeline rm @ [(APPROVAL_DECISION, decision_to_json (ar_decision ar))] \<rparr>) cl \<and>
          file' = (if pa_held_request p = None
                   then Inr (de_print de (queue_to_json (snd (queue_remove request_id q)))) else file))"
  using assms(7)
proof (cases rule: decide_cases)
  case (decided q p room_id rm d)
  note sd = signed_decision_ok [OF assms(1,2) decided(5)]
  then obtain s where d: "d = (approval_decision_for request_id decision approved_by (now_rfc3339 (de_env de))) \<lparr>
      dc_nonce := Some (en_nonce (de_env de)),
      dc_expires_at := Some (approval_request_expiry (en_now (de_env de)) APPROVAL_REQUEST_TTL), dc_signature := Some s \<rparr>"
    "sg_key_id s = kid" by blast
  have e: "parse_rfc3339_to_unix (approval_request_expiry (en_now (de_env de)) APPROVAL_REQUEST_TTL) =
      Some (int (unat (en_now (de_env de))) + 3600)"
    using assms(6) by (simp add: approval_expiry_parse APPROVAL_REQUEST_TTL_def)
  have "verification_failure (de_crypto de) d (dv_local_user ctx) ctx =
      (if dv_now_unix ctx < int (unat (en_now (de_env de))) + 3600 then None else Some ''decision_expired'')"
    using assms(3-5) sd(3) d e by (simp add: verification_failure_def Let_def)
  then show ?thesis
    using decided sd(2) d
    by (auto simp: ar_approved_def decision_permits_spawn_def DECISION_APPROVED_def approval_decision_for_def)
qed simp

subsection \<open>Witnesses\<close>

instance number :: countable
  by countable_datatype

instance json :: countable
  by countable_datatype

definition sample_print :: "json \<Rightarrow> string" where
  "sample_print v = replicate (to_nat v) CHR ''i''"

definition sample_read :: "string \<Rightarrow> json option" where
  "sample_read s = Some (from_nat (length s))"

lemma sample_codec: "sample_read (sample_print v) = Some v"
  by (simp add: sample_read_def sample_print_def)

definition sample_hold :: PendingApproval where
  "sample_hold = \<lparr> pa_room_id = ''!r'', pa_request = approval_request_for demo_exec default_allowance,
     pa_held_request = Some (HeldExec demo_exec), pa_requester_user = Some ''@a'' \<rparr>"

definition sample_task_hold :: PendingApproval where
  "sample_task_hold = sample_hold \<lparr> pa_held_request := None \<rparr>"

lemma sample_wf: "pending_wf sample_hold" "pending_wf sample_task_hold"
  by (simp_all add: pending_wf_def sample_hold_def sample_task_hold_def approval_request_for_def fresh_members_def
      held_wf_def demo_exec_def bm_wf_def)

lemma sample_ids: "pa_request_id sample_hold = ''req_1''" "pa_request_id sample_task_hold = ''req_1''"
  by (simp_all add: pa_request_id_def sample_hold_def sample_task_hold_def approval_request_for_def demo_exec_def)

theorem approval_queue_refines_witness:
  "queue_load sample_read (snd (queue_save sample_print None (run_queue [Inl sample_task_hold, Inl sample_hold]) (Inr [])))
     = Inr [sample_hold]"
proof -
  have r: "run_queue [Inl sample_task_hold, Inl sample_hold] = [sample_hold]"
    by (simp add: run_queue_def enqueue_def sample_ids)
  then have "list_all pending_wf (run_queue [Inl sample_task_hold, Inl sample_hold])"
    by (simp add: sample_wf)
  from approval_queue_refines [OF sample_codec this, of "Inr []"] show ?thesis
    by (simp add: r)
qed

lemma sample_load:
  "list_all pending_wf q \<Longrightarrow> queue_load sample_read (Inr (sample_print (queue_to_json q))) = Inr q"
  by (simp add: queue_load_def sample_codec queue_roundtrip)

theorem inspection_redacted_witness:
  "list_pending_approvals sample_read
     (Inr (sample_print (queue_to_json [replace_payload (\<lambda>_. ([''rm'', ''-rf''], [], JNull, [])) sample_hold]))) None =
   list_pending_approvals sample_read (Inr (sample_print (queue_to_json [sample_hold]))) None"
proof -
  let ?f = "\<lambda>_. ([''rm'', ''-rf''], [], JNull, [])"
  have "pending_wf (replace_payload ?f sample_hold)"
    by (simp add: pending_wf_def sample_hold_def replace_payload_def approval_request_for_def fresh_members_def
        held_wf_def bm_wf_def)
  then show ?thesis
    using inspection_redacted [OF sample_load [of "[sample_hold]"], of _ ?f None] sample_load
    by (simp add: sample_wf)
qed

definition sample_env :: Env where
  "sample_env = \<lparr> en_now = 1000, en_ttl_var = None, en_task_id = ''t'', en_nonce = ''n1'',
     en_state = (\<lambda>_ _. Inr ''$e''), en_send = (\<lambda>_. Inr ''$e'') \<rparr>"

definition sample_decide :: "(string, string) DecideEnv" where
  "sample_decide = \<lparr> de_crypto = demo_crypto, de_env = sample_env, de_client = Inr (), de_key = Inr (''sk'', ''kid''),
     de_print = sample_print, de_read = sample_read, de_write = None \<rparr>"

definition sample_ctx :: "string DecisionVerification" where
  "sample_ctx = \<lparr> dv_local_user = ''@a'', dv_approvers = [], dv_verifying_keys = [(''kid'', ''sk'')],
     dv_trust = snd (approve 0 ''b'' ''kid'' None None None []), dv_now_unix = 2000 \<rparr>"

definition sample_client :: Client where
  "sample_client = \<lparr> cl_user_id = Some ''@a'', cl_resolve = Inr,
     cl_rooms = [(''!r'', \<lparr> rm_tasks = [], rm_invocations = [], rm_agents = [], rm_timeline = [] \<rparr>)] \<rparr>"

lemma sample_trusted: "is_key_trusted (dv_trust sample_ctx) ''kid''"
  by (simp add: sample_ctx_def approve_def is_key_trusted_def position_def entry_is_trusted_def Let_def)

lemma decision_bytes_exist:
  assumes "decision_wf d" "no_float (decision_to_json d)"
  shows "\<exists>bs. decision_bytes cr d = Inr bs"
proof -
  obtain m where m: "decision_to_json d = JObject m"
    by (simp add: decision_to_json_def)
  have "no_float (JObject (unsigned_members m))"
    using assms(2) m by (auto simp: unsigned_members_def list_all_iff)
  then show ?thesis
    using signing_bytes_total assms(1) m by (simp add: decision_bytes_def decision_wf_def) blast
qed

lemma sign_decision_exists:
  assumes "decision_wf d" "no_float (decision_to_json d)"
  shows "\<exists>d'. sign_approval_decision cr sk kid d = Inr d'"
proof -
  obtain m where m: "decision_to_json d = JObject m"
    by (simp add: decision_to_json_def)
  obtain bs where "decision_bytes cr d = Inr bs"
    using decision_bytes_exist [OF assms] by blast
  then show ?thesis
    using signed_decision_reads_back [of d] assms(1) m
    by (auto simp: sign_approval_decision_def sign_into_def sign_def decision_bytes_def decision_wf_def)
qed

lemma sample_signed: "\<exists>d. signed_decision sample_decide ''req_1'' ''approved'' ''@a'' = Inr d"
proof -
  let ?c = "(approval_decision_for ''req_1'' ''approved'' ''@a'' (now_rfc3339 sample_env)) \<lparr>
      dc_nonce := Some (en_nonce sample_env),
      dc_expires_at := Some (approval_request_expiry (en_now sample_env) APPROVAL_REQUEST_TTL) \<rparr>"
  have "decision_wf ?c" "no_float (decision_to_json ?c)"
    by (simp_all add: decision_wf_def approval_decision_for_def decision_to_json_def fresh_members_def opt_member_def)
  from sign_decision_exists [OF this, of demo_crypto "''sk''" "''kid''"] show ?thesis
    by (simp add: signed_decision_def Let_def sample_decide_def)
qed

theorem decided_approval_effective_witness:
  "\<exists>ar cl' file'. decide_approval_for_session sample_decide ''req_1'' ''approved'' ''@a''
       (sample_client, Inr (sample_print (queue_to_json [sample_task_hold]))) = (Inr ar, cl', file') \<and>
     verification_failure demo_crypto (ar_decision ar) ''@a'' sample_ctx = None"
proof -
  obtain d where d: "signed_decision sample_decide ''req_1'' ''approved'' ''@a'' = Inr d"
    using sample_signed by blast
  have p: "queue_get [sample_task_hold] ''req_1'' = Some sample_task_hold" "pa_room_id sample_task_hold = ''!r''"
    "pa_held_request sample_task_hold = None"
    using sample_ids by (simp_all add: queue_get_def) (simp_all add: sample_task_hold_def sample_hold_def)
  have l: "queue_load sample_read (Inr (sample_print (queue_to_json [sample_task_hold]))) = Inr [sample_task_hold]"
    by (rule sample_load) (simp add: sample_wf)
  have "\<exists>ar cl' file'. decide_approval_for_session sample_decide ''req_1'' ''approved'' ''@a''
       (sample_client, Inr (sample_print (queue_to_json [sample_task_hold]))) = (Inr ar, cl', file')"
    using l d p
    by (simp add: decide_approval_for_session_def publish_decision_def sample_decide_def in_room_def sync_and_get_room_def sample_client_def
        bm_get_def emit_approval_decision_def send_raw_def sample_env_def queue_save_def Let_def)
  then obtain ar cl' file' where r: "decide_approval_for_session sample_decide ''req_1'' ''approved'' ''@a''
       (sample_client, Inr (sample_print (queue_to_json [sample_task_hold]))) = (Inr ar, cl', file')"
    by blast
  have "verification_failure demo_crypto (ar_decision ar) ''@a'' sample_ctx = None"
    using decided_approval_effective [of sample_decide "\<lambda>sk. sk" "''sk''" "''kid''" sample_ctx, OF _ _ _ sample_trusted _ _ r]
      demo_crypto_laws(1)
    by (simp add: sample_decide_def sample_ctx_def sample_env_def bm_get_def)
  with r show ?thesis by blast
qed

definition sample_raw :: "ApprovalDecision \<Rightarrow> members" where
  "sample_raw d = [(''type'', JString APPROVAL_DECISION), (''sender'', JString ''@a''), (''content'', decision_to_json d)]"

lemma sample_keys:
  "bm_get (dv_verifying_keys sample_ctx) ''kid'' = Some ''sk''" "dv_local_user sample_ctx = ''@a''" "dv_now_unix sample_ctx = 2000"
  by (simp_all add: sample_ctx_def bm_get_def)

theorem newest_verified_decision_witness:
  "\<exists>d ds. read_verified_approval_decisions demo_crypto sample_ctx (Inr [sample_raw d]) = Inr ds \<and>
     (\<exists>d'. bm_get ds ''req_1'' = Some d' \<and> dc_expires_at d' \<noteq> None)"
proof -
  obtain d where d: "signed_decision sample_decide ''req_1'' ''approved'' ''@a'' = Inr d"
    using sample_signed by blast
  have laws: "signature_laws (de_crypto sample_decide) (\<lambda>sk. sk)" "de_key sample_decide = Inr (''sk'', ''kid'')"
    using demo_crypto_laws(1) by (simp_all add: sample_decide_def)
  note sd = signed_decision_ok [OF laws d]
  obtain s where s: "d = (approval_decision_for ''req_1'' ''approved'' ''@a'' (now_rfc3339 (de_env sample_decide))) \<lparr>
      dc_nonce := Some (en_nonce (de_env sample_decide)),
      dc_expires_at := Some (approval_request_expiry (en_now (de_env sample_decide)) APPROVAL_REQUEST_TTL),
      dc_signature := Some s \<rparr>" "sg_key_id s = ''kid''"
    using sd(1) by blast
  have e: "parse_rfc3339_to_unix (approval_request_expiry (en_now (de_env sample_decide)) APPROVAL_REQUEST_TTL) = Some 4600"
    by (simp add: approval_expiry_parse APPROVAL_REQUEST_TTL_def sample_decide_def sample_env_def)
  have "verify_approval_decision demo_crypto ''sk'' d = Inr ()"
    using sd(3) by (simp add: sample_decide_def)
  moreover have "dc_signature d = Some s"
    "dc_expires_at d = Some (approval_request_expiry (en_now (de_env sample_decide)) APPROVAL_REQUEST_TTL)"
    "dc_nonce d = Some (en_nonce (de_env sample_decide))"
    by (simp_all add: s(1))
  ultimately have v: "verification_failure demo_crypto d ''@a'' sample_ctx = None"
    using sample_trusted s(2) e sample_keys by (simp add: verification_ok_iff)
  have c: "decision_content (sample_raw d) = Some d" "str_member (sample_raw d) ''sender'' = Some ''@a''"
    using sd(2) by (simp_all add: decision_content_def sample_raw_def str_member_def)
  have k: "verified_content demo_crypto sample_ctx (sample_raw d) = Some d" "dc_request_id d = ''req_1''"
    using v c by (simp_all add: verified_content_def) (simp add: s(1) approval_decision_for_def)
  obtain ds where ds: "read_verified_approval_decisions demo_crypto sample_ctx (Inr [sample_raw d]) = Inr ds"
    by (simp add: read_verified_approval_decisions_def)
  note nv = newest_verified_decision [OF ds, of "''req_1''"]
  show ?thesis
  proof (cases "bm_get ds ''req_1''")
    case None
    then show ?thesis using nv k by simp
  next
    case (Some d')
    then have "dc_expires_at d' \<noteq> None"
      using nv by auto
    then show ?thesis using ds Some by blast
  qed
qed

definition sample_issued :: ApprovalDecision where
  "sample_issued = \<lparr> dc_request_id = ''req_1'', dc_decision = ''approved'', dc_approved_by = ''@a'', dc_created_at = ''c'',
     dc_nonce = Some ''n1'', dc_expires_at = Some (unix_to_rfc3339 4600),
     dc_signature = Some \<lparr> sg_alg = ALG_ED25519, sg_key_id = ''kid'', sg_sig = ''s'' \<rparr>, dc_extra = [] \<rparr>"

text \<open>A verifier that accepts the bytes of one issued decision.\<close>

definition sample_ideal :: "(string, string) crypto" where
  "sample_ideal = demo_crypto \<lparr> cr_verify := (\<lambda>vk bs s. decision_bytes demo_crypto sample_issued = Inr bs) \<rparr>"

lemma sample_ideal_bytes: "decision_bytes sample_ideal d = decision_bytes demo_crypto d"
  by (simp add: decision_bytes_def decision_to_json_def signing_bytes_def sample_ideal_def)


end
