(* ===== verification/Child_Env.thy ===== *)
theory Child_Env
  imports Policy_Engine
begin

text \<open>
  What reaches a child process: the environment rules of \<open>crates/mx-agent-daemon/src/runner.rs\<close>, the
  key names that \<open>crates/mx-agent-telemetry/src/lib.rs\<close> treats as sensitive, and the translation of
  a policy allowance to a sandbox selection in \<open>exec.rs\<close>.
\<close>

subsection \<open>Sensitive names\<close>

definition REDACTED :: string where "REDACTED = ''***redacted***''"

definition ascii_lower :: "char \<Rightarrow> char" where
  "ascii_lower c = (let n = of_char c :: nat in if 65 \<le> n \<and> n \<le> 90 then char_of (n + 32) else c)"

definition NEEDLES :: "string list" where
  "NEEDLES = [''token'', ''secret'', ''password'', ''passwd'', ''api_key'', ''apikey'', ''access_key'',
     ''private_key'', ''credential'', ''authorization'', ''recovery'', ''passphrase'']"

definition is_sensitive_key :: "string \<Rightarrow> bool" where
  "is_sensitive_key key =
     (let lower = map ascii_lower key
      in list_ex (\<lambda>needle. sublist needle lower) NEEDLES \<or> lower = ''key'' \<or> suffix ''_key'' lower)"

definition redact :: "string \<Rightarrow> string \<Rightarrow> string" where
  "redact key value = (if is_sensitive_key key then REDACTED else value)"

subsection \<open>The environment of a child\<close>

definition SECRET_VARS :: "string list" where
  "SECRET_VARS = [''MATRIX_ACCESS_TOKEN'', ''MX_AGENT_TOKEN'', ''MX_AGENT_PASSWORD'', ''MX_AGENT_RECOVERY_KEY'',
     ''SSH_AUTH_SOCK'', ''GITHUB_TOKEN'', ''OPENAI_API_KEY'', ''ANTHROPIC_API_KEY'', ''NPM_TOKEN'']"

definition SECRET_PREFIXES :: "string list" where
  "SECRET_PREFIXES = [''AWS_'', ''GOOGLE_'', ''AZURE_'']"

definition DEFAULT_ALLOWED_VARS :: "string list" where
  "DEFAULT_ALLOWED_VARS = [''PATH'', ''HOME'', ''USER'', ''LOGNAME'', ''SHELL'', ''LANG'', ''LANGUAGE'', ''LC_ALL'',
     ''LC_CTYPE'', ''TZ'', ''TERM'', ''TMPDIR'', ''PWD'']"

definition is_secret_var :: "string \<Rightarrow> bool" where
  "is_secret_var name =
     (name \<in> set SECRET_VARS \<or> list_ex (\<lambda>p. starts_with_str name p) SECRET_PREFIXES \<or> is_sensitive_key name)"

definition is_allowed_var :: "string \<Rightarrow> string list \<Rightarrow> bool" where
  "is_allowed_var name extra_allowed = (name \<in> set DEFAULT_ALLOWED_VARS \<or> name \<in> set extra_allowed)"

definition sanitize_env :: "(string \<times> string) list \<Rightarrow> string bmap \<Rightarrow> string list \<Rightarrow> string bmap" where
  "sanitize_env inherited overrides extra_allowed =
     (let env = bm_of_list (filter (\<lambda>(name, _). is_allowed_var name extra_allowed \<and> \<not> is_secret_var name) inherited)
      in fold (\<lambda>(name, value). bm_insert name value) overrides env)"

definition is_loader_control_var :: "string \<Rightarrow> bool" where
  "is_loader_control_var name = (name = ''PATH'' \<or> starts_with_str name ''LD_'' \<or> starts_with_str name ''DYLD_'')"

definition first_disallowed_remote_override :: "string bmap \<Rightarrow> string list \<Rightarrow> string option" where
  "first_disallowed_remote_override env extra_allowed =
     find (\<lambda>name. is_secret_var name \<or> is_loader_control_var name \<or>
        \<not> (name \<in> set DEFAULT_ALLOWED_VARS \<or> name \<in> set extra_allowed)) (map fst env)"

subsection \<open>Sandbox selection\<close>

datatype Backend = BackendNone | BackendBubblewrap | BackendContainer

datatype Runtime = RuntimeDocker | RuntimePodman

datatype Network = NetworkAllow | NetworkDeny

datatype SeccompMode = ModeOff | ModeDefault

record ResourceLimits =
  rl_max_processes :: "u64 option"
  rl_max_memory_bytes :: "u64 option"
  rl_max_cpu_seconds :: "u64 option"

fun sandbox_backend :: "Sandbox option \<Rightarrow> Backend" where
  "sandbox_backend (Some Bubblewrap) = BackendBubblewrap"
| "sandbox_backend (Some Docker) = BackendContainer"
| "sandbox_backend (Some Podman) = BackendContainer"
| "sandbox_backend _ = BackendNone"

fun container_runtime_for :: "Sandbox option \<Rightarrow> Runtime" where
  "container_runtime_for (Some Podman) = RuntimePodman"
| "container_runtime_for _ = RuntimeDocker"

fun network_for :: "NetworkPolicy option \<Rightarrow> Network" where
  "network_for (Some NetAllow) = NetworkAllow"
| "network_for (Some NetDeny) = NetworkDeny"
| "network_for None = NetworkDeny"

definition resource_limits_for :: "Allowance \<Rightarrow> ResourceLimits" where
  "resource_limits_for limits = \<lparr> rl_max_processes = al_max_processes limits,
     rl_max_memory_bytes = al_max_memory_bytes limits, rl_max_cpu_seconds = al_max_cpu_seconds limits \<rparr>"

fun seccomp_for :: "Seccomp \<Rightarrow> SeccompMode" where
  "seccomp_for SeccompOff = ModeOff"
| "seccomp_for SeccompDefault = ModeDefault"

text \<open>\<open>check_sandbox_floor\<close>: \<open>Inl\<close> denies; the log lines are not modelled.\<close>

definition check_sandbox_floor :: "Allowance \<Rightarrow> (unit, unit) result" where
  "check_sandbox_floor limits =
     (if sandbox_backend (al_sandbox limits) \<noteq> BackendNone then Inr ()
      else if al_require_sandbox limits then Inl ()
      else Inr ())"

subsection \<open>Lemmas\<close>

lemma fold_insert_get:
  "bm_get (fold (\<lambda>(name, value). bm_insert name value) ovr env) k =
     (case map_of (rev ovr) k of None \<Rightarrow> bm_get env k | Some v \<Rightarrow> Some v)"
proof (induction ovr arbitrary: env)
  case (Cons kv ovr)
  then show ?case
    by (cases kv) (auto simp: bm_get_insert map_add_def split: option.splits)
qed simp

lemma fold_insert_keys:
  "fst ` set (fold (\<lambda>(name, value). bm_insert name value) ovr env) = fst ` set ovr \<union> fst ` set env"
proof (induction ovr arbitrary: env)
  case (Cons kv ovr)
  then show ?case
    using bm_insert_keys [of "fst kv" "snd kv" env] by (cases kv) auto
qed simp

lemma of_list_get: "bm_get (bm_of_list xs) k = map_of (rev xs) k"
  using fold_insert_get [of xs "[]" k] by (simp add: bm_of_list_def bm_get_def split: option.splits)

lemma sanitize_get:
  "bm_get (sanitize_env inherited ovr ex) k = (case map_of (rev ovr) k of
      Some v \<Rightarrow> Some v
    | None \<Rightarrow> if is_allowed_var k ex \<and> \<not> is_secret_var k then map_of (rev inherited) k else None)"
proof -
  have "map_of (rev (filter (\<lambda>(name, _). P name) xs)) k = (if P k then map_of (rev xs) k else None)"
    for P and xs :: "(string \<times> string) list"
    by (induction xs) (auto simp: map_add_def split: option.splits)
  then show ?thesis
    by (auto simp: sanitize_env_def fold_insert_get of_list_get split: option.splits)
qed

lemma override_screen:
  "first_disallowed_remote_override env ex = None \<longleftrightarrow>
     list_all (\<lambda>(name, _). \<not> is_secret_var name \<and> \<not> is_loader_control_var name \<and> is_allowed_var name ex) env"
  by (auto simp: first_disallowed_remote_override_def find_None_iff is_allowed_var_def list_all_iff)

lemma sandbox_floor_ok:
  "check_sandbox_floor limits = Inr () \<longleftrightarrow> \<not> al_require_sandbox limits \<or> sandbox_backend (al_sandbox limits) \<noteq> BackendNone"
  by (simp add: check_sandbox_floor_def)

text \<open>Allowlisting does not reach secrets: the named ones are recognised.\<close>

lemma named_secrets: "list_all is_secret_var SECRET_VARS"
  by (simp add: list_all_iff is_secret_var_def)

lemma safe_defaults: "list_all (\<lambda>name. \<not> is_secret_var name) DEFAULT_ALLOWED_VARS"
  by code_simp

subsection \<open>Properties\<close>

text \<open>C36. The environment of a remotely requested child. When the screen passes the overrides of a
  request, every variable of the child is allowlisted and none is a known secret, whatever the
  daemon's own environment and the operator's allowlist hold; the loader variables and the search
  path are those of the daemon; and every override of the request takes effect.\<close>

theorem remote_child_env:
  assumes "first_disallowed_remote_override overrides ex = None"
  shows "case bm_get (sanitize_env inherited overrides ex) k of
      None \<Rightarrow> map_of (rev overrides) k = None
    | Some v \<Rightarrow> is_allowed_var k ex \<and> \<not> is_secret_var k \<and>
        (if is_loader_control_var k then map_of (rev inherited) k = Some v
         else case map_of (rev overrides) k of None \<Rightarrow> map_of (rev inherited) k = Some v | Some w \<Rightarrow> v = w)"
proof (cases "map_of (rev overrides) k")
  case None
  then show ?thesis by (auto simp: sanitize_get split: option.splits)
next
  case (Some w)
  then have "(k, w) \<in> set overrides"
    by (metis map_of_SomeD set_rev)
  then have "\<not> is_secret_var k \<and> \<not> is_loader_control_var k \<and> is_allowed_var k ex"
    using assms by (auto simp: override_screen list_all_iff)
  then show ?thesis using Some by (simp add: sanitize_get)
qed

theorem remote_child_env_witness:
  "bm_get (sanitize_env [(''PATH'', ''/bin''), (''GITHUB_TOKEN'', ''x'')] [(''TERM'', ''dumb'')] [''GITHUB_TOKEN'']) ''GITHUB_TOKEN'' = None"
proof -
  have ok: "first_disallowed_remote_override [(''TERM'', ''dumb'')] [''GITHUB_TOKEN''] = None"
    by code_simp
  have "is_secret_var ''GITHUB_TOKEN''"
    by (simp add: is_secret_var_def SECRET_VARS_def)
  then show ?thesis
    using remote_child_env [OF ok, where inherited = "[(''PATH'', ''/bin''), (''GITHUB_TOKEN'', ''x'')]" and k = "''GITHUB_TOKEN''"]
    by (auto split: option.splits)
qed

end
