(* ===== verification/Audit_Log.thy ===== *)
theory Audit_Log
  imports Child_Env Task_Schema
begin

text \<open>
  The audit log, \<open>crates/mx-agent-daemon/src/audit.rs\<close>: the records written for each privileged
  decision, the redaction of command arguments and the append-only file. The clock is the argument
  \<open>ts\<close>; the file is the list of its lines and the outcome of a write a parameter.
\<close>

definition AUDIT_FILE_NAME :: string where "AUDIT_FILE_NAME = ''audit.log''"

datatype AuditDecision = Allowed | Denied | Held | Released | ExpiredHold

fun decision_name :: "AuditDecision \<Rightarrow> string" where
  "decision_name Allowed = ''allowed''"
| "decision_name Denied = ''denied''"
| "decision_name Held = ''held''"
| "decision_name Released = ''released''"
| "decision_name ExpiredHold = ''expired''"

definition from_outcome :: "Outcome \<Rightarrow> AuditDecision" where
  "from_outcome outcome = (if is_allowed outcome then Allowed else Denied)"

record AuditRecord =
  ad_ts :: string
  ad_room :: string
  ad_requester :: string
  ad_target :: string
  ad_invocation_id :: "string option"
  ad_request :: string
  ad_command :: "string list option"
  ad_tool :: "string option"
  ad_decision :: AuditDecision
  ad_policy_rule :: string
  ad_sandbox :: "string option"

subsection \<open>Redaction\<close>

definition dash :: char where "dash = CHR ''-''"

definition normalize_key :: "string \<Rightarrow> string" where
  "normalize_key key = map (\<lambda>c. if c = dash then CHR ''_'' else c) (dropWhile (\<lambda>c. c = dash) key)"

text \<open>The loop of \<open>redact_command\<close>; the flag is \<open>redact_next\<close>.\<close>

fun redact_loop :: "bool \<Rightarrow> string list \<Rightarrow> string list" where
  "redact_loop redact_next [] = []"
| "redact_loop redact_next (arg # args) =
     (if redact_next then REDACTED # redact_loop False args
      else if CHR ''='' \<in> set arg then
        (let key = takeWhile (\<lambda>c. c \<noteq> CHR ''='') arg
         in if is_sensitive_key (normalize_key key) then (key @ ''='' @ REDACTED) # redact_loop False args
            else arg # redact_loop False args)
      else if starts_with_str arg ''-'' \<and> is_sensitive_key (normalize_key arg)
        then arg # redact_loop True args
      else arg # redact_loop False args)"

definition redact_command :: "string list \<Rightarrow> string list" where
  "redact_command args = redact_loop False args"

subsection \<open>Records\<close>

fun deny_rule :: "DenyReason \<Rightarrow> string" where
  "deny_rule UnknownRoom = ''deny:unknown_room''"
| "deny_rule UntrustedRoom = ''deny:untrusted_room''"
| "deny_rule UnknownAgent = ''deny:unknown_agent''"
| "deny_rule EmptyCommand = ''deny:empty_command''"
| "deny_rule ExecNotAllowed = ''deny:exec_not_allowed''"
| "deny_rule (CommandNotAllowed _) = ''deny:command_not_allowed''"
| "deny_rule (CwdNotAllowed _) = ''deny:cwd_not_allowed''"
| "deny_rule (DeniedArguments _) = ''deny:denied_arguments''"
| "deny_rule (ToolNotAllowed _) = ''deny:tool_not_allowed''"

fun rule_for :: "Outcome \<Rightarrow> string \<Rightarrow> string" where
  "rule_for (Allow _) allow_rule = allow_rule"
| "rule_for (Deny reason) allow_rule = deny_rule reason"

definition sandbox_for_outcome :: "Outcome \<Rightarrow> string option" where
  "sandbox_for_outcome outcome =
     map_option (\<lambda>a. case al_sandbox a of Some s \<Rightarrow> sandbox_name s | None \<Rightarrow> ''none'') (allowance outcome)"

definition exec_record ::
  "string \<Rightarrow> string \<Rightarrow> string \<Rightarrow> string \<Rightarrow> string option \<Rightarrow> string list \<Rightarrow> AuditDecision \<Rightarrow> string \<Rightarrow> string option \<Rightarrow> AuditRecord" where
  "exec_record ts room requester target invocation_id command d rule sandbox = \<lparr>
     ad_ts = ts, ad_room = room, ad_requester = requester, ad_target = target, ad_invocation_id = invocation_id,
     ad_request = ''exec'', ad_command = Some (redact_command command), ad_tool = None, ad_decision = d,
     ad_policy_rule = rule, ad_sandbox = sandbox \<rparr>"

definition call_record ::
  "string \<Rightarrow> string \<Rightarrow> string \<Rightarrow> string \<Rightarrow> string option \<Rightarrow> string \<Rightarrow> AuditDecision \<Rightarrow> string \<Rightarrow> string option \<Rightarrow> AuditRecord" where
  "call_record ts room requester target invocation_id tool d rule sandbox = \<lparr>
     ad_ts = ts, ad_room = room, ad_requester = requester, ad_target = target, ad_invocation_id = invocation_id,
     ad_request = ''call'', ad_command = None, ad_tool = Some tool, ad_decision = d,
     ad_policy_rule = rule, ad_sandbox = sandbox \<rparr>"

definition for_exec ::
  "string \<Rightarrow> string \<Rightarrow> string \<Rightarrow> string \<Rightarrow> string option \<Rightarrow> string list \<Rightarrow> Outcome \<Rightarrow> AuditRecord" where
  "for_exec ts room requester target invocation_id command outcome =
     exec_record ts room requester target invocation_id command (from_outcome outcome)
       (rule_for outcome ''allow_commands'') (sandbox_for_outcome outcome)"

definition for_call ::
  "string \<Rightarrow> string \<Rightarrow> string \<Rightarrow> string \<Rightarrow> string option \<Rightarrow> string \<Rightarrow> Outcome \<Rightarrow> AuditRecord" where
  "for_call ts room requester target invocation_id tool outcome =
     call_record ts room requester target invocation_id tool (from_outcome outcome)
       (rule_for outcome ''allow_tools'') (sandbox_for_outcome outcome)"

definition for_exec_denied ::
  "string \<Rightarrow> string \<Rightarrow> string \<Rightarrow> string \<Rightarrow> string option \<Rightarrow> string list \<Rightarrow> string \<Rightarrow> AuditRecord" where
  "for_exec_denied ts room requester target invocation_id command why =
     exec_record ts room requester target invocation_id command Denied (''deny:'' @ why) None"

definition for_call_denied ::
  "string \<Rightarrow> string \<Rightarrow> string \<Rightarrow> string \<Rightarrow> string option \<Rightarrow> string \<Rightarrow> string \<Rightarrow> AuditRecord" where
  "for_call_denied ts room requester target invocation_id tool why =
     call_record ts room requester target invocation_id tool Denied (''deny:'' @ why) None"

definition for_exec_held ::
  "string \<Rightarrow> string \<Rightarrow> string \<Rightarrow> string \<Rightarrow> string option \<Rightarrow> string list \<Rightarrow> Outcome \<Rightarrow> AuditRecord" where
  "for_exec_held ts room requester target invocation_id command outcome =
     exec_record ts room requester target invocation_id command Held
       (rule_for outcome ''allow_commands'') (sandbox_for_outcome outcome)"

definition for_exec_released ::
  "string \<Rightarrow> string \<Rightarrow> string \<Rightarrow> string \<Rightarrow> string option \<Rightarrow> string list \<Rightarrow> Outcome \<Rightarrow> AuditRecord" where
  "for_exec_released ts room requester target invocation_id command outcome =
     exec_record ts room requester target invocation_id command Released
       (rule_for outcome ''allow_commands'') (sandbox_for_outcome outcome)"

definition for_exec_expired ::
  "string \<Rightarrow> string \<Rightarrow> string \<Rightarrow> string \<Rightarrow> string option \<Rightarrow> string list \<Rightarrow> AuditRecord" where
  "for_exec_expired ts room requester target invocation_id command =
     exec_record ts room requester target invocation_id command ExpiredHold ''approval_expired'' None"

definition for_call_held ::
  "string \<Rightarrow> string \<Rightarrow> string \<Rightarrow> string \<Rightarrow> string option \<Rightarrow> string \<Rightarrow> Outcome \<Rightarrow> AuditRecord" where
  "for_call_held ts room requester target invocation_id tool outcome =
     call_record ts room requester target invocation_id tool Held
       (rule_for outcome ''allow_tools'') (sandbox_for_outcome outcome)"

definition for_call_released ::
  "string \<Rightarrow> string \<Rightarrow> string \<Rightarrow> string \<Rightarrow> string option \<Rightarrow> string \<Rightarrow> Outcome \<Rightarrow> AuditRecord" where
  "for_call_released ts room requester target invocation_id tool outcome =
     call_record ts room requester target invocation_id tool Released
       (rule_for outcome ''allow_tools'') (sandbox_for_outcome outcome)"

definition for_call_expired ::
  "string \<Rightarrow> string \<Rightarrow> string \<Rightarrow> string \<Rightarrow> string option \<Rightarrow> string \<Rightarrow> AuditRecord" where
  "for_call_expired ts room requester target invocation_id tool =
     call_record ts room requester target invocation_id tool ExpiredHold ''approval_expired'' None"

text \<open>The JSON object of a line; \<open>to_json_line\<close> is its text by \<open>serde_json\<close>, the parameter \<open>prt\<close>.\<close>

definition skip_none :: "string \<Rightarrow> ('a \<Rightarrow> json) \<Rightarrow> 'a option \<Rightarrow> members" where
  "skip_none k f v = (case v of None \<Rightarrow> [] | Some x \<Rightarrow> [(k, f x)])"

definition audit_json :: "AuditRecord \<Rightarrow> json" where
  "audit_json r = JObject (
     [(''ts'', JString (ad_ts r)), (''room'', JString (ad_room r)), (''requester'', JString (ad_requester r)),
      (''target'', JString (ad_target r))] @ skip_none ''invocation_id'' JString (ad_invocation_id r) @
     [(''request'', JString (ad_request r))] @
     skip_none ''command'' (\<lambda>c. JArray (map JString c)) (ad_command r) @ skip_none ''tool'' JString (ad_tool r) @
     [(''decision'', JString (decision_name (ad_decision r))), (''policy_rule'', JString (ad_policy_rule r))] @
     skip_none ''sandbox'' JString (ad_sandbox r))"

definition to_json_line :: "(json \<Rightarrow> string) \<Rightarrow> AuditRecord \<Rightarrow> string" where
  "to_json_line prt r = prt (audit_json r)"

definition audit_default_path :: "(string \<Rightarrow> string option) \<Rightarrow> string option" where
  "audit_default_path env = map_option (\<lambda>dir. path_join dir AUDIT_FILE_NAME)
     (case env ''MX_AGENT_CONFIG_DIR'' of
        Some dir \<Rightarrow> Some dir
      | None \<Rightarrow>
        (case env ''XDG_CONFIG_HOME'' of
           Some xdg \<Rightarrow> Some (path_join xdg ''mx-agent'')
         | None \<Rightarrow>
           (case env ''HOME'' of
              Some home \<Rightarrow> Some (path_join home ''.config/mx-agent'')
            | None \<Rightarrow> None)))"

text \<open>\<open>append_audit\<close>: the log lives in the configuration directory, or in the data directory when none is
  known; a failed write is reported by the operating system as \<open>wr\<close>, logged and swallowed. A log file
  is the list of its lines.\<close>

definition append_audit ::
  "(json \<Rightarrow> string) \<Rightarrow> (string \<Rightarrow> string option) \<Rightarrow> string \<Rightarrow> io_kind option \<Rightarrow> AuditRecord \<Rightarrow>
     (string \<Rightarrow> string list) \<Rightarrow> (string \<Rightarrow> string list)" where
  "append_audit prt env data_dir wr r logs =
     (let path = (case audit_default_path env of Some p \<Rightarrow> p | None \<Rightarrow> path_join data_dir AUDIT_FILE_NAME)
      in case wr of None \<Rightarrow> logs (path := logs path @ [to_json_line prt r]) | Some _ \<Rightarrow> logs)"

subsection \<open>Lemmas\<close>

fun redact_state :: "bool \<Rightarrow> string list \<Rightarrow> bool" where
  "redact_state b [] = b"
| "redact_state b (arg # args) =
     redact_state (\<not> b \<and> CHR ''='' \<notin> set arg \<and> starts_with_str arg ''-'' \<and> is_sensitive_key (normalize_key arg)) args"

lemma redact_loop_append: "redact_loop b (xs @ ys) = redact_loop b xs @ redact_loop (redact_state b xs) ys"
  by (induction xs arbitrary: b) (auto simp: Let_def)

lemma redact_loop_length [simp]: "length (redact_loop b xs) = length xs"
  by (induction xs arbitrary: b) (auto simp: Let_def)

subsection \<open>Properties\<close>

text \<open>C38. Secrets of a command line stay out of the log. Provided the key is not itself
  taken as the value of an earlier sensitive flag, the value given to a sensitive key, inline after an equals sign or as the argument after
  a dashed flag, does not influence the audited record in any of its variants.\<close>

theorem audit_hides_values:
  assumes "\<not> redact_state False pre" "CHR ''='' \<notin> set key" "is_sensitive_key (normalize_key key)"
  shows "redact_command (pre @ (key @ ''='' @ v) # post) = redact_command (pre @ (key @ ''='' @ w) # post) \<and>
    (starts_with_str key ''-'' \<le>
       (for_exec ts room rq tg i (pre @ key # v # post) oc = for_exec ts room rq tg i (pre @ key # w # post) oc \<and>
        for_exec_denied ts room rq tg i (pre @ key # v # post) why = for_exec_denied ts room rq tg i (pre @ key # w # post) why \<and>
        for_exec_held ts room rq tg i (pre @ key # v # post) oc = for_exec_held ts room rq tg i (pre @ key # w # post) oc \<and>
        for_exec_released ts room rq tg i (pre @ key # v # post) oc = for_exec_released ts room rq tg i (pre @ key # w # post) oc \<and>
        for_exec_expired ts room rq tg i (pre @ key # v # post) = for_exec_expired ts room rq tg i (pre @ key # w # post)))"
proof -
  have t: "takeWhile (\<lambda>c. c \<noteq> CHR ''='') (key @ CHR ''='' # x) = key" for x
    using assms(2) by (induction key) auto
  have "redact_command (pre @ key # v # post) = redact_command (pre @ key # w # post)" if "starts_with_str key ''-''"
    using assms that by (simp add: redact_command_def redact_loop_append)
  then have s: "starts_with_str key ''-'' \<le> (redact_command (pre @ key # v # post) = redact_command (pre @ key # w # post))"
    by simp
  show ?thesis
    using assms(1,3) s
    by (auto simp: redact_command_def redact_loop_append t Let_def for_exec_def for_exec_denied_def for_exec_held_def
        for_exec_released_def for_exec_expired_def exec_record_def)
qed

theorem audit_hides_values_witness:
  "redact_command [''deploy'', ''--token'', ''s3cret''] = redact_command [''deploy'', ''--token'', ''other'']"
proof -
  have "\<not> redact_state False [''deploy'']" "CHR ''='' \<notin> set ''--token''" "is_sensitive_key (normalize_key ''--token'')"
    "starts_with_str ''--token'' ''-''"
    by code_simp+
  from audit_hides_values [OF this(1-3), of "''s3cret''" "[]" "''other''"] this(4) show ?thesis
    by (simp add: for_exec_def exec_record_def)
qed

text \<open>A sensitive flag right after another one is taken for its value, and the value after it is
  recorded.\<close>

lemma consecutive_flags_leak:
  "redact_command [''x'', ''--token'', ''--password'', ''hunter2''] = [''x'', ''--token'', REDACTED, ''hunter2'']"
  by code_simp

end
