(* ===== verification/Agents.thy ===== *)
theory Agents
  imports Event_Router Trust_Store Room_State
begin

text \<open>
  Agents: the daemon's signing key (\<open>crates/mx-agent-daemon/src/signing.rs\<close>), registration and
  listing of agent records (\<open>agent.rs\<close>), the count of running invocations (\<open>inflight.rs\<close>) and
  heartbeats with the verdict on whether an agent is alive (\<open>heartbeat.rs\<close>). SHA-256, base64 and the
  Ed25519 point decoding are the fields of a record \<open>key_codec\<close>; the answers of the homeserver to a
  request for timeline pages are a function of the number of requests so far and the page token.
\<close>

subsection \<open>Signing keys\<close>

record 'vk key_codec =
  kc_bytes :: "'vk \<Rightarrow> string"
  kc_from_bytes :: "string \<Rightarrow> 'vk option"
  kc_sha256 :: "string \<Rightarrow> string"
  kc_encode :: "string \<Rightarrow> string"
  kc_decode :: "string \<Rightarrow> string option"

datatype SigningKeyError = KeyIo io_error | KeyMalformed | KeyRandom string

definition key_id_for_verifying_key :: "'vk key_codec \<Rightarrow> 'vk \<Rightarrow> string" where
  "key_id_for_verifying_key kc key = KEY_ID_PREFIX @ '':'' @ kc_encode kc (kc_sha256 kc (kc_bytes kc key))"

definition fingerprint_of :: "'vk key_codec \<Rightarrow> 'vk \<Rightarrow> string" where
  "fingerprint_of kc key = ''SHA256:'' @ kc_encode kc (kc_sha256 kc (kc_bytes kc key))"

definition encode_verifying_key :: "'vk key_codec \<Rightarrow> 'vk \<Rightarrow> string" where
  "encode_verifying_key kc key = kc_encode kc (kc_bytes kc key)"

definition decode_verifying_key :: "'vk key_codec \<Rightarrow> string \<Rightarrow> (SigningKeyError, 'vk) result" where
  "decode_verifying_key kc encoded =
     and_then (ok_or (kc_decode kc encoded) KeyMalformed) (\<lambda>bs.
     if length bs \<noteq> 32 then Inl KeyMalformed else ok_or (kc_from_bytes kc bs) KeyMalformed)"

text \<open>The key file is read without the lock; only when it is missing is the lock taken, the file read
  again (\<open>ke_other\<close> is what another process wrote in between) and a fresh key written.\<close>

record key_env =
  ke_lock :: "io_error option"
  ke_other :: "(io_error, string) result option"
  ke_random :: "(string, string) result"
  ke_write :: "io_error option"

type_synonym key_file = "(io_error, string) result"

definition secret_of_bytes :: "(string \<Rightarrow> 'sk) \<Rightarrow> string \<Rightarrow> (SigningKeyError, 'sk) result" where
  "secret_of_bytes mk bs = (if length bs = 32 then Inr (mk bs) else Inl KeyMalformed)"

definition generate_and_store ::
  "(string \<Rightarrow> 'sk) \<Rightarrow> key_env \<Rightarrow> key_file \<Rightarrow> (SigningKeyError, 'sk) result \<times> key_file" where
  "generate_and_store mk ke file = (case ke_lock ke of
       Some e \<Rightarrow> (Inl (KeyIo e), file)
     | None \<Rightarrow>
        (let file = unwrap_or (ke_other ke) file
         in case file of
              Inr bs \<Rightarrow> (secret_of_bytes mk bs, file)
            | Inl e \<Rightarrow>
               if io_kind e \<noteq> NotFound then (Inl (KeyIo e), file)
               else case ke_random ke of
                 Inl r \<Rightarrow> (Inl (KeyRandom r), file)
               | Inr secret \<Rightarrow>
                  (case ke_write ke of
                     Some e' \<Rightarrow> (Inl (KeyIo e'), file)
                   | None \<Rightarrow> (Inr (mk secret), Inr secret))))"

definition load_or_create_signing_key ::
  "(string \<Rightarrow> 'sk) \<Rightarrow> key_env \<Rightarrow> key_file \<Rightarrow> (SigningKeyError, 'sk) result \<times> key_file" where
  "load_or_create_signing_key mk ke file = (case file of
       Inr bs \<Rightarrow> (secret_of_bytes mk bs, file)
     | Inl e \<Rightarrow> if io_kind e = NotFound then generate_and_store mk ke file else (Inl (KeyIo e), file))"

subsection \<open>Agent records\<close>

definition read_agent_state :: "Room \<Rightarrow> string \<Rightarrow> (WorkspaceError, AgentState option) result" where
  "read_agent_state rm agent_id = (case bm_get (rm_agents rm) agent_id of
       None \<Rightarrow> Inr None
     | Some Malformed \<Rightarrow> Inl serde_error
     | Some Absent \<Rightarrow> Inr None
     | Some (Parsed a) \<Rightarrow> Inr (Some a))"

definition read_all_agent_states :: "Room \<Rightarrow> (WorkspaceError, AgentState list) result" where
  "read_all_agent_states rm = collect_raw (map snd (rm_agents rm))"

text \<open>\<open>send_workspace_state\<close> for an agent record.\<close>

definition publish_agent_state ::
  "Env \<Rightarrow> string \<Rightarrow> AgentState \<Rightarrow> Room \<Rightarrow> (WorkspaceError, unit) result \<times> Room" where
  "publish_agent_state env agent_id state rm = (case en_state env AGENT_STATE_TYPE agent_id of
       Inl e \<Rightarrow> (Inl e, rm)
     | Inr _ \<Rightarrow> (Inr (), rm \<lparr> rm_agents := bm_insert agent_id (Parsed state) (rm_agents rm) \<rparr>))"

record RegisterAgentOptions =
  ro_room :: string
  ro_agent_id :: "string option"
  ro_kind :: string
  ro_capabilities :: "string list"
  ro_tools :: "string list"
  ro_cwd :: string
  ro_project_id :: string
  ro_max_invocations :: u32

definition derive_agent_id :: "string \<Rightarrow> string \<Rightarrow> string" where
  "derive_agent_id matrix_user_id device_id =
     (let localpart = (case strip_prefix ''@'' matrix_user_id of
            None \<Rightarrow> matrix_user_id
          | Some rest \<Rightarrow> (let s = hd (split_on (CHR '':'') rest) in if s = [] then matrix_user_id else s))
      in localpart @ ''-'' @ device_id)"

definition seed_local_key_trust ::
  "u64 \<Rightarrow> string \<Rightarrow> string \<Rightarrow> string \<Rightarrow> string \<Rightarrow> string \<Rightarrow> TrustStore \<Rightarrow> bool \<times> TrustStore" where
  "seed_local_key_trust now agent_id key_id fingerprint room trusted_by trust =
     (if (case trust_entry trust agent_id key_id of Some e \<Rightarrow> te_status e = Revoked | None \<Rightarrow> False)
      then (False, trust)
      else if is_trusted trust agent_id key_id then (False, trust)
      else (True, snd (approve now agent_id key_id (Some fingerprint) (Some room) (Some trusted_by) trust)))"

text \<open>What registration takes from its surroundings: the clock in milliseconds, the device id, the
  output of \<open>git rev-parse\<close>, the daemon's key, the trust store on disk and the outcome of writing it.\<close>

record 'vk RegisterEnv =
  re_env :: Env
  re_now_ms :: u64
  re_device_id :: "string option"
  re_git_commit :: "string option"
  re_codec :: "'vk key_codec"
  re_key :: "(string, 'vk) result"
  re_save :: "io_kind option"

definition registered_state :: "'vk RegisterEnv \<Rightarrow> RegisterAgentOptions \<Rightarrow> string \<Rightarrow> string \<Rightarrow> string \<Rightarrow> u64 \<Rightarrow> 'vk \<Rightarrow> AgentState" where
  "registered_state re options user device agent_id state_rev key = \<lparr>
     ag_agent_id = agent_id, ag_kind = ro_kind options, ag_matrix_user_id = user, ag_device_id = device,
     ag_signing_key_id = key_id_for_verifying_key (re_codec re) key,
     ag_signing_public_key = Some (encode_verifying_key (re_codec re) key), ag_status = ''active'',
     ag_capabilities = ro_capabilities options, ag_tools = ro_tools options,
     ag_workspace = \<lparr> aw_cwd = ro_cwd options, aw_project_id = ro_project_id options,
       aw_git_commit = unwrap_or (re_git_commit re) [] \<rparr>,
     ag_load = \<lparr> al_running_invocations = 0, al_max_invocations = ro_max_invocations options \<rparr>,
     ag_last_seen_ts = re_now_ms re, ag_state_rev = state_rev, ag_extra = [] \<rparr>"

text \<open>The trust store file is its decoded content, or the error of reading it.\<close>

definition register_agent ::
  "'vk RegisterEnv \<Rightarrow> RegisterAgentOptions \<Rightarrow> Client \<times> (io_kind, TrustStore) result
    \<Rightarrow> (WorkspaceError, AgentState) result \<times> Client \<times> (io_kind, TrustStore) result" where
  "register_agent re options = (\<lambda>(cl, trust_file).
     case sync_and_get_room cl (ro_room options) of
       Inl e \<Rightarrow> (Inl e, cl, trust_file)
     | Inr (room_id, rm) \<Rightarrow>
        (let user = user_id_or_empty cl;
             device = unwrap_or (re_device_id re) [];
             agent_id = (case ro_agent_id options of
                 Some s \<Rightarrow> if s = [] then derive_agent_id user device else s
               | None \<Rightarrow> derive_agent_id user device)
         in case read_agent_state rm agent_id of
              Inl e \<Rightarrow> (Inl e, cl, trust_file)
            | Inr previous \<Rightarrow>
               (case re_key re of
                  Inl msg \<Rightarrow> (Inl (InvalidTarget (''could not load signing key: '' @ msg)), cl, trust_file)
                | Inr key \<Rightarrow>
                   (let state_rev = (case previous of Some a \<Rightarrow> ag_state_rev a + 1 | None \<Rightarrow> 1);
                        state = registered_state re options user device agent_id state_rev key
                    in case publish_agent_state (re_env re) agent_id state rm of
                         (Inl e, rm') \<Rightarrow> (Inl e, put_room room_id rm' cl, trust_file)
                       | (Inr _, rm') \<Rightarrow>
                          (let (seeded, trust) = seed_local_key_trust (en_now (re_env re)) agent_id
                                 (key_id_for_verifying_key (re_codec re) key) (fingerprint_of (re_codec re) key)
                                 room_id user (case trust_file of Inr t \<Rightarrow> t | Inl _ \<Rightarrow> [])
                           in (Inr state, put_room room_id rm' cl,
                               if seeded \<and> re_save re = None then Inr trust else trust_file))))))"

definition matches_capabilities :: "AgentState \<Rightarrow> string list \<Rightarrow> bool" where
  "matches_capabilities agent wanted = list_all (\<lambda>w. w \<in> set (ag_capabilities agent)) wanted"

definition list_agents :: "string \<Rightarrow> string list \<Rightarrow> Client \<Rightarrow> (WorkspaceError, AgentState list) result" where
  "list_agents room capabilities cl =
     and_then (sync_and_get_room cl room) (\<lambda>(_, rm).
     and_then (read_all_agent_states rm) (\<lambda>agents.
     Inr (sort_key ag_agent_id (filter (\<lambda>a. matches_capabilities a capabilities) agents))))"

definition show_agent :: "string \<Rightarrow> string \<Rightarrow> Client \<Rightarrow> (WorkspaceError, AgentState option) result" where
  "show_agent room agent_id cl = and_then (sync_and_get_room cl room) (\<lambda>(_, rm). read_agent_state rm agent_id)"

subsection \<open>Running invocations\<close>

type_synonym inflight = "u32 bmap"

definition running_invocations :: "inflight \<Rightarrow> string \<Rightarrow> u32" where
  "running_invocations m agent_id = unwrap_or (bm_get m agent_id) 0"

definition inflight_enter :: "string \<Rightarrow> inflight \<Rightarrow> inflight" where
  "inflight_enter agent_id m = bm_insert agent_id (sat_add (running_invocations m agent_id) 1) m"

definition inflight_drop :: "string \<Rightarrow> inflight \<Rightarrow> inflight" where
  "inflight_drop agent_id m = (case bm_get m agent_id of
       None \<Rightarrow> m
     | Some count \<Rightarrow>
        (let count = sat_sub count 1 in if count = 0 then bm_remove agent_id m else bm_insert agent_id count m))"

subsection \<open>Heartbeats\<close>

text \<open>Durations are counted in milliseconds; \<open>as_millis\<close> truncates to 64 bits as the cast does.\<close>

definition as_millis :: "nat \<Rightarrow> u64" where "as_millis d = of_nat d"

definition DEFAULT_HEARTBEAT_INTERVAL :: nat where "DEFAULT_HEARTBEAT_INTERVAL = 30000"

definition DEFAULT_STALE_AFTER :: nat where "DEFAULT_STALE_AFTER = 90000"

definition DEFAULT_OFFLINE_AFTER :: nat where "DEFAULT_OFFLINE_AFTER = 300000"

definition DEFAULT_STATE_REFRESH :: nat where "DEFAULT_STATE_REFRESH = 300000"

definition HEARTBEAT_SCAN_LIMIT :: nat where "HEARTBEAT_SCAN_LIMIT = 100"

definition MAX_HEARTBEAT_SCAN_EVENTS :: nat where "MAX_HEARTBEAT_SCAN_EVENTS = 1000"

definition MAX_TRACKED_AGENTS :: nat where "MAX_TRACKED_AGENTS = 50000"

datatype Liveness = Active | Stale | Offline

fun liveness_str :: "Liveness \<Rightarrow> string" where
  "liveness_str Active = ''active''"
| "liveness_str Stale = ''stale''"
| "liveness_str Offline = ''offline''"

record LivenessConfig =
  lc_stale_after :: nat
  lc_offline_after :: nat

definition default_liveness_config :: LivenessConfig where
  "default_liveness_config = \<lparr> lc_stale_after = DEFAULT_STALE_AFTER, lc_offline_after = DEFAULT_OFFLINE_AFTER \<rparr>"

definition liveness :: "LivenessConfig \<Rightarrow> u64 \<Rightarrow> u64 \<Rightarrow> Liveness" where
  "liveness cfg last_seen_ms now_ms =
     (let elapsed = sat_sub now_ms last_seen_ms
      in if as_millis (lc_offline_after cfg) \<le> elapsed then Offline
         else if as_millis (lc_stale_after cfg) \<le> elapsed then Stale
         else Active)"

definition liveness_of :: "LivenessConfig \<Rightarrow> AgentState \<Rightarrow> u64 \<Rightarrow> Liveness" where
  "liveness_of cfg state now_ms = liveness cfg (ag_last_seen_ts state) now_ms"

definition liveness_combined :: "LivenessConfig \<Rightarrow> AgentState \<Rightarrow> u64 option \<Rightarrow> u64 \<Rightarrow> Liveness" where
  "liveness_combined cfg state latest_heartbeat_ts now_ms =
     liveness cfg (max (ag_last_seen_ts state) (unwrap_or latest_heartbeat_ts 0)) now_ms"

record HeartbeatConfig =
  hc_interval :: nat
  hc_state_refresh :: nat

definition default_heartbeat_config :: HeartbeatConfig where
  "default_heartbeat_config = \<lparr> hc_interval = DEFAULT_HEARTBEAT_INTERVAL, hc_state_refresh = DEFAULT_STATE_REFRESH \<rparr>"

definition should_refresh_state :: "HeartbeatConfig \<Rightarrow> bool \<Rightarrow> u64 \<Rightarrow> u64 \<Rightarrow> bool" where
  "should_refresh_state cfg status_changed last_state_ms now_ms =
     (if status_changed then True else as_millis (hc_state_refresh cfg) \<le> sat_sub now_ms last_state_ms)"

definition load_to_json :: "AgentLoad \<Rightarrow> json" where
  "load_to_json l = JObject [(''running_invocations'', JNum (PosInt (ucast (al_running_invocations l)))),
     (''max_invocations'', JNum (PosInt (ucast (al_max_invocations l))))]"

definition heartbeat_to_json :: "Heartbeat \<Rightarrow> json" where
  "heartbeat_to_json h = JObject ([(''agent_id'', JString (hb_agent_id h)), (''status'', JString (hb_status h)),
     (''load'', load_to_json (hb_load h)), (''ts'', JNum (PosInt (hb_ts h)))] @ hb_extra h)"

definition live_load :: "inflight \<Rightarrow> string \<Rightarrow> AgentState option \<Rightarrow> AgentLoad" where
  "live_load m agent_id existing = \<lparr> al_running_invocations = running_invocations m agent_id,
     al_max_invocations = (case existing of Some s \<Rightarrow> al_max_invocations (ag_load s) | None \<Rightarrow> 0) \<rparr>"

definition refreshed_state :: "string \<Rightarrow> u64 \<Rightarrow> AgentLoad \<Rightarrow> AgentState \<Rightarrow> AgentState" where
  "refreshed_state status ts l s =
     s \<lparr> ag_status := status, ag_last_seen_ts := ts, ag_load := l, ag_state_rev := ag_state_rev s + 1 \<rparr>"

definition emit_heartbeat ::
  "Env \<Rightarrow> u64 \<Rightarrow> inflight \<Rightarrow> string \<Rightarrow> string \<Rightarrow> HeartbeatConfig \<Rightarrow> u64 \<Rightarrow> Room
    \<Rightarrow> (WorkspaceError, bool) result \<times> Room" where
  "emit_heartbeat env ts m agent_id status config last_state_ms rm = (case read_agent_state rm agent_id of
       Inl e \<Rightarrow> (Inl e, rm)
     | Inr existing \<Rightarrow>
        (let l = live_load m agent_id existing;
             heartbeat = \<lparr> hb_agent_id = agent_id, hb_status = status, hb_load = l, hb_ts = ts, hb_extra = [] \<rparr>
         in case send_raw env HEARTBEAT (heartbeat_to_json heartbeat) rm of
              (Inl e, rm1) \<Rightarrow> (Inl e, rm1)
            | (Inr _, rm1) \<Rightarrow>
               (let status_changed = (case existing of Some s \<Rightarrow> ag_status s \<noteq> status | None \<Rightarrow> True)
                in if \<not> should_refresh_state config status_changed last_state_ms ts then (Inr False, rm1)
                   else case existing of
                     None \<Rightarrow> (Inr False, rm1)
                   | Some s \<Rightarrow>
                      (case publish_agent_state env agent_id (refreshed_state status ts l s) rm1 of
                         (Inl e, rm2) \<Rightarrow> (Inl e, rm2)
                       | (Inr _, rm2) \<Rightarrow> (Inr True, rm2)))))"

definition accept_heartbeat :: "string bmap \<Rightarrow> string \<Rightarrow> string option \<Rightarrow> bool" where
  "accept_heartbeat expected agent_id sender = (case (bm_get expected agent_id, sender) of
       (Some registered, Some s) \<Rightarrow> registered = s
     | _ \<Rightarrow> False)"

definition heartbeat_of_event :: "string bmap \<Rightarrow> members \<Rightarrow> Heartbeat option" where
  "heartbeat_of_event expected raw =
     (if str_member raw ''type'' \<noteq> Some HEARTBEAT then None
      else case field heartbeat_from_json raw ''content'' of
        None \<Rightarrow> None
      | Some h \<Rightarrow> if accept_heartbeat expected (hb_agent_id h) (str_member raw ''sender'') then Some h else None)"

definition heartbeat_step :: "string bmap \<Rightarrow> members \<Rightarrow> Heartbeat bmap \<Rightarrow> Heartbeat bmap" where
  "heartbeat_step expected raw latest = (case heartbeat_of_event expected raw of
       None \<Rightarrow> latest
     | Some h \<Rightarrow> if bm_get latest (hb_agent_id h) = None then bm_insert (hb_agent_id h) h latest else latest)"

text \<open>\<open>messages i page\<close> is the answer to request number \<open>i\<close>: the page, newest event first, and the token of
  the page before it.\<close>

type_synonym timeline_pages = "nat \<Rightarrow> string option \<Rightarrow> (WorkspaceError, members list \<times> string option) result"

function scan_heartbeats ::
  "timeline_pages \<Rightarrow> string bmap \<Rightarrow> nat \<Rightarrow> nat \<Rightarrow> string option \<Rightarrow> nat \<Rightarrow> Heartbeat bmap
    \<Rightarrow> (WorkspaceError, Heartbeat bmap) result" where
  "scan_heartbeats messages expected max_events i page scanned latest =
     (if \<not> scanned < max_events then Inr latest
      else case messages i page of
        Inl e \<Rightarrow> Inl e
      | Inr (chunk, page_end) \<Rightarrow>
         if chunk = [] then Inr latest
         else
           (let latest = fold (heartbeat_step expected) chunk latest;
                scanned = scanned + length chunk
            in if list_all (\<lambda>(a, _). bm_get latest a \<noteq> None) expected then Inr latest
               else case page_end of
                 None \<Rightarrow> Inr latest
               | Some token \<Rightarrow> scan_heartbeats messages expected max_events (Suc i) (Some token) scanned latest))"
  by pat_completeness auto

termination
  by (relation "measure (\<lambda>(messages, expected, max_events, i, page, scanned, latest). max_events - scanned)")
    (auto intro!: diff_less_mono2)

declare scan_heartbeats.simps [simp del]

definition expected_senders :: "AgentState list \<Rightarrow> string bmap" where
  "expected_senders agents = bm_of_list (map (\<lambda>a. (ag_agent_id a, ag_matrix_user_id a)) agents)"

definition read_latest_heartbeats ::
  "timeline_pages \<Rightarrow> AgentState list \<Rightarrow> nat \<Rightarrow> (WorkspaceError, Heartbeat bmap) result" where
  "read_latest_heartbeats messages agents max_events =
     (let expected = expected_senders agents
      in if expected = [] then Inr [] else scan_heartbeats messages expected max_events 0 None 0 [])"

text \<open>\<open>bounded_latest_heartbeats\<close>: \<open>read\<close> is \<open>None\<close> when the read did not finish in time.\<close>

definition bounded_latest_heartbeats ::
  "(WorkspaceError, Heartbeat bmap) result option \<Rightarrow> Heartbeat bmap" where
  "bounded_latest_heartbeats read = (case read of Some (Inr latest) \<Rightarrow> latest | _ \<Rightarrow> [])"

record AgentListing =
  ls_agent :: AgentState
  ls_liveness :: Liveness

definition enrich_with_liveness ::
  "(WorkspaceError, Heartbeat bmap) result option \<Rightarrow> u64 \<Rightarrow> AgentState list \<Rightarrow> AgentListing list" where
  "enrich_with_liveness read now agents =
     (let latest = bounded_latest_heartbeats read
      in map (\<lambda>a. \<lparr> ls_agent = a, ls_liveness = liveness_combined default_liveness_config a
                     (map_option hb_ts (bm_get latest (ag_agent_id a))) now \<rparr>) agents)"

definition owned_agents :: "AgentState list \<Rightarrow> string \<Rightarrow> AgentState list" where
  "owned_agents agents local_user = filter (\<lambda>a. ag_matrix_user_id a = local_user) agents"

text \<open>The map from room and agent to the last refresh of the durable record.\<close>

type_synonym refresh_times = "((string \<times> string) \<times> u64) list"

definition stored_last_state_ms :: "string \<times> string \<Rightarrow> u64 \<Rightarrow> refresh_times \<Rightarrow> u64 \<times> refresh_times" where
  "stored_last_state_ms key last_seen tracked = (case map_of tracked key of
       Some t \<Rightarrow> (t, tracked)
     | None \<Rightarrow> (last_seen, (key, last_seen) # tracked))"

definition heartbeat_agent ::
  "Env \<Rightarrow> u64 \<Rightarrow> inflight \<Rightarrow> HeartbeatConfig \<Rightarrow> string \<Rightarrow> AgentState \<Rightarrow> Room \<times> refresh_times \<Rightarrow> Room \<times> refresh_times" where
  "heartbeat_agent env now m config room_id agent = (\<lambda>(rm, tracked).
     let key = (room_id, ag_agent_id agent);
         (stored, tracked) = stored_last_state_ms key (ag_last_seen_ts agent) tracked
     in case emit_heartbeat env now m (ag_agent_id agent) (ag_status agent) config stored rm of
          (Inr True, rm') \<Rightarrow> (rm', (key, now) # filter (\<lambda>kv. fst kv \<noteq> key) tracked)
        | (_, rm') \<Rightarrow> (rm', tracked))"

definition heartbeat_room ::
  "Env \<Rightarrow> u64 \<Rightarrow> inflight \<Rightarrow> HeartbeatConfig \<Rightarrow> string \<Rightarrow> string \<Rightarrow> Room \<times> refresh_times \<Rightarrow> Room \<times> refresh_times" where
  "heartbeat_room env now m config local_user room_id = (\<lambda>(rm, tracked).
     case read_all_agent_states rm of
       Inl _ \<Rightarrow> (rm, tracked)
     | Inr agents \<Rightarrow> fold (heartbeat_agent env now m config room_id) (owned_agents agents local_user) (rm, tracked))"

text \<open>A pass over the joined rooms. One clock reading serves the whole pass.\<close>

definition heartbeat_pass ::
  "Env \<Rightarrow> u64 \<Rightarrow> inflight \<Rightarrow> HeartbeatConfig \<Rightarrow> Client \<times> refresh_times \<Rightarrow> Client \<times> refresh_times" where
  "heartbeat_pass env now m config = (\<lambda>(cl, tracked).
     if user_id_or_empty cl = [] then (cl, tracked)
     else fold (\<lambda>(room_id, rm) (cl, tracked).
            case heartbeat_room env now m config (user_id_or_empty cl) room_id (rm, tracked) of
              (rm', tracked') \<Rightarrow> (put_room room_id rm' cl, tracked')) (cl_rooms cl) (cl, tracked))"

text \<open>One iteration of the loop: the tracking map is emptied when it outgrows its bound.\<close>

definition heartbeat_iteration ::
  "Env \<Rightarrow> u64 \<Rightarrow> inflight \<Rightarrow> HeartbeatConfig \<Rightarrow> Client \<times> refresh_times \<Rightarrow> Client \<times> refresh_times" where
  "heartbeat_iteration env now m config = (\<lambda>(cl, tracked).
     heartbeat_pass env now m config (cl, if MAX_TRACKED_AGENTS < length tracked then [] else tracked))"

subsection \<open>Lemmas on keys and registration\<close>

text \<open>Documented behaviour of the encoders: decoding undoes encoding, a key has 32 bytes.\<close>

definition codec_laws :: "'vk key_codec \<Rightarrow> bool" where
  "codec_laws kc \<longleftrightarrow> (\<forall>x. kc_decode kc (kc_encode kc x) = Some x) \<and>
     (\<forall>k. length (kc_bytes kc k) = 32 \<and> kc_from_bytes kc (kc_bytes kc k) = Some k)"

lemma decode_encode_key: "codec_laws kc \<Longrightarrow> decode_verifying_key kc (encode_verifying_key kc k) = Inr k"
  by (simp add: codec_laws_def decode_verifying_key_def encode_verifying_key_def)

text \<open>A key that was loaded or created once is the one every later call loads.\<close>

lemma signing_key_stable:
  assumes "\<And>s. ke_random ke = Inr s \<Longrightarrow> length s = 32"
    and "load_or_create_signing_key mk ke file = (Inr sk, file')"
  shows "load_or_create_signing_key mk ke' file' = (Inr sk, file')"
  using assms
  by (auto simp: load_or_create_signing_key_def generate_and_store_def secret_of_bytes_def Let_def
      split: sum.splits if_splits option.splits)

lemma read_own_agent_write:
  assumes "publish_agent_state env k a rm = (Inr u, rm')"
  shows "read_agent_state rm' j = (if j = k then Inr (Some a) else read_agent_state rm j)"
  using assms by (auto simp: publish_agent_state_def read_agent_state_def bm_get_insert split: sum.splits)

lemma publish_agent_frame:
  "publish_agent_state env k a rm = (r, rm') \<Longrightarrow>
   rm_tasks rm' = rm_tasks rm \<and> rm_invocations rm' = rm_invocations rm \<and> rm_timeline rm' = rm_timeline rm"
  by (auto simp: publish_agent_state_def split: sum.splits)

text \<open>Counting: entering and leaving are inverse below the 32 bit limit, and an agent without running
  work has no entry.\<close>

lemma running_enter:
  "running_invocations (inflight_enter a m) b =
     (if a = b then sat_add (running_invocations m a) 1 else running_invocations m b)"
  by (auto simp: running_invocations_def inflight_enter_def bm_get_insert unwrap_or_def)

lemma running_drop:
  "running_invocations (inflight_drop a m) b =
     (if a = b then sat_sub (running_invocations m a) 1 else running_invocations m b)"
  by (auto simp: running_invocations_def inflight_drop_def bm_get_insert bm_get_remove unwrap_or_def Let_def
      sat_sub_def split: option.splits)

lemma inflight_guard:
  assumes "running_invocations m a \<noteq> - 1"
  shows "running_invocations (inflight_drop a (inflight_enter a m)) = running_invocations m"
proof (rule ext)
  fix b
  have "unat (running_invocations m a) \<noteq> 2 ^ 32 - 1"
  proof
    assume "unat (running_invocations m a) = 2 ^ 32 - 1"
    then have "unat (running_invocations m a) = unat (- 1 :: u32)"
      by (simp add: unsigned_minus_1_eq_mask mask_eq_exp_minus_1)
    then show False using assms by (simp add: word_unat_eq_iff)
  qed
  moreover have "unat (running_invocations m a) < 2 ^ 32"
    using unsigned_less [of "running_invocations m a"] by simp
  ultimately have "unat (sat_sub (sat_add (running_invocations m a) 1) 1) = unat (running_invocations m a)"
    by (simp add: sat_sub_unat sat_add_unat)
  then show "running_invocations (inflight_drop a (inflight_enter a m)) b = running_invocations m b"
    by (auto simp: running_drop running_enter word_unat_eq_iff)
qed

subsection \<open>Lemmas on heartbeats\<close>

lemma load_roundtrip [simp]: "load_from_json (load_to_json l) = Some l"
proof -
  have "unat (ucast (w :: u32) :: u64) < 2 ^ 32" for w
  proof -
    have "unat w < 2 ^ LENGTH(32)" by (rule unsigned_less)
    then show ?thesis by (simp add: unsigned_ucast_eq take_bit_eq_mod)
  qed
  moreover have "ucast (ucast (w :: u32) :: u64) = w" for w
    by (intro bit_word_eqI) (simp add: bit_unsigned_iff)
  ultimately show ?thesis
    by (simp add: load_from_json_def load_to_json_def field_def as_u_below_def)
qed

lemma heartbeat_roundtrip: "hb_extra h = [] \<Longrightarrow> heartbeat_from_json (heartbeat_to_json h) = Some h"
  by (cases h) (simp add: heartbeat_from_json_def heartbeat_to_json_def others_Cons)

text \<open>The events a scan without the early exit reads: page after page until the budget is used up.\<close>

function events_within :: "timeline_pages \<Rightarrow> nat \<Rightarrow> nat \<Rightarrow> string option \<Rightarrow> nat \<Rightarrow> members list" where
  "events_within messages max_events i page scanned =
     (if \<not> scanned < max_events then []
      else case messages i page of
        Inl _ \<Rightarrow> []
      | Inr (chunk, page_end) \<Rightarrow>
         if chunk = [] then []
         else chunk @ (case page_end of
           None \<Rightarrow> []
         | Some token \<Rightarrow> events_within messages max_events (Suc i) (Some token) (scanned + length chunk)))"
  by pat_completeness auto

termination
  by (relation "measure (\<lambda>(messages, max_events, i, page, scanned). max_events - scanned)")
    (auto intro!: diff_less_mono2)

declare events_within.simps [simp del]

definition accepted_heartbeats :: "string bmap \<Rightarrow> members list \<Rightarrow> Heartbeat list" where
  "accepted_heartbeats expected evs = List.map_filter (heartbeat_of_event expected) evs"

lemma accepted_append [simp]:
  "accepted_heartbeats x (as @ bs) = accepted_heartbeats x as @ accepted_heartbeats x bs"
  by (simp add: accepted_heartbeats_def map_filter_def)

lemma accepted_Nil [simp]: "accepted_heartbeats x [] = []"
  by (simp add: accepted_heartbeats_def map_filter_def)

lemma accepted_Cons:
  "accepted_heartbeats x (e # es) = (case heartbeat_of_event x e of None \<Rightarrow> [] | Some h \<Rightarrow> [h]) @ accepted_heartbeats x es"
  by (simp add: accepted_heartbeats_def map_filter_simps split: option.split)

lemma fold_heartbeat_step:
  "bm_get (fold (heartbeat_step x) evs latest) a =
     (case bm_get latest a of Some h \<Rightarrow> Some h | None \<Rightarrow> find (\<lambda>h. hb_agent_id h = a) (accepted_heartbeats x evs))"
proof (induction evs arbitrary: latest)
  case (Cons e es)
  show ?case
    unfolding fold_simps(2) Cons.IH accepted_Cons
    by (auto simp: heartbeat_step_def bm_get_insert split: option.splits)
qed (simp split: option.split)

lemma accepted_expected:
  "h \<in> set (accepted_heartbeats x evs) \<Longrightarrow> bm_get x (hb_agent_id h) \<noteq> None"
proof (induction evs)
  case (Cons e es)
  have "heartbeat_of_event x e = Some h \<Longrightarrow> ?case"
    by (auto simp: heartbeat_of_event_def accept_heartbeat_def split: if_splits option.splits)
  then show ?case
    using Cons by (auto simp: accepted_Cons split: option.splits)
qed simp

lemma all_expected_found:
  assumes "list_all (\<lambda>(a, _). bm_get m a \<noteq> None) x" "h \<in> set (accepted_heartbeats x evs)"
  shows "bm_get m (hb_agent_id h) \<noteq> None"
proof -
  obtain u where "(hb_agent_id h, u) \<in> set x"
    using accepted_expected [OF assms(2)] by (auto simp: bm_get_def dest: map_of_SomeD)
  then show ?thesis using assms(1) by (auto simp: list_all_iff)
qed

lemma find_append: "find P (xs @ ys) = (case find P xs of Some y \<Rightarrow> Some y | None \<Rightarrow> find P ys)"
  by (induction xs) auto

text \<open>The early exit loses nothing, and a failure is the failure of one of the requests.\<close>

lemma scan_heartbeats_spec:
  "case scan_heartbeats messages x max_events i page scanned latest of
      Inl e \<Rightarrow> \<exists>j token. i \<le> j \<and> j < i + (max_events - scanned) \<and> messages j token = Inl e
    | Inr r \<Rightarrow> bm_get r a = (case bm_get latest a of
        Some h \<Rightarrow> Some h
      | None \<Rightarrow> find (\<lambda>h. hb_agent_id h = a)
          (accepted_heartbeats x (events_within messages max_events i page scanned)))"
proof (induction messages x max_events i page scanned latest rule: scan_heartbeats.induct)
  case (1 messages x max_events i page scanned latest)
  note unf = scan_heartbeats.simps [of messages x max_events i page scanned latest]
    events_within.simps [of messages max_events i page scanned]
  show ?case
  proof (cases "scanned < max_events")
    case False
    then show ?thesis by (simp add: unf split: option.split)
  next
    case lt: True
    show ?thesis
    proof (cases "messages i page")
      case (Inl e)
      then show ?thesis using lt by (auto simp: unf intro!: exI [of _ i])
    next
      case (Inr ce)
      obtain chunk pe where ce: "ce = (chunk, pe)" by (cases ce)
      define latest' where "latest' = fold (heartbeat_step x) chunk latest"
      note get' = fold_heartbeat_step [of x chunk latest, folded latest'_def]
      show ?thesis
      proof (cases "chunk = [] \<or> list_all (\<lambda>(a, _). bm_get latest' a \<noteq> None) x \<or> pe = None")
        case stop: True
        have r: "scan_heartbeats messages x max_events i page scanned latest = Inr latest'"
          using stop lt Inr ce by (auto simp: unf latest'_def Let_def split: option.split)
        obtain rest where w: "events_within messages max_events i page scanned = chunk @ rest"
          and rest: "chunk = [] \<or> pe = None \<Longrightarrow> rest = []"
          using lt Inr ce by (cases "chunk = []"; cases pe) (auto simp: unf)
        have "find (\<lambda>h. hb_agent_id h = a) (accepted_heartbeats x rest) = None" if "bm_get latest' a = None"
        proof (cases "rest = []")
          case False
          then have "list_all (\<lambda>(a, _). bm_get latest' a \<noteq> None) x" using stop rest by blast
          then have "\<forall>h \<in> set (accepted_heartbeats x rest). hb_agent_id h \<noteq> a"
            using all_expected_found that by blast
          then show ?thesis by (simp add: find_None_iff)
        qed simp
        then show ?thesis
          unfolding r w using get' [of a]
          by (auto simp: find_append split: option.splits)
      next
        case False
        then obtain token where go: "chunk \<noteq> []" "\<not> list_all (\<lambda>(a, _). bm_get latest' a \<noteq> None) x" "pe = Some token"
          by auto
        have r: "scan_heartbeats messages x max_events i page scanned latest =
            scan_heartbeats messages x max_events (Suc i) (Some token) (scanned + length chunk) latest'"
          using go lt Inr ce by (simp add: unf latest'_def Let_def)
        have w: "events_within messages max_events i page scanned =
            chunk @ events_within messages max_events (Suc i) (Some token) (scanned + length chunk)"
          using go lt Inr ce by (simp add: unf)
        note ih = 1 [OF _ Inr ce [symmetric] go(1) latest'_def refl go(2,3)]
        show ?thesis
        proof (cases "scan_heartbeats messages x max_events (Suc i) (Some token) (scanned + length chunk) latest'")
          case err: (Inl e)
          obtain j tk where j: "Suc i \<le> j" "j < Suc i + (max_events - (scanned + length chunk))" "messages j tk = Inl e"
            using ih lt unfolding err by auto
          have "0 < length chunk" using go(1) by simp
          then have "j < i + (max_events - scanned)" using j(1,2) lt by linarith
          then show ?thesis
            unfolding r err using j(1,3) by (auto intro!: exI [of _ j])
        next
          case ok: (Inr m)
          show ?thesis
            unfolding r w using ih lt get' [of a]
            by (auto simp: ok find_append split: option.splits)
        qed
      qed
    qed
  qed
qed

text \<open>Only the answers to the first \<open>max_events\<close> requests matter.\<close>

lemma scan_heartbeats_requests:
  assumes "\<And>j. i \<le> j \<Longrightarrow> j < i + (max_events - scanned) \<Longrightarrow> messages j = messages' j"
  shows "scan_heartbeats messages x max_events i page scanned latest =
    scan_heartbeats messages' x max_events i page scanned latest"
  using assms
proof (induction messages x max_events i page scanned latest rule: scan_heartbeats.induct)
  case (1 messages x max_events i page scanned latest)
  note unf = scan_heartbeats.simps [of _ x max_events i page scanned latest]
  show ?case
  proof (cases "scanned < max_events")
    case lt: True
    then have eq: "messages' i = messages i" using "1.prems" [of i] by simp
    show ?thesis
    proof (cases "messages i page")
      case (Inr ce)
      obtain chunk pe where ce: "ce = (chunk, pe)" by (cases ce)
      show ?thesis
      proof (cases "chunk = [] \<or> list_all (\<lambda>(a, _). bm_get (fold (heartbeat_step x) chunk latest) a \<noteq> None) x \<or> pe = None")
        case True
        then show ?thesis using lt Inr ce eq by (auto simp: unf Let_def)
      next
        case False
        then obtain token where go: "chunk \<noteq> []"
          "\<not> list_all (\<lambda>(a, _). bm_get (fold (heartbeat_step x) chunk latest) a \<noteq> None) x" "pe = Some token"
          by auto
        then have "0 < length chunk" by simp
        have "scan_heartbeats messages x max_events (Suc i) (Some token) (scanned + length chunk)
            (fold (heartbeat_step x) chunk latest) =
          scan_heartbeats messages' x max_events (Suc i) (Some token) (scanned + length chunk)
            (fold (heartbeat_step x) chunk latest)"
        proof (rule "1.IH" [OF _ Inr ce [symmetric] go(1) refl refl go(2,3)])
          show "\<not> \<not> scanned < max_events" using lt by simp
          fix j
          assume "Suc i \<le> j" "j < Suc i + (max_events - (scanned + length chunk))"
          then show "messages j = messages' j"
            using \<open>0 < length chunk\<close> lt by (intro "1.prems") linarith+
        qed
        then show ?thesis using go lt Inr ce eq by (simp add: unf Let_def)
      qed
    qed (use lt eq in \<open>simp add: unf\<close>)
  qed (simp add: unf)
qed

lemma expected_get:
  "bm_get (expected_senders agents) a =
     map_of (rev (map (\<lambda>a. (ag_agent_id a, ag_matrix_user_id a)) agents)) a"
proof -
  have "bm_get (fold (\<lambda>(k, v). bm_insert k v) kvs m) a = (case map_of (rev kvs) a of None \<Rightarrow> bm_get m a | Some v \<Rightarrow> Some v)"
    for kvs and m :: "string bmap"
    by (induction kvs arbitrary: m) (auto simp: bm_get_insert map_add_def split: option.splits)
  then show ?thesis
    by (simp add: expected_senders_def bm_of_list_def bm_get_def split: option.split)
qed

lemma expected_in:
  assumes "bm_get (expected_senders agents) a = Some u"
  shows "\<exists>g \<in> set agents. ag_agent_id g = a \<and> ag_matrix_user_id g = u"
  using map_of_SomeD [OF assms [unfolded expected_get]] by auto

lemma expected_distinct:
  assumes "distinct (map ag_agent_id agents)" "g \<in> set agents"
  shows "bm_get (expected_senders agents) (ag_agent_id g) = Some (ag_matrix_user_id g)"
proof -
  have "map_of (rev (map (\<lambda>a. (ag_agent_id a, ag_matrix_user_id a)) agents)) (ag_agent_id g) = Some (ag_matrix_user_id g)"
    using assms by (intro map_of_is_SomeI) (auto simp: rev_map [symmetric] comp_def)
  then show ?thesis by (simp add: expected_get)
qed

lemma scan_nothing_expected:
  "events_within messages n i page s = evs \<Longrightarrow> accepted_heartbeats [] evs = []"
  using accepted_expected [of _ "[]" evs] by (force simp: bm_get_def)

lemma accepted_pinned:
  assumes "heartbeat_of_event (expected_senders agents) raw = Some h"
  shows "list_ex (\<lambda>g. ag_agent_id g = hb_agent_id h \<and> str_member raw ''sender'' = Some (ag_matrix_user_id g)) agents"
proof -
  obtain u where u: "bm_get (expected_senders agents) (hb_agent_id h) = Some u" "str_member raw ''sender'' = Some u"
    using assms by (auto simp: heartbeat_of_event_def accept_heartbeat_def split: if_splits option.splits)
  then show ?thesis
    using expected_in [OF u(1)] by (auto simp: list_ex_iff)
qed

lemma read_latest_spec:
  "case read_latest_heartbeats messages agents max_events of
      Inl e \<Rightarrow> \<exists>j < max_events. \<exists>token. messages j token = Inl e
    | Inr latest \<Rightarrow> bm_get latest a = find (\<lambda>h. hb_agent_id h = a)
        (accepted_heartbeats (expected_senders agents) (events_within messages max_events 0 None 0))"
proof (cases "expected_senders agents = []")
  case True
  then show ?thesis
    using scan_nothing_expected [of messages max_events 0 None 0]
    by (simp add: read_latest_heartbeats_def bm_get_def)
next
  case False
  then have r: "read_latest_heartbeats messages agents max_events =
      scan_heartbeats messages (expected_senders agents) max_events 0 None 0 []"
    by (simp add: read_latest_heartbeats_def Let_def)
  have "(bm_get [] a :: Heartbeat option) = None" by (simp add: bm_get_def)
  then show ?thesis
    unfolding r using scan_heartbeats_spec [where messages = messages and x = "expected_senders agents" and max_events = max_events
        and i = 0 and page = None and scanned = 0 and latest = "[]" and a = a]
    by (auto split: sum.splits)
qed

lemma liveness_Active:
  assumes "lc_stale_after cfg < 2 ^ 64" "lc_stale_after cfg \<le> lc_offline_after cfg" "lc_offline_after cfg < 2 ^ 64"
  shows "liveness cfg s now = Active \<longleftrightarrow> unat now - unat s < lc_stale_after cfg"
proof -
  have *: "as_millis d \<le> sat_sub now s \<longleftrightarrow> d \<le> unat now - unat s" if "d < 2 ^ 64" for d
    using that by (simp add: as_millis_def word_le_nat_alt sat_sub_unat unat_of_nat)
  show ?thesis
    using assms unfolding liveness_def Let_def * [OF assms(1)] * [OF assms(3)] by auto
qed

lemma emitted_heartbeat:
  assumes "emit_heartbeat env ts m agent_id status config last_ms rm = (Inr b, rm')"
  shows "\<exists>l. rm_timeline rm' = rm_timeline rm @ [(HEARTBEAT, heartbeat_to_json
    \<lparr> hb_agent_id = agent_id, hb_status = status, hb_load = l, hb_ts = ts, hb_extra = [] \<rparr>)]"
  using assms
  by (auto simp: emit_heartbeat_def Let_def send_raw_def publish_agent_state_def
      split: sum.splits option.splits if_splits)

subsection \<open>Properties\<close>


text \<open>A heartbeat keeps its agent alive. Once an agent has emitted a heartbeat, every reader who
  sees the event on the first page of the timeline, sent from the registered account, and whose scan
  succeeds lists the agent as active until 90 seconds after the heartbeat, however old its durable
  record is, unless a newer heartbeat of the agent itself takes precedence.\<close>

theorem heartbeat_keeps_active:
  assumes "emit_heartbeat env ts m (ag_agent_id g) status config last_ms rm = (Inr b, rm')"
    and "distinct (map ag_agent_id agents)" "g \<in> set agents"
    and "messages 0 None = Inr (newer @ raw # older, token)"
    and "str_member raw ''type'' = Some HEARTBEAT" "str_member raw ''sender'' = Some (ag_matrix_user_id g)"
      "map_of raw ''content'' = Some (snd (last (rm_timeline rm')))"
    and "list_all (\<lambda>h. hb_agent_id h \<noteq> ag_agent_id g) (accepted_heartbeats (expected_senders agents) newer)"
    and "read_latest_heartbeats messages agents MAX_HEARTBEAT_SCAN_EVENTS = Inr latest"
    and "unat now < unat ts + 90000"
  shows "\<lparr> ls_agent = g, ls_liveness = Active \<rparr> \<in> set (enrich_with_liveness
    (Some (read_latest_heartbeats messages agents MAX_HEARTBEAT_SCAN_EVENTS)) now agents)"
proof -
  let ?x = "expected_senders agents"
  obtain l where tl: "rm_timeline rm' = rm_timeline rm @ [(HEARTBEAT, heartbeat_to_json
      \<lparr> hb_agent_id = ag_agent_id g, hb_status = status, hb_load = l, hb_ts = ts, hb_extra = [] \<rparr>)]"
    using emitted_heartbeat [OF assms(1)] by blast
  define h where "h = \<lparr> hb_agent_id = ag_agent_id g, hb_status = status, hb_load = l, hb_ts = ts, hb_extra = [] \<rparr>"
  have "heartbeat_of_event ?x raw = Some h"
    using assms(5-7) tl expected_distinct [OF assms(2,3)] heartbeat_roundtrip [of h]
    by (simp add: heartbeat_of_event_def accept_heartbeat_def field_def h_def)
  moreover obtain rest where "events_within messages MAX_HEARTBEAT_SCAN_EVENTS 0 None 0 = newer @ raw # rest"
    using assms(4) events_within.simps [of messages MAX_HEARTBEAT_SCAN_EVENTS 0 None 0]
    by (auto simp: MAX_HEARTBEAT_SCAN_EVENTS_def)
  moreover have "find (\<lambda>h. hb_agent_id h = ag_agent_id g) (accepted_heartbeats ?x newer) = None"
    using assms(8) by (auto simp: find_None_iff list_all_iff)
  ultimately have "bm_get latest (ag_agent_id g) = Some h"
    using read_latest_spec [where messages = messages and agents = agents and max_events = MAX_HEARTBEAT_SCAN_EVENTS
        and a = "ag_agent_id g"]
    by (simp add: assms(9) accepted_Cons find_append h_def)
  moreover have "liveness default_liveness_config (max (ag_last_seen_ts g) ts) now = Active"
    using assms(10) by (subst liveness_Active)
      (auto simp: default_liveness_config_def DEFAULT_STALE_AFTER_def DEFAULT_OFFLINE_AFTER_def max_def word_le_nat_alt)
  ultimately show ?thesis
    using assms(3) by (auto simp: enrich_with_liveness_def bounded_latest_heartbeats_def assms(9)
        liveness_combined_def unwrap_or_def h_def intro!: image_eqI [of _ _ g])
qed

definition demo_hb_agent :: AgentState where
  "demo_hb_agent = \<lparr> ag_agent_id = ''a1'', ag_kind = ''pi'', ag_matrix_user_id = ''@a:x'', ag_device_id = ''D'',
     ag_signing_key_id = ''k'', ag_signing_public_key = None, ag_status = ''active'', ag_capabilities = [],
     ag_tools = [], ag_workspace = \<lparr> aw_cwd = [], aw_project_id = [], aw_git_commit = [] \<rparr>,
     ag_load = \<lparr> al_running_invocations = 0, al_max_invocations = 2 \<rparr>, ag_last_seen_ts = 0, ag_state_rev = 1,
     ag_extra = [] \<rparr>"

definition demo_hb_room :: Room where
  "demo_hb_room = \<lparr> rm_tasks = [], rm_invocations = [], rm_agents = [(''a1'', Parsed demo_hb_agent)], rm_timeline = [] \<rparr>"

definition demo_hb_env :: Env where
  "demo_hb_env = \<lparr> en_now = 1000, en_ttl_var = None, en_task_id = ''t'', en_nonce = ''n'',
     en_state = (\<lambda>_ _. Inr ''$s''), en_send = (\<lambda>_. Inr ''$e'') \<rparr>"

definition demo_hb :: Heartbeat where
  "demo_hb = \<lparr> hb_agent_id = ''a1'', hb_status = ''active'',
     hb_load = \<lparr> al_running_invocations = 0, al_max_invocations = 2 \<rparr>, hb_ts = 1000000, hb_extra = [] \<rparr>"

definition demo_hb_event :: "string \<Rightarrow> members" where
  "demo_hb_event sender = [(''type'', JString HEARTBEAT), (''sender'', JString sender),
     (''content'', heartbeat_to_json demo_hb)]"

definition demo_pages :: timeline_pages where
  "demo_pages i page = (if i = 0 then Inr ([demo_hb_event ''@b:x'', demo_hb_event ''@a:x''], Some ''p'') else Inl serde_error)"

lemma demo_heartbeat_of_event:
  "heartbeat_of_event (expected_senders [demo_hb_agent]) (demo_hb_event u) = (if u = ''@a:x'' then Some demo_hb else None)"
proof -
  have x: "bm_get (expected_senders [demo_hb_agent]) ''a1'' = Some ''@a:x''" "hb_agent_id demo_hb = ''a1''"
    by (simp_all add: expected_get demo_hb_agent_def demo_hb_def)
  have "str_member (demo_hb_event u) ''type'' = Some HEARTBEAT" "str_member (demo_hb_event u) ''sender'' = Some u"
    "field heartbeat_from_json (demo_hb_event u) ''content'' = Some demo_hb"
    using heartbeat_roundtrip [of demo_hb] by (simp_all add: str_member_def demo_hb_event_def) (simp add: demo_hb_def)
  then show ?thesis
    by (simp add: heartbeat_of_event_def accept_heartbeat_def x)
qed

lemma demo_scan:
  "read_latest_heartbeats demo_pages [demo_hb_agent] (Suc n) = Inr [(''a1'', demo_hb)]"
proof -
  have x: "expected_senders [demo_hb_agent] = [(''a1'', ''@a:x'')]"
    by (simp add: expected_senders_def bm_of_list_def demo_hb_agent_def)
  show ?thesis
    using demo_heartbeat_of_event [unfolded x]
    by (simp add: read_latest_heartbeats_def x scan_heartbeats.simps [of _ _ _ 0] demo_pages_def heartbeat_step_def bm_get_def)
      (simp add: demo_hb_def)
qed


theorem heartbeat_keeps_active_witness:
  "\<lparr> ls_agent = demo_hb_agent, ls_liveness = Active \<rparr> \<in> set (enrich_with_liveness
    (Some (read_latest_heartbeats demo_pages [demo_hb_agent] MAX_HEARTBEAT_SCAN_EVENTS)) 1089999 [demo_hb_agent])"
proof (rule heartbeat_keeps_active [where raw = "demo_hb_event ''@a:x''" and newer = "[demo_hb_event ''@b:x'']" and older = "[]"])
  show "emit_heartbeat demo_hb_env 1000000 [] (ag_agent_id demo_hb_agent) ''active'' default_heartbeat_config 900000 demo_hb_room =
      (Inr False, demo_hb_room \<lparr> rm_timeline := [(HEARTBEAT, heartbeat_to_json demo_hb)] \<rparr>)"
    by (simp add: emit_heartbeat_def demo_hb_room_def demo_hb_agent_def demo_hb_env_def demo_hb_def read_agent_state_def
        bm_get_def live_load_def running_invocations_def unwrap_or_def send_raw_def should_refresh_state_def
        default_heartbeat_config_def DEFAULT_STATE_REFRESH_def as_millis_def sat_sub_def)
  show "list_all (\<lambda>h. hb_agent_id h \<noteq> ag_agent_id demo_hb_agent)
      (accepted_heartbeats (expected_senders [demo_hb_agent]) [demo_hb_event ''@b:x''])"
    by (simp add: accepted_Cons demo_heartbeat_of_event)
  show "read_latest_heartbeats demo_pages [demo_hb_agent] MAX_HEARTBEAT_SCAN_EVENTS = Inr [(''a1'', demo_hb)]"
    using demo_scan [of 999] by (simp add: MAX_HEARTBEAT_SCAN_EVENTS_def)
qed (simp_all add: demo_pages_def demo_hb_event_def str_member_def demo_hb_agent_def)

end
