(* ===== verification/Policy_Resolution.thy ===== *)
theory Policy_Resolution
  imports Policy_Engine
begin

text \<open>
  Which policy the daemon enforces, \<open>crates/mx-agent-daemon/src/policy.rs\<close>: the file at the default
  path when it is present, readable and valid, and the empty policy, which denies everything, in every
  other case. The process environment, the file system, the TOML reader and the regular expressions are
  the fields of \<open>policy_env\<close>; \<open>pe_show\<close> prints an error of the policy crate.
\<close>

record policy_env =
  pe_var :: "string \<Rightarrow> string option"
  pe_read :: "string \<Rightarrow> (io_error, string) result"
  pe_toml :: "string \<Rightarrow> (string, Policy) result"
  pe_rx :: regex_engine
  pe_show :: "PolicyError \<Rightarrow> string"

definition POLICY_STATE_MALFORMED :: string where
  "POLICY_STATE_MALFORMED = ''malformed''"

datatype PolicyResolution = PolicyAbsent | PolicyLoaded Policy | PolicyMalformed string string

fun into_policy :: "PolicyResolution \<Rightarrow> Policy" where
  "into_policy (PolicyLoaded policy) = policy"
| "into_policy PolicyAbsent = default_policy"
| "into_policy (PolicyMalformed path display) = default_policy"

fun malformed_message :: "PolicyResolution \<Rightarrow> string option" where
  "malformed_message (PolicyMalformed path display) = Some (''malformed policy '' @ path @ '': '' @ display)"
| "malformed_message PolicyAbsent = None"
| "malformed_message (PolicyLoaded _) = None"

record PolicyStatus =
  pt_state :: string
  pt_path :: string
  pt_error :: string

fun policy_status :: "PolicyResolution \<Rightarrow> PolicyStatus option" where
  "policy_status (PolicyMalformed path display) =
     Some \<lparr> pt_state = POLICY_STATE_MALFORMED, pt_path = path, pt_error = display \<rparr>"
| "policy_status PolicyAbsent = None"
| "policy_status (PolicyLoaded _) = None"

definition resolve_policy :: "policy_env \<Rightarrow> PolicyResolution" where
  "resolve_policy pe = (case default_path (pe_var pe) of
       None \<Rightarrow> PolicyAbsent
     | Some path \<Rightarrow>
        (case load_optional (pe_rx pe) (pe_toml pe) (pe_read pe) path of
           Inr None \<Rightarrow> PolicyAbsent
         | Inr (Some policy) \<Rightarrow> PolicyLoaded policy
         | Inl e \<Rightarrow> PolicyMalformed path (pe_show pe e)))"

text \<open>The log line for a malformed file aside, enforcement uses the resolved policy.\<close>

definition resolve_policy_for_enforcement :: "policy_env \<Rightarrow> Policy" where
  "resolve_policy_for_enforcement pe = into_policy (resolve_policy pe)"

subsection \<open>Lemmas\<close>

lemma default_policy_denies:
  "\<not> is_allowed (evaluate_exec rx default_policy ctx)" "\<not> is_allowed (evaluate_call default_policy cctx)"
  by (auto simp: evaluate_exec_def evaluate_call_def default_policy_def lookup_def bm_get_def ok_or_def
      split: sum.splits option.splits)

lemma resolved_loaded:
  assumes "resolve_policy pe = PolicyLoaded p"
  shows "validate (pe_rx pe) p = Inr ()"
  using assms
  by (auto simp: resolve_policy_def load_optional_def parse_def and_then_eq_Inr
      split: option.splits sum.splits if_splits)

text \<open>Whatever is enforced is valid: a file that does not validate is never enforced in part.\<close>

lemma enforced_policy_valid: "validate (pe_rx pe) (resolve_policy_for_enforcement pe) = Inr ()"
proof -
  have "validate (pe_rx pe) default_policy = Inr ()"
    by (simp add: validate_def default_policy_def default_execution_policy_def validate_paths_def validate_sandbox_def
        validate_resource_caps_def Let_def)
  then show ?thesis
    using resolved_loaded [of pe]
    by (cases "resolve_policy pe") (simp_all add: resolve_policy_for_enforcement_def)
qed

text \<open>Permission needs a valid file: when something is allowed, the file at the default path was read,
  parsed and validated, and no error is reported.\<close>

lemma enforced_allow:
  assumes "is_allowed (evaluate_exec rx (resolve_policy_for_enforcement pe) ctx) \<or>
    is_allowed (evaluate_call (resolve_policy_for_enforcement pe) cctx)"
  shows "\<exists>p. resolve_policy pe = PolicyLoaded p \<and> policy_status (resolve_policy pe) = None"
  using assms default_policy_denies
  by (cases "resolve_policy pe") (auto simp: resolve_policy_for_enforcement_def)

end
