(* ===== verification/Exec_Auth.thy ===== *)
theory Exec_Auth
  imports Agents Policy_Resolution Approval Child_Env
begin

text \<open>
  Authorization of exec requests and of the controls of a running command, the request plane of
  \<open>crates/mx-agent-daemon/src/exec.rs\<close>, with the identity checks it shares with \<open>call.rs\<close>. A request
  passes when its signature verifies under the key that the requesting agent publishes in the room, the
  key is trusted locally, the policy permits the command for the Matrix account of the sender, and the
  three gates after the policy (verified device, sandbox floor, environment overrides) agree. What the
  daemon reads when it decides (trust store, policy file, device verification, its own key) is the record
  \<open>Host\<close>.
\<close>

record ('sk, 'vk) Host =
  ho_crypto :: "('sk, 'vk) crypto"
  ho_codec :: "'vk key_codec"
  ho_policy :: policy_env
  ho_trust :: "(io_kind, TrustStore) result"
  ho_device_verified :: "string \<Rightarrow> bool option"
  ho_key :: "(string, 'sk \<times> string) result"
  ho_env :: Env

text \<open>\<open>TrustStore::load(paths).unwrap_or_default()\<close>.\<close>

definition host_trust :: "('sk, 'vk) Host \<Rightarrow> TrustStore" where
  "host_trust ho = (case ho_trust ho of Inr t \<Rightarrow> t | Inl _ \<Rightarrow> [])"

definition host_policy :: "('sk, 'vk) Host \<Rightarrow> Policy" where
  "host_policy ho = resolve_policy_for_enforcement (ho_policy ho)"

subsection \<open>Rejections\<close>

datatype ExecRejection =
    XMalformed
  | XUnsigned
  | XInvalidSignature
  | XWrongTarget string
  | XUntrustedKey string
  | XPolicyDenied DenyReason
  | XUnverifiedDevice
  | XApprovalDenied
  | XApprovalExpired
  | XSandboxRequired
  | XEnvOverrideNotAllowed string

fun exec_rejection_reason :: "ExecRejection \<Rightarrow> string" where
  "exec_rejection_reason XMalformed = ''malformed_request''"
| "exec_rejection_reason XUnsigned = ''unsigned''"
| "exec_rejection_reason XInvalidSignature = ''invalid_signature''"
| "exec_rejection_reason (XWrongTarget _) = ''wrong_target''"
| "exec_rejection_reason (XUntrustedKey _) = ''untrusted_key''"
| "exec_rejection_reason (XPolicyDenied _) = ''policy_denied''"
| "exec_rejection_reason XUnverifiedDevice = ''unverified_device''"
| "exec_rejection_reason XApprovalDenied = ''approval_denied''"
| "exec_rejection_reason XApprovalExpired = ''approval_expired''"
| "exec_rejection_reason XSandboxRequired = ''sandbox_required''"
| "exec_rejection_reason (XEnvOverrideNotAllowed _) = ''env_override_not_allowed''"

datatype CallRejection =
    CMalformed
  | CUnsigned
  | CInvalidSignature
  | CUntrustedKey string
  | CPolicyDenied DenyReason
  | CUnverifiedDevice
  | CApprovalDenied
  | CApprovalExpired

subsection \<open>Identities\<close>

definition verifying_key_from_agent_state :: "'vk key_codec \<Rightarrow> AgentState \<Rightarrow> (CallRejection, 'vk) result" where
  "verifying_key_from_agent_state kc agent = (case ag_signing_public_key agent of
       None \<Rightarrow> Inl (CUntrustedKey (ag_signing_key_id agent))
     | Some public_key \<Rightarrow>
        and_then (map_err (\<lambda>_. CInvalidSignature) (decode_verifying_key kc public_key)) (\<lambda>key.
        if key_id_for_verifying_key kc key \<noteq> ag_signing_key_id agent then Inl CInvalidSignature else Inr key))"

definition policy_identity :: "string \<Rightarrow> string option \<Rightarrow> (unit, string) result" where
  "policy_identity requester_matrix_user_id authenticated_sender = (case authenticated_sender of
       Some sender \<Rightarrow> if sender \<noteq> requester_matrix_user_id then Inl () else Inr requester_matrix_user_id
     | None \<Rightarrow> Inr requester_matrix_user_id)"

definition enforce_verified_device :: "Allowance \<Rightarrow> bool option \<Rightarrow> (ExecRejection, unit) result" where
  "enforce_verified_device limits device_verified =
     (if al_require_verified_device limits \<and> device_verified \<noteq> Some True then Inl XUnverifiedDevice else Inr ())"

definition enforce_sandbox_floor :: "Allowance \<Rightarrow> (ExecRejection, unit) result" where
  "enforce_sandbox_floor limits = map_err (\<lambda>_. XSandboxRequired) (check_sandbox_floor limits)"

text \<open>\<open>read_signature\<close>, once for each rejection type: \<open>mal\<close> and \<open>inval\<close> are its two errors.\<close>

definition embedded_signature :: "'e \<Rightarrow> 'e \<Rightarrow> json \<Rightarrow> ('e, Signature option) result" where
  "embedded_signature mal inval content = (case content of
       JObject obj \<Rightarrow>
         (case map_of obj SIGNATURE_FIELD of
            None \<Rightarrow> Inr None
          | Some JNull \<Rightarrow> Inr None
          | Some value \<Rightarrow> map_err (\<lambda>_. inval) (map_sum id Some (ok_or (signature_from_json value) ())))
     | _ \<Rightarrow> Inl mal)"

definition read_signature :: "json \<Rightarrow> (ExecRejection, Signature option) result" where
  "read_signature = embedded_signature XMalformed XInvalidSignature"

fun exec_signature_error :: "SignatureError \<Rightarrow> ExecRejection" where
  "exec_signature_error MissingSignature = XUnsigned"
| "exec_signature_error NotAnObject = XMalformed"
| "exec_signature_error _ = XInvalidSignature"

subsection \<open>Exec requests\<close>

record ExecRequestOptions =
  xo_target_agent :: string
  xo_requesting_agent :: string
  xo_command :: "string list"
  xo_cwd :: string
  xo_env :: "string bmap"
  xo_stdin :: bool
  xo_stream :: bool
  xo_pty :: bool
  xo_timeout_ms :: u64
  xo_task_id :: "string option"

definition unsigned_exec_request ::
  "string \<Rightarrow> string \<Rightarrow> string \<Rightarrow> string \<Rightarrow> string \<Rightarrow> string \<Rightarrow> ExecRequestOptions \<Rightarrow> ExecRequest" where
  "unsigned_exec_request key_id invocation_id request_id nonce created_at expires_at opts = \<lparr>
     xr_invocation_id = invocation_id, xr_request_id = request_id, xr_target_agent = xo_target_agent opts,
     xr_requesting_agent = xo_requesting_agent opts, xr_command = xo_command opts, xr_cwd = xo_cwd opts,
     xr_env = xo_env opts, xr_stdin = xo_stdin opts, xr_stream = xo_stream opts, xr_pty = xo_pty opts,
     xr_timeout_ms = xo_timeout_ms opts, xr_task_id = xo_task_id opts, xr_created_at = created_at,
     xr_expires_at = expires_at, xr_nonce = nonce, xr_idempotency_key = ''exec:'' @ invocation_id,
     xr_signature = \<lparr> sg_alg = ALG_ED25519, sg_key_id = key_id, sg_sig = [] \<rparr>, xr_extra = [] \<rparr>"

definition build_signed_exec_request ::
  "('sk, 'vk) crypto \<Rightarrow> 'sk \<Rightarrow> string \<Rightarrow> string \<Rightarrow> string \<Rightarrow> string \<Rightarrow> string \<Rightarrow> string \<Rightarrow> ExecRequestOptions
    \<Rightarrow> (SignatureError, json) result" where
  "build_signed_exec_request cr sk key_id invocation_id request_id nonce created_at expires_at opts =
     sign_into cr sk key_id (exec_request_to_json
       (unsigned_exec_request key_id invocation_id request_id nonce created_at expires_at opts))"

text \<open>Signing cannot fail here (\<open>exec_request_signs\<close> below), which is what the \<open>expect\<close> of the source
  relies on.\<close>

definition send_exec_request ::
  "('sk, 'vk) crypto \<Rightarrow> Env \<Rightarrow> 'sk \<Rightarrow> string \<Rightarrow> string \<Rightarrow> string \<Rightarrow> string \<Rightarrow> string \<Rightarrow> string \<Rightarrow> ExecRequestOptions
    \<Rightarrow> Room \<Rightarrow> (WorkspaceError, ExecRequest) result \<times> Room" where
  "send_exec_request cr env sk key_id invocation_id request_id nonce created_at expires_at opts rm =
     (case build_signed_exec_request cr sk key_id invocation_id request_id nonce created_at expires_at opts of
        Inl _ \<Rightarrow> (Inl serde_error, rm)
      | Inr content \<Rightarrow>
         (case send_raw env EXEC_REQUEST content rm of
            (Inl e, rm') \<Rightarrow> (Inl e, rm')
          | (Inr _, rm') \<Rightarrow> (ok_or (exec_request_from_json content) serde_error, rm')))"

definition authorize_exec_request_with_allowance ::
  "('sk, 'vk) crypto \<Rightarrow> regex_engine \<Rightarrow> json \<Rightarrow> 'vk \<Rightarrow> TrustStore \<Rightarrow> Policy \<Rightarrow> string \<Rightarrow> string \<Rightarrow> string
    \<Rightarrow> (ExecRejection, ExecRequest \<times> Allowance) result" where
  "authorize_exec_request_with_allowance cr rx content verifying_key trust policy room_id requesting_agent local_agent =
     and_then (and_then (read_signature content) (\<lambda>s. ok_or s XUnsigned)) (\<lambda>signature.
     and_then (map_err exec_signature_error (Signing.verify cr verifying_key content)) (\<lambda>_.
     and_then (ok_or (exec_request_from_json content) XMalformed) (\<lambda>request.
     if xr_target_agent request \<noteq> local_agent then Inl (XWrongTarget (xr_target_agent request))
     else if \<not> is_key_trusted trust (sg_key_id signature) then Inl (XUntrustedKey (sg_key_id signature))
     else case evaluate_exec rx policy \<lparr> ec_room_id = room_id, ec_requesting_agent = requesting_agent,
                 ec_command = xr_command request, ec_cwd = xr_cwd request \<rparr> of
       Allow limits \<Rightarrow> Inr (request, limits)
     | Deny reason \<Rightarrow> Inl (XPolicyDenied reason))))"

definition authorize_exec_request ::
  "('sk, 'vk) crypto \<Rightarrow> regex_engine \<Rightarrow> json \<Rightarrow> 'vk \<Rightarrow> TrustStore \<Rightarrow> Policy \<Rightarrow> string \<Rightarrow> string \<Rightarrow> string
    \<Rightarrow> (ExecRejection, ExecRequest) result" where
  "authorize_exec_request cr rx content verifying_key trust policy room_id requesting_agent local_agent =
     map_sum id fst (authorize_exec_request_with_allowance cr rx content verifying_key trust policy room_id
       requesting_agent local_agent)"

definition authorize_live_exec ::
  "('sk, 'vk) Host \<Rightarrow> Room \<Rightarrow> json \<Rightarrow> ExecRequest \<Rightarrow> string \<Rightarrow> string option
    \<Rightarrow> (ExecRejection, ExecRequest \<times> Allowance) result" where
  "authorize_live_exec ho rm content request room_id authenticated_sender =
     and_then (map_err (\<lambda>_. XMalformed) (read_agent_state rm (xr_requesting_agent request))) (\<lambda>found.
     and_then (ok_or found (XUntrustedKey (sg_key_id (xr_signature request)))) (\<lambda>requester.
     if ag_signing_key_id requester \<noteq> sg_key_id (xr_signature request) then Inl XInvalidSignature
     else
       and_then (map_err (\<lambda>_. XInvalidSignature) (verifying_key_from_agent_state (ho_codec ho) requester)) (\<lambda>verifying_key.
       and_then (map_err (\<lambda>_. XInvalidSignature)
                  (policy_identity (ag_matrix_user_id requester) authenticated_sender)) (\<lambda>policy_key.
       and_then (authorize_exec_request_with_allowance (ho_crypto ho) (pe_rx (ho_policy ho)) content verifying_key
                  (host_trust ho) (host_policy ho) room_id policy_key (xr_target_agent request)) (\<lambda>(request, limits).
       and_then (enforce_verified_device limits (ho_device_verified ho (ag_matrix_user_id requester))) (\<lambda>_.
       and_then (enforce_sandbox_floor limits) (\<lambda>_.
       case first_disallowed_remote_override (xr_env request) (al_env_allowlist limits) of
         Some var \<Rightarrow> Inl (XEnvOverrideNotAllowed var)
       | None \<Rightarrow> Inr (request, limits))))))))"

subsection \<open>Controls of a running command\<close>

datatype CancelRejection =
    KMalformed
  | KUnsigned
  | KInvalidSignature
  | KInvocationMismatch string
  | KUntrustedKey string
  | KUnauthorized string

fun cancel_rejection_reason :: "CancelRejection \<Rightarrow> string" where
  "cancel_rejection_reason KMalformed = ''malformed_request''"
| "cancel_rejection_reason KUnsigned = ''unsigned''"
| "cancel_rejection_reason KInvalidSignature = ''invalid_signature''"
| "cancel_rejection_reason (KInvocationMismatch _) = ''invocation_mismatch''"
| "cancel_rejection_reason (KUntrustedKey _) = ''untrusted_key''"
| "cancel_rejection_reason (KUnauthorized _) = ''unauthorized''"

definition read_cancel_signature :: "json \<Rightarrow> (CancelRejection, Signature option) result" where
  "read_cancel_signature = embedded_signature KMalformed KInvalidSignature"

fun cancel_signature_error :: "SignatureError \<Rightarrow> CancelRejection" where
  "cancel_signature_error MissingSignature = KUnsigned"
| "cancel_signature_error NotAnObject = KMalformed"
| "cancel_signature_error _ = KInvalidSignature"

definition authorize_exec_cancel ::
  "('sk, 'vk) crypto \<Rightarrow> json \<Rightarrow> 'vk \<Rightarrow> TrustStore \<Rightarrow> InvocationState \<Rightarrow> string \<Rightarrow> (CancelRejection, ExecCancel) result" where
  "authorize_exec_cancel cr content verifying_key trust i requesting_agent =
     and_then (and_then (read_cancel_signature content) (\<lambda>s. ok_or s KUnsigned)) (\<lambda>signature.
     and_then (map_err cancel_signature_error (Signing.verify cr verifying_key content)) (\<lambda>_.
     and_then (ok_or (exec_cancel_from_json content) KMalformed) (\<lambda>cancel.
     if xc_invocation_id cancel \<noteq> iv_invocation_id i then Inl (KInvocationMismatch (xc_invocation_id cancel))
     else if \<not> is_key_trusted trust (sg_key_id signature) then Inl (KUntrustedKey (sg_key_id signature))
     else if requesting_agent \<noteq> iv_requester i then Inl (KUnauthorized (iv_requester i))
     else Inr cancel)))"

definition authorize_control_from_states ::
  "('sk, 'vk) crypto \<Rightarrow> 'vk key_codec \<Rightarrow> AgentState list \<Rightarrow> string \<Rightarrow> json \<Rightarrow> string \<Rightarrow> TrustStore \<Rightarrow> (unit, unit) result" where
  "authorize_control_from_states cr kc agents requester_agent_id content key_id trust =
     and_then (ok_or (find (\<lambda>a. ag_agent_id a = requester_agent_id) agents) ()) (\<lambda>agent.
     if ag_signing_key_id agent \<noteq> key_id then Inl ()
     else
       and_then (map_err (\<lambda>_. ()) (verifying_key_from_agent_state kc agent)) (\<lambda>verifying_key.
       and_then (map_err (\<lambda>_. ()) (Signing.verify cr verifying_key content)) (\<lambda>_.
       if is_key_trusted trust key_id then Inr () else Inl ())))"

definition authorize_live_control ::
  "('sk, 'vk) Host \<Rightarrow> Room \<Rightarrow> json \<Rightarrow> string \<Rightarrow> string \<Rightarrow> (unit, unit) result" where
  "authorize_live_control ho rm content key_id requester_agent_id =
     and_then (map_err (\<lambda>_. ()) (read_all_agent_states rm)) (\<lambda>agents.
     authorize_control_from_states (ho_crypto ho) (ho_codec ho) agents requester_agent_id content key_id (host_trust ho))"

definition unsigned_exec_stdin ::
  "('sk, 'vk) crypto \<Rightarrow> string \<Rightarrow> string \<Rightarrow> string \<Rightarrow> bool \<Rightarrow> string \<Rightarrow> string \<Rightarrow> json" where
  "unsigned_exec_stdin cr key_id invocation_id data eof created_at nonce = JObject [
     (''invocation_id'', JString invocation_id), (''data'', JString (cr_b64_encode cr data)), (''eof'', JBool eof),
     (''created_at'', JString created_at), (''nonce'', JString nonce),
     (''signature'', signature_to_json \<lparr> sg_alg = ALG_ED25519, sg_key_id = key_id, sg_sig = [] \<rparr>)]"

definition build_signed_exec_stdin ::
  "('sk, 'vk) crypto \<Rightarrow> 'sk \<Rightarrow> string \<Rightarrow> string \<Rightarrow> string \<Rightarrow> bool \<Rightarrow> string \<Rightarrow> string \<Rightarrow> (SignatureError, json) result" where
  "build_signed_exec_stdin cr sk key_id invocation_id data eof created_at nonce =
     sign_into cr sk key_id (unsigned_exec_stdin cr key_id invocation_id data eof created_at nonce)"

definition send_exec_stdin ::
  "('sk, 'vk) crypto \<Rightarrow> Env \<Rightarrow> 'sk \<Rightarrow> string \<Rightarrow> string \<Rightarrow> string \<Rightarrow> bool \<Rightarrow> Room
    \<Rightarrow> (WorkspaceError, ExecStdin) result \<times> Room" where
  "send_exec_stdin cr env sk key_id invocation_id data eof rm =
     (case build_signed_exec_stdin cr sk key_id invocation_id data eof (now_rfc3339 env) (en_nonce env) of
        Inl _ \<Rightarrow> (Inl serde_error, rm)
      | Inr content \<Rightarrow>
         (case send_raw env EXEC_STDIN content rm of
            (Inl e, rm') \<Rightarrow> (Inl e, rm')
          | (Inr _, rm') \<Rightarrow> (ok_or (exec_stdin_from_json content) serde_error, rm')))"

subsection \<open>Results\<close>

definition invocation_state_for :: "ExecRequest \<Rightarrow> string \<Rightarrow> InvocationState" where
  "invocation_state_for request now = \<lparr>
     iv_invocation_id = xr_invocation_id request, iv_task_id = xr_task_id request,
     iv_requester = xr_requesting_agent request, iv_target = xr_target_agent request, iv_state = ''accepted'',
     iv_created_at = now, iv_updated_at = now, iv_exit_code = None, iv_state_rev = 0, iv_extra = [] \<rparr>"

text \<open>\<open>sign_result_content\<close>: \<open>None\<close> when signing failed and nothing may be sent.\<close>

definition sign_result_content :: "('sk, 'vk) crypto \<Rightarrow> 'sk \<Rightarrow> string \<Rightarrow> json \<Rightarrow> json option" where
  "sign_result_content cr sk key_id content = (case sign_into cr sk key_id content of Inr c \<Rightarrow> Some c | Inl _ \<Rightarrow> None)"

definition emit_signed ::
  "('sk, 'vk) crypto \<Rightarrow> Env \<Rightarrow> 'sk \<Rightarrow> string \<Rightarrow> string \<Rightarrow> json \<Rightarrow> Room \<Rightarrow> (WorkspaceError, unit) result \<times> Room" where
  "emit_signed cr env sk key_id event_type content rm = (case sign_result_content cr sk key_id content of
       None \<Rightarrow> (Inr (), rm)
     | Some c \<Rightarrow> send_raw env event_type c rm)"

definition exec_accepted_to_json :: "ExecAccepted \<Rightarrow> json" where
  "exec_accepted_to_json a = JObject ([(''invocation_id'', JString (xa_invocation_id a))] @
     opt_member ''signature'' signature_to_json (xa_signature a) @ xa_extra a)"

definition exec_rejected_to_json :: "ExecRejected \<Rightarrow> json" where
  "exec_rejected_to_json r = JObject ([(''invocation_id'', JString (xj_invocation_id r)),
     (''reason'', JString (xj_reason r))] @ opt_member ''signature'' signature_to_json (xj_signature r) @ xj_extra r)"

definition exec_cancelled_to_json :: "ExecCancelled \<Rightarrow> json" where
  "exec_cancelled_to_json c = JObject ([(''invocation_id'', JString (xd_invocation_id c)),
     (''signal_sent'', JString (xd_signal_sent c)), (''killed_process_group'', JBool (xd_killed_process_group c)),
     (''finished_at'', JString (xd_finished_at c))] @ opt_member ''signature'' signature_to_json (xd_signature c) @
     xd_extra c)"

definition emit_exec_accepted ::
  "('sk, 'vk) crypto \<Rightarrow> Env \<Rightarrow> 'sk \<Rightarrow> string \<Rightarrow> string \<Rightarrow> Room \<Rightarrow> (WorkspaceError, unit) result \<times> Room" where
  "emit_exec_accepted cr env sk key_id invocation_id rm = emit_signed cr env sk key_id EXEC_ACCEPTED
     (exec_accepted_to_json \<lparr> xa_invocation_id = invocation_id, xa_signature = None, xa_extra = [] \<rparr>) rm"

definition emit_exec_rejected ::
  "('sk, 'vk) crypto \<Rightarrow> Env \<Rightarrow> 'sk \<Rightarrow> string \<Rightarrow> string \<Rightarrow> ExecRejection \<Rightarrow> Room \<Rightarrow> (WorkspaceError, unit) result \<times> Room" where
  "emit_exec_rejected cr env sk key_id invocation_id rejection rm = emit_signed cr env sk key_id EXEC_REJECTED
     (exec_rejected_to_json \<lparr> xj_invocation_id = invocation_id, xj_reason = exec_rejection_reason rejection,
        xj_signature = None, xj_extra = [] \<rparr>) rm"

definition emit_exec_cancelled ::
  "('sk, 'vk) crypto \<Rightarrow> Env \<Rightarrow> 'sk \<Rightarrow> string \<Rightarrow> string \<Rightarrow> string \<Rightarrow> bool \<Rightarrow> string \<Rightarrow> Room
    \<Rightarrow> (WorkspaceError, unit) result \<times> Room" where
  "emit_exec_cancelled cr env sk key_id invocation_id signal_sent killed finished_at rm =
     emit_signed cr env sk key_id EXEC_CANCELLED (exec_cancelled_to_json \<lparr> xd_invocation_id = invocation_id,
        xd_signal_sent = signal_sent, xd_killed_process_group = killed, xd_finished_at = finished_at,
        xd_signature = None, xd_extra = [] \<rparr>) rm"

definition signal_name :: "int \<Rightarrow> string option" where
  "signal_name n = map_of [(1, ''SIGHUP''), (2, ''SIGINT''), (3, ''SIGQUIT''), (6, ''SIGABRT''), (8, ''SIGFPE''),
     (9, ''SIGKILL''), (11, ''SIGSEGV''), (13, ''SIGPIPE''), (14, ''SIGALRM''), (15, ''SIGTERM'')] n"

subsection \<open>Lemmas on the JSON form of requests\<close>

text \<open>What the reader returns is well-formed: the environment is an ordered map and the unknown members
  have other names.\<close>

definition exec_wf :: "ExecRequest \<Rightarrow> bool" where
  "exec_wf r \<longleftrightarrow> bm_wf (xr_env r) \<and> fresh_members exec_fields (xr_extra r)"

lemma fresh_others [simp]: "fresh_members known (others known m)"
  by (induction m) (auto simp: fresh_members_def others_def)

lemma bm_wf_of_list: "bm_wf (bm_of_list kvs)"
proof -
  have "bm_wf m \<Longrightarrow> bm_wf (fold (\<lambda>(k, v). bm_insert k v) kvs m)" for m :: "'a bmap"
    by (induction kvs arbitrary: m) (auto simp: bm_wf_insert)
  then show ?thesis by (simp add: bm_of_list_def bm_wf_def)
qed

lemma as_string_map_wf: "as_string_map v = Some m \<Longrightarrow> bm_wf m"
  by (cases v) (auto simp: bm_wf_of_list)

lemma field_string_map_wf: "field as_string_map m k = Some env \<Longrightarrow> bm_wf env"
  by (auto simp: field_def bind_eq_Some_conv as_string_map_wf)

lemma exec_read_wf: "exec_request_from_json v = Some r \<Longrightarrow> exec_wf r"
  by (auto simp: exec_request_from_json_def exec_wf_def field_string_map_wf split: json.splits option.splits)

lemma exec_wf_roundtrip: "exec_wf r \<Longrightarrow> exec_request_from_json (exec_request_to_json r) = Some r"
  by (simp add: exec_wf_def exec_request_roundtrip)

lemma exec_embedded_signature:
  "embedded_signature a b (exec_request_to_json r) = Inr (Some (xr_signature r))"
  by (simp add: embedded_signature_def exec_request_to_json_def SIGNATURE_FIELD_def signature_to_json_def
      signature_from_json_def signature_of_fields_def ok_or_def map_err_def)

text \<open>The signature is written in place of the placeholder.\<close>

lemma exec_signed_json:
  "sign_into cr sk key_id (exec_request_to_json r) =
     and_then (sign cr sk key_id (exec_request_to_json r)) (\<lambda>s. Inr (exec_request_to_json (r \<lparr> xr_signature := s \<rparr>)))"
  by (simp add: sign_into_def exec_request_to_json_def SIGNATURE_FIELD_def)

lemma exec_unsigned_members:
  "exec_request_to_json r = JObject m \<Longrightarrow> exec_request_to_json (r \<lparr> xr_signature := s \<rparr>) = JObject m' \<Longrightarrow>
   unsigned_members m' = unsigned_members m"
  by (auto simp: exec_request_to_json_def unsigned_members_def SIGNATURE_FIELD_def)

lemma exec_unsigned:
  assumes "fresh_members exec_fields (xr_extra r)" "exec_request_to_json r = JObject m"
  shows "unsigned_members m = [
     (''invocation_id'', JString (xr_invocation_id r)), (''request_id'', JString (xr_request_id r)),
     (''target_agent'', JString (xr_target_agent r)), (''requesting_agent'', JString (xr_requesting_agent r)),
     (''command'', JArray (map JString (xr_command r))), (''cwd'', JString (xr_cwd r)),
     (''env'', JObject (map (\<lambda>(k, v). (k, JString v)) (xr_env r))), (''stdin'', JBool (xr_stdin r)),
     (''stream'', JBool (xr_stream r)), (''pty'', JBool (xr_pty r)),
     (''timeout_ms'', JNum (PosInt (xr_timeout_ms r))), (''task_id'', opt_null JString (xr_task_id r)),
     (''created_at'', JString (xr_created_at r)), (''expires_at'', JString (xr_expires_at r)),
     (''nonce'', JString (xr_nonce r)), (''idempotency_key'', JString (xr_idempotency_key r))] @ xr_extra r"
proof -
  have "filter (\<lambda>(k, _). k \<noteq> ''signature'') (xr_extra r) = xr_extra r"
    using assms(1) by (auto simp: filter_id_conv fresh_members_def list_all_iff exec_fields_def)
  then show ?thesis
    using assms(2) by (auto simp: exec_request_to_json_def unsigned_members_def SIGNATURE_FIELD_def)
qed

text \<open>Everything of a request that is not its signature or an unknown member.\<close>

definition same_request :: "ExecRequest \<Rightarrow> ExecRequest \<Rightarrow> bool" where
  "same_request a b \<longleftrightarrow> a = b \<lparr> xr_signature := xr_signature a, xr_extra := xr_extra a \<rparr>"

lemma norm_strings: "norm (JArray (map JString a)) = norm (JArray (map JString b)) \<longleftrightarrow> a = b"
  by (simp add: comp_def inj_map_eq_map inj_JString)

lemma norm_opt_null: "norm (opt_null JString a) = norm (opt_null JString b) \<longleftrightarrow> a = b"
  by (cases a; cases b) (simp_all add: opt_null_def)

lemma norm_env_eq:
  "bm_wf a \<Longrightarrow> bm_wf b \<Longrightarrow>
   norm (JObject (map (\<lambda>(k, v). (k, JString v)) a)) = norm (JObject (map (\<lambda>(k, v). (k, JString v)) b)) \<longleftrightarrow> a = b"
  using norm_env [of a] norm_env [of b] map_pair_inj [OF inj_JString, of a b] by simp

lemma exec_bytes_bind:
  assumes "string_token (cr_esc cr)" "exec_wf a" "exec_wf b" "json_wf (exec_request_to_json a)" "json_wf (exec_request_to_json b)"
    "signing_bytes cr (exec_request_to_json a) = Inr bs" "signing_bytes cr (exec_request_to_json b) = Inr bs"
  shows "same_request a b"
proof -
  obtain m n where m: "exec_request_to_json a = JObject m" and n: "exec_request_to_json b = JObject n"
    by (simp add: exec_request_to_json_def)
  have wf: "json_wf (JObject m)" "json_wf (JObject n)" using assms(4,5) m n by simp_all
  have f: "fresh_members exec_fields (xr_extra a)" "fresh_members exec_fields (xr_extra b)" "bm_wf (xr_env a)" "bm_wf (xr_env b)"
    using assms(2,3) by (simp_all add: exec_wf_def)
  have eqn: "norm (JObject (unsigned_members m)) = norm (JObject (unsigned_members n))"
    using signing_bytes_binds [OF assms(1) wf] assms(6,7) m n by simp
  have "distinct (map fst (unsigned_members m))" "distinct (map fst (unsigned_members n))"
    using unsigned_wf [OF wf(1)] unsigned_wf [OF wf(2)] by simp_all
  note eq = norm_lookup [OF this eqn, unfolded exec_unsigned [OF f(1) m] exec_unsigned [OF f(2) n]]
  show ?thesis
    using eq [of "''invocation_id''"] eq [of "''request_id''"] eq [of "''target_agent''"] eq [of "''requesting_agent''"]
      eq [of "''command''"] eq [of "''cwd''"] eq [of "''env''"] eq [of "''stdin''"] eq [of "''stream''"] eq [of "''pty''"]
      eq [of "''timeout_ms''"] eq [of "''task_id''"] eq [of "''created_at''"] eq [of "''expires_at''"] eq [of "''nonce''"]
      eq [of "''idempotency_key''"]
    by (simp add: norm_strings norm_opt_null norm_env_eq [OF f(3,4)] same_request_def del: norm.simps(1,2))
qed

lemma exec_read_json_wf:
  assumes "json_wf v" "exec_request_from_json v = Some r"
  shows "json_wf (exec_request_to_json r)"
proof -
  obtain m where m: "v = JObject m" "xr_extra r = others exec_fields m"
    using assms(2) by (auto simp: exec_request_from_json_def split: json.splits option.splits)
  have "distinct (map fst (others exec_fields m))" "list_all (\<lambda>kv. json_wf (snd kv)) (others exec_fields m)"
    "list_all (\<lambda>k. k \<notin> set exec_fields) (map fst (others exec_fields m))"
    using assms(1) m(1) by (auto simp: others_def distinct_map_filter list_all_iff)
  moreover have "distinct (map fst (xr_env r))"
    using exec_read_wf [OF assms(2)] by (simp add: exec_wf_def bm_wf_distinct)
  ultimately show ?thesis
    by (cases "xr_task_id r")
      (auto simp: exec_request_to_json_def m(2) exec_fields_def list_all_iff signature_to_json_def opt_null_def
        comp_def case_prod_unfold)
qed

subsection \<open>Lemmas on authorization\<close>

lemma verify_exec_json:
  "Signing.verify cr vk (exec_request_to_json r) =
     and_then (signing_bytes cr (exec_request_to_json r)) (verify_signature cr vk (xr_signature r))"
  by (simp add: verify_def exec_request_to_json_def SIGNATURE_FIELD_def)

lemma authorize_exec_ok:
  assumes "exec_wf rq"
  shows "authorize_exec_request_with_allowance cr rx (exec_request_to_json rq) vk trust policy room who me = Inr (r, limits) \<longleftrightarrow>
    r = rq \<and> Signing.verify cr vk (exec_request_to_json rq) = Inr () \<and> xr_target_agent rq = me \<and>
    is_key_trusted trust (sg_key_id (xr_signature rq)) \<and>
    evaluate_exec rx policy \<lparr> ec_room_id = room, ec_requesting_agent = who, ec_command = xr_command rq,
      ec_cwd = xr_cwd rq \<rparr> = Allow limits"
  using exec_wf_roundtrip [OF assms]
  by (auto simp: authorize_exec_request_with_allowance_def read_signature_def exec_embedded_signature ok_or_def
      and_then_eq_Inr map_err_def split: sum.splits Outcome.splits)

lemma policy_identity_ok:
  "policy_identity user sender = Inr k \<longleftrightarrow> k = user \<and> (sender = None \<or> sender = Some user)"
  by (auto simp: policy_identity_def split: option.splits)

lemma device_gate_ok:
  "enforce_verified_device limits d = Inr u \<longleftrightarrow> al_require_verified_device limits \<le> (d = Some True)"
  by (auto simp: enforce_verified_device_def)

lemma sandbox_gate_ok:
  "enforce_sandbox_floor limits = Inr u \<longleftrightarrow> al_require_sandbox limits \<le> (sandbox_backend (al_sandbox limits) \<noteq> BackendNone)"
  by (auto simp: enforce_sandbox_floor_def check_sandbox_floor_def map_err_def)

lemma authorize_live_exec_ok:
  assumes "exec_wf rq"
  shows "authorize_live_exec ho rm (exec_request_to_json rq) rq room_id sender = Inr (r, limits) \<longleftrightarrow>
    r = rq \<and> (\<exists>a vk. read_agent_state rm (xr_requesting_agent rq) = Inr (Some a) \<and>
      ag_signing_key_id a = sg_key_id (xr_signature rq) \<and>
      verifying_key_from_agent_state (ho_codec ho) a = Inr vk \<and>
      (sender = None \<or> sender = Some (ag_matrix_user_id a)) \<and>
      Signing.verify (ho_crypto ho) vk (exec_request_to_json rq) = Inr () \<and>
      is_key_trusted (host_trust ho) (sg_key_id (xr_signature rq)) \<and>
      evaluate_exec (pe_rx (ho_policy ho)) (host_policy ho) \<lparr> ec_room_id = room_id,
        ec_requesting_agent = ag_matrix_user_id a, ec_command = xr_command rq, ec_cwd = xr_cwd rq \<rparr> = Allow limits \<and>
      al_require_verified_device limits \<le> (ho_device_verified ho (ag_matrix_user_id a) = Some True) \<and>
      al_require_sandbox limits \<le> (sandbox_backend (al_sandbox limits) \<noteq> BackendNone) \<and>
      first_disallowed_remote_override (xr_env rq) (al_env_allowlist limits) = None)"
  (is "?L \<longleftrightarrow> ?R")
proof
  assume ?L
  then show ?R
    unfolding authorize_live_exec_def
    by (auto simp: and_then_eq_Inr map_err_eq_Inr ok_or_eq_Inr authorize_exec_ok [OF assms] policy_identity_ok
        device_gate_ok sandbox_gate_ok split: if_splits option.splits)
next
  assume ?R
  then obtain a vk where r: "r = rq" and a: "read_agent_state rm (xr_requesting_agent rq) = Inr (Some a)"
      "ag_signing_key_id a = sg_key_id (xr_signature rq)" "verifying_key_from_agent_state (ho_codec ho) a = Inr vk"
    and s: "sender = None \<or> sender = Some (ag_matrix_user_id a)"
    and v: "Signing.verify (ho_crypto ho) vk (exec_request_to_json rq) = Inr ()"
      "is_key_trusted (host_trust ho) (sg_key_id (xr_signature rq))"
      "evaluate_exec (pe_rx (ho_policy ho)) (host_policy ho) \<lparr> ec_room_id = room_id,
        ec_requesting_agent = ag_matrix_user_id a, ec_command = xr_command rq, ec_cwd = xr_cwd rq \<rparr> = Allow limits"
    and g: "al_require_verified_device limits \<le> (ho_device_verified ho (ag_matrix_user_id a) = Some True)"
      "al_require_sandbox limits \<le> (sandbox_backend (al_sandbox limits) \<noteq> BackendNone)"
      "first_disallowed_remote_override (xr_env rq) (al_env_allowlist limits) = None"
    by (elim conjE exE)
  have "policy_identity (ag_matrix_user_id a) sender = Inr (ag_matrix_user_id a)"
    using s by (simp add: policy_identity_ok)
  moreover have "authorize_exec_request_with_allowance (ho_crypto ho) (pe_rx (ho_policy ho)) (exec_request_to_json rq) vk
      (host_trust ho) (host_policy ho) room_id (ag_matrix_user_id a) (xr_target_agent rq) = Inr (rq, limits)"
    using v by (simp add: authorize_exec_ok [OF assms])
  moreover have "enforce_verified_device limits (ho_device_verified ho (ag_matrix_user_id a)) = Inr ()"
    using g(1) by (simp only: device_gate_ok)
  moreover have "enforce_sandbox_floor limits = Inr ()"
    using g(2) by (simp only: sandbox_gate_ok)
  ultimately show ?L
    unfolding authorize_live_exec_def by (simp add: a g(3) r ok_or_def map_err_def del: and_then_eq_Inr)
qed

lemma verifying_key_bound:
  assumes "verifying_key_from_agent_state kc a = Inr vk"
  shows "key_id_for_verifying_key kc vk = ag_signing_key_id a"
  using assms by (auto simp: verifying_key_from_agent_state_def and_then_eq_Inr split: option.splits if_splits)

lemma verified_exec_bytes:
  assumes "Signing.verify cr vk (exec_request_to_json r) = Inr ()"
  shows "\<exists>bs s. signing_bytes cr (exec_request_to_json r) = Inr bs \<and> cr_verify cr vk bs s"
  using assms
  by (auto simp: verify_exec_json and_then_eq_Inr verify_signature_def ok_or_def split: if_splits option.splits)

lemma exec_request_signs:
  assumes "bm_wf (xo_env opts)"
  shows "\<exists>bs. signing_bytes cr (exec_request_to_json (unsigned_exec_request key_id i q n c e opts)) = Inr bs"
proof -
  let ?r = "unsigned_exec_request key_id i q n c e opts"
  obtain m where m: "exec_request_to_json ?r = JObject m" by (simp add: exec_request_to_json_def)
  have f: "fresh_members exec_fields (xr_extra ?r)" by (simp add: unsigned_exec_request_def fresh_members_def)
  have "json_wf (JObject m)"
    using m bm_wf_distinct [OF assms] by (cases "xo_task_id opts")
      (auto simp: exec_request_to_json_def unsigned_exec_request_def list_all_iff signature_to_json_def opt_null_def
        comp_def case_prod_unfold)
  moreover have "no_float (JObject (unsigned_members m))"
    unfolding exec_unsigned [OF f m]
    by (cases "xo_task_id opts") (auto simp: unsigned_exec_request_def list_all_iff opt_null_def)
  ultimately show ?thesis
    using signing_bytes_total [of m cr] m by auto
qed

text \<open>A built request is the unsigned one with a signature of the given key in place, it verifies and is
  read back unchanged.\<close>

lemma built_exec_request:
  assumes "signature_laws cr public" "bm_wf (xo_env opts)"
  shows "\<exists>s. sg_key_id s = key_id \<and> (let rq = (unsigned_exec_request key_id i q n c e opts) \<lparr> xr_signature := s \<rparr> in
    build_signed_exec_request cr sk key_id i q n c e opts = Inr (exec_request_to_json rq) \<and> exec_wf rq \<and>
    Signing.verify cr (public sk) (exec_request_to_json rq) = Inr ())"
proof -
  let ?u = "unsigned_exec_request key_id i q n c e opts"
  obtain bs where bs: "signing_bytes cr (exec_request_to_json ?u) = Inr bs"
    using exec_request_signs [OF assms(2)] by blast
  define s where "s = \<lparr> sg_alg = ALG_ED25519, sg_key_id = key_id, sg_sig = cr_b64_encode cr (cr_sign cr sk bs) \<rparr>"
  have b: "build_signed_exec_request cr sk key_id i q n c e opts = Inr (exec_request_to_json (?u \<lparr> xr_signature := s \<rparr>))"
    by (simp add: build_signed_exec_request_def exec_signed_json sign_def bs s_def)
  moreover have "exec_wf (?u \<lparr> xr_signature := s \<rparr>)"
    using assms(2) by (simp add: exec_wf_def unsigned_exec_request_def fresh_members_def)
  moreover have "Signing.verify cr (public sk) (exec_request_to_json (?u \<lparr> xr_signature := s \<rparr>)) = Inr ()"
    using sign_into_verifies [OF assms(1)] b by (simp add: build_signed_exec_request_def)
  ultimately show ?thesis
    by (intro exI [of _ s]) (simp add: s_def Let_def)
qed

subsection \<open>Properties\<close>

text \<open>C3. Who may run a command. A routed exec request is authorized, with the limits resolved by the
  policy, exactly when the requesting agent has a record in the room whose published key has the key id
  of the record and of the request, the record's account is the authenticated sender (if one is known),
  the signature verifies under that key, the local store trusts the key, the policy allows the command
  in the directory for that account and room, and the gates on device, sandbox and environment pass.
  The request that runs is the one that was received, and permission comes only from a policy file that
  is present, readable and valid.\<close>

theorem exec_authorization:
  assumes "exec_request_from_json v = Some rq"
  shows "(authorize_live_exec ho rm (exec_request_to_json rq) rq room_id sender = Inr (r, limits) \<longleftrightarrow>
    r = rq \<and> (\<exists>a vk. read_agent_state rm (xr_requesting_agent rq) = Inr (Some a) \<and>
      ag_signing_key_id a = sg_key_id (xr_signature rq) \<and>
      verifying_key_from_agent_state (ho_codec ho) a = Inr vk \<and>
      (sender = None \<or> sender = Some (ag_matrix_user_id a)) \<and>
      Signing.verify (ho_crypto ho) vk (exec_request_to_json rq) = Inr () \<and>
      is_key_trusted (host_trust ho) (sg_key_id (xr_signature rq)) \<and>
      evaluate_exec (pe_rx (ho_policy ho)) (host_policy ho) \<lparr> ec_room_id = room_id,
        ec_requesting_agent = ag_matrix_user_id a, ec_command = xr_command rq, ec_cwd = xr_cwd rq \<rparr> = Allow limits \<and>
      al_require_verified_device limits \<le> (ho_device_verified ho (ag_matrix_user_id a) = Some True) \<and>
      al_require_sandbox limits \<le> (sandbox_backend (al_sandbox limits) \<noteq> BackendNone) \<and>
      first_disallowed_remote_override (xr_env rq) (al_env_allowlist limits) = None)) \<and>
    (authorize_live_exec ho rm (exec_request_to_json rq) rq room_id sender = Inr (r, limits)) \<le>
      (resolve_policy (ho_policy ho) = PolicyLoaded (host_policy ho) \<and> validate (pe_rx (ho_policy ho)) (host_policy ho) = Inr ())"
proof -
  note iff = authorize_live_exec_ok [OF exec_read_wf [OF assms], of ho rm room_id sender r limits]
  have "resolve_policy (ho_policy ho) = PolicyLoaded (host_policy ho)"
    if "evaluate_exec (pe_rx (ho_policy ho)) (host_policy ho) ctx = Allow limits" for ctx
    using that default_policy_denies(1) [of "pe_rx (ho_policy ho)" ctx]
    by (cases "resolve_policy (ho_policy ho)") (simp_all add: host_policy_def resolve_policy_for_enforcement_def)
  moreover have "validate (pe_rx (ho_policy ho)) (host_policy ho) = Inr ()"
    by (simp add: host_policy_def enforced_policy_valid)
  ultimately show ?thesis
    unfolding iff by auto
qed


text \<open>Requests arrive. A request that an agent's daemon builds and signs is read back by the target
  as it was built and is authorized there, provided the target knows the agent's published key and
  account, trusts the key, permits the command for the account and the gates pass.\<close>

theorem exec_request_arrives:
  assumes "signature_laws (ho_crypto ho) public" "bm_wf (xo_env opts)"
    and "read_agent_state rm (xo_requesting_agent opts) = Inr (Some a)"
      "verifying_key_from_agent_state (ho_codec ho) a = Inr (public sk)"
      "is_key_trusted (host_trust ho) (ag_signing_key_id a)"
    and "evaluate_exec (pe_rx (ho_policy ho)) (host_policy ho) \<lparr> ec_room_id = room_id,
      ec_requesting_agent = ag_matrix_user_id a, ec_command = xo_command opts, ec_cwd = xo_cwd opts \<rparr> = Allow limits"
    and "al_require_verified_device limits \<le> (ho_device_verified ho (ag_matrix_user_id a) = Some True)"
      "al_require_sandbox limits \<le> (sandbox_backend (al_sandbox limits) \<noteq> BackendNone)"
      "first_disallowed_remote_override (xo_env opts) (al_env_allowlist limits) = None"
  shows "\<exists>rq. build_signed_exec_request (ho_crypto ho) sk (ag_signing_key_id a) i q n c e opts =
      Inr (exec_request_to_json rq) \<and>
    exec_request_from_json (exec_request_to_json rq) = Some rq \<and>
    xr_command rq = xo_command opts \<and> xr_env rq = xo_env opts \<and> xr_cwd rq = xo_cwd opts \<and>
    authorize_live_exec ho rm (exec_request_to_json rq) rq room_id (Some (ag_matrix_user_id a)) = Inr (rq, limits)"
proof -
  obtain s where "sg_key_id s = ag_signing_key_id a \<and>
    (let rq = (unsigned_exec_request (ag_signing_key_id a) i q n c e opts) \<lparr> xr_signature := s \<rparr> in
     build_signed_exec_request (ho_crypto ho) sk (ag_signing_key_id a) i q n c e opts = Inr (exec_request_to_json rq) \<and>
     exec_wf rq \<and> Signing.verify (ho_crypto ho) (public sk) (exec_request_to_json rq) = Inr ())"
    using built_exec_request [OF assms(1,2), where key_id = "ag_signing_key_id a" and i = i and q = q and n = n
        and c = c and e = e and sk = sk] by (elim exE)
  moreover define rq where "rq = (unsigned_exec_request (ag_signing_key_id a) i q n c e opts) \<lparr> xr_signature := s \<rparr>"
  ultimately have b: "build_signed_exec_request (ho_crypto ho) sk (ag_signing_key_id a) i q n c e opts = Inr (exec_request_to_json rq)"
    "exec_wf rq" "Signing.verify (ho_crypto ho) (public sk) (exec_request_to_json rq) = Inr ()"
    and s: "sg_key_id s = ag_signing_key_id a"
    by (simp_all add: Let_def)
  have f: "xr_requesting_agent rq = xo_requesting_agent opts" "xr_signature rq = s" "xr_command rq = xo_command opts"
    "xr_cwd rq = xo_cwd opts" "xr_env rq = xo_env opts"
    by (simp_all add: rq_def unsigned_exec_request_def)
  have "authorize_live_exec ho rm (exec_request_to_json rq) rq room_id (Some (ag_matrix_user_id a)) = Inr (rq, limits)"
    unfolding authorize_live_exec_ok [OF b(2)] f
    using assms(3-9) b(3) s by (intro conjI refl exI [of _ a] exI [of _ "public sk"]) simp_all
  then show ?thesis
    using b f exec_wf_roundtrip [OF b(2)] by (intro exI [of _ rq]) simp
qed

text \<open>A room with a requesting and an executing agent, and a host that trusts the requester's key.\<close>

definition live_key :: string where
  "live_key = replicate 32 (CHR ''k'')"

definition live_codec :: "string key_codec" where
  "live_codec = \<lparr> kc_bytes = (\<lambda>k. k), kc_from_bytes = Some, kc_sha256 = (\<lambda>s. s), kc_encode = (\<lambda>s. s), kc_decode = Some \<rparr>"

definition live_agent :: "string \<Rightarrow> string \<Rightarrow> AgentState" where
  "live_agent agent_id user = demo_hb_agent \<lparr> ag_agent_id := agent_id, ag_matrix_user_id := user,
     ag_signing_key_id := key_id_for_verifying_key live_codec live_key, ag_signing_public_key := Some live_key \<rparr>"

definition live_room :: Room where
  "live_room = \<lparr> rm_tasks = [], rm_invocations = [],
     rm_agents = [(''a'', Parsed (live_agent ''a'' ''@a:x'')), (''b'', Parsed (live_agent ''b'' ''@b:x''))], rm_timeline = [] \<rparr>"

definition live_policy :: policy_env where
  "live_policy = \<lparr> pe_var = (\<lambda>_. Some ''/c''), pe_read = (\<lambda>_. Inr []), pe_toml = (\<lambda>_. Inr demo_policy), pe_rx = demo_rx,
     pe_show = (\<lambda>_. []) \<rparr>"

definition live_host :: "(string, string) crypto \<Rightarrow> (string, string) Host" where
  "live_host cr = \<lparr> ho_crypto = cr, ho_codec = live_codec, ho_policy = live_policy,
     ho_trust = Inr [\<lparr> te_agent_id = ''a'', te_key_id = key_id_for_verifying_key live_codec live_key, te_fingerprint = [],
       te_status = Trusted, te_room = None, te_trusted_by = None, te_created_at = 0, te_revoked_at = None \<rparr>],
     ho_device_verified = (\<lambda>_. None), ho_key = Inr (live_key, key_id_for_verifying_key live_codec live_key),
     ho_env = demo_hb_env \<rparr>"

definition live_opts :: ExecRequestOptions where
  "live_opts = \<lparr> xo_target_agent = ''b'', xo_requesting_agent = ''a'', xo_command = [''/bin/git'', ''status''],
     xo_cwd = ''/srv/project/sub'', xo_env = [], xo_stdin = False, xo_stream = True, xo_pty = False, xo_timeout_ms = 1000,
     xo_task_id = None \<rparr>"

definition live_limits :: Allowance where
  "live_limits = allowance_for demo_policy demo_room demo_agent"

lemma live_host_simps [simp]:
  "ho_crypto (live_host cr) = cr" "ho_codec (live_host cr) = live_codec" "ho_policy (live_host cr) = live_policy"
  "ho_device_verified (live_host cr) u = None" "ho_env (live_host cr) = demo_hb_env"
  "ho_key (live_host cr) = Inr (live_key, key_id_for_verifying_key live_codec live_key)"
  "pe_rx live_policy = demo_rx"
  by (simp_all add: live_host_def live_policy_def)

lemma live_policy_resolved: "host_policy (live_host cr) = demo_policy"
  using demo_policy_valid
  by (simp add: host_policy_def resolve_policy_for_enforcement_def resolve_policy_def live_policy_def default_path_def
      load_optional_def parse_def)

lemma live_allow:
  "evaluate_exec demo_rx demo_policy \<lparr> ec_room_id = ''!r:x'', ec_requesting_agent = ''@a:x'',
     ec_command = [''/bin/git'', ''status''], ec_cwd = ''/srv/project/sub'' \<rparr> = Allow live_limits"
proof -
  have "bm_get (rooms demo_policy) ''!r:x'' = Some demo_room" "bm_get (rp_agents demo_room) ''@a:x'' = Some demo_agent"
    "ap_allow_exec demo_agent" "rp_trusted demo_room"
    by (simp_all add: demo_defs bm_get_def)
  moreover have "command_allowed ''/bin/git'' (ap_allow_commands demo_agent)"
    "cwd_allowed ''/srv/project/sub'' (ap_allow_cwd demo_agent)"
    "deny_patterns_clear demo_rx [''/bin/git'', ''status''] (ap_deny_args_regex demo_agent)"
    by code_simp+
  ultimately show ?thesis
    by (simp add: evaluate_exec_Allow live_limits_def)
qed

lemma live_trusted: "is_key_trusted (host_trust (live_host cr)) (key_id_for_verifying_key live_codec live_key)"
  by (simp add: host_trust_def live_host_def is_key_trusted_def entry_is_trusted_def)

lemma live_requester:
  "read_agent_state live_room ''a'' = Inr (Some (live_agent ''a'' ''@a:x''))"
  "read_agent_state live_room ''b'' = Inr (Some (live_agent ''b'' ''@b:x''))"
  by (simp_all add: read_agent_state_def live_room_def bm_get_def)

lemma live_verifying_key: "verifying_key_from_agent_state live_codec (live_agent i u) = Inr live_key"
  by (simp add: verifying_key_from_agent_state_def live_agent_def decode_verifying_key_def live_codec_def live_key_def)

lemma live_agent_simps [simp]:
  "ag_matrix_user_id (live_agent i u) = u" "ag_agent_id (live_agent i u) = i"
  "ag_signing_key_id (live_agent i u) = key_id_for_verifying_key live_codec live_key"
  by (simp_all add: live_agent_def)

lemma live_limits_simps [simp]:
  "\<not> al_require_verified_device live_limits" "\<not> al_require_sandbox live_limits" "\<not> al_requires_approval live_limits"
  by (simp_all add: live_limits_def allowance_for_def demo_defs)

theorem exec_request_arrives_witness:
  "\<exists>rq. build_signed_exec_request demo_crypto live_key (key_id_for_verifying_key live_codec live_key)
      ''inv_1'' ''req_1'' ''n1'' ''c'' ''e'' live_opts = Inr (exec_request_to_json rq) \<and>
    authorize_live_exec (live_host demo_crypto) live_room (exec_request_to_json rq) rq ''!r:x'' (Some ''@a:x'') =
      Inr (rq, live_limits)"
proof -
  have "\<exists>rq. build_signed_exec_request (ho_crypto (live_host demo_crypto)) live_key (ag_signing_key_id (live_agent ''a'' ''@a:x''))
      ''inv_1'' ''req_1'' ''n1'' ''c'' ''e'' live_opts = Inr (exec_request_to_json rq) \<and>
    exec_request_from_json (exec_request_to_json rq) = Some rq \<and>
    xr_command rq = xo_command live_opts \<and> xr_env rq = xo_env live_opts \<and> xr_cwd rq = xo_cwd live_opts \<and>
    authorize_live_exec (live_host demo_crypto) live_room (exec_request_to_json rq) rq ''!r:x''
      (Some (ag_matrix_user_id (live_agent ''a'' ''@a:x''))) = Inr (rq, live_limits)"
    by (rule exec_request_arrives [OF _ _ _ _ _ _ _ _, of "live_host demo_crypto" "\<lambda>sk. sk"])
      (simp_all add: demo_crypto_laws live_requester live_verifying_key live_trusted live_policy_resolved live_allow
        live_opts_def bm_wf_def first_disallowed_remote_override_def)
  then show ?thesis by auto
qed

lemma live_request:
  "\<exists>s rq. rq = (unsigned_exec_request (key_id_for_verifying_key live_codec live_key) ''inv_1'' ''req_1'' ''n1'' ''c'' ''e''
       live_opts) \<lparr> xr_signature := s \<rparr> \<and> sg_key_id s = key_id_for_verifying_key live_codec live_key \<and>
     exec_wf rq \<and> Signing.verify demo_crypto live_key (exec_request_to_json rq) = Inr ()"
proof -
  have "bm_wf (xo_env live_opts)" by (simp add: live_opts_def bm_wf_def)
  from built_exec_request [OF demo_crypto_laws(1) this, where key_id = "key_id_for_verifying_key live_codec live_key"
      and i = "''inv_1''" and q = "''req_1''" and n = "''n1''" and c = "''c''" and e = "''e''" and sk = live_key]
  show ?thesis by (auto simp: Let_def)
qed

theorem exec_authorization_witness:
  "\<exists>rq. exec_request_from_json (exec_request_to_json rq) = Some rq \<and> xr_command rq = [''/bin/git'', ''status''] \<and>
    authorize_live_exec (live_host demo_crypto) live_room (exec_request_to_json rq) rq ''!r:x'' (Some ''@a:x'') =
      Inr (rq, live_limits)"
proof -
  obtain s rq where rq: "rq = (unsigned_exec_request (key_id_for_verifying_key live_codec live_key) ''inv_1'' ''req_1'' ''n1''
        ''c'' ''e'' live_opts) \<lparr> xr_signature := s \<rparr>" "sg_key_id s = key_id_for_verifying_key live_codec live_key"
      "exec_wf rq" "Signing.verify demo_crypto live_key (exec_request_to_json rq) = Inr ()"
    using live_request by (elim exE conjE)
  have f: "xr_requesting_agent rq = ''a''" "xr_signature rq = s" "xr_command rq = [''/bin/git'', ''status'']"
    "xr_cwd rq = ''/srv/project/sub''" "xr_env rq = []"
    by (simp_all add: rq(1) unsigned_exec_request_def live_opts_def)
  note wf = exec_wf_roundtrip [OF rq(3)]
  have "authorize_live_exec (live_host demo_crypto) live_room (exec_request_to_json rq) rq ''!r:x'' (Some ''@a:x'') =
      Inr (rq, live_limits)"
    using f rq(2,4)
    by (intro iffD2 [OF conjunct1 [OF exec_authorization [OF wf]]] conjI refl exI [of _ "live_agent ''a'' ''@a:x''"]
        exI [of _ live_key])
      (simp_all add: live_requester live_verifying_key live_trusted live_policy_resolved live_allow
        first_disallowed_remote_override_def)
  then show ?thesis
    using wf f(3) by (intro exI [of _ rq]) simp
qed

text \<open>A verifier that accepts the bytes of one issued request.\<close>

definition live_issued :: ExecRequest where
  "live_issued = unsigned_exec_request (key_id_for_verifying_key live_codec live_key) ''inv_1'' ''req_1'' ''n1'' ''c'' ''e'' live_opts"

definition live_ideal :: "(string, string) crypto" where
  "live_ideal = demo_crypto \<lparr> cr_verify := (\<lambda>vk bs s. signing_bytes demo_crypto (exec_request_to_json live_issued) = Inr bs) \<rparr>"

lemma live_ideal_bytes: "signing_bytes live_ideal v = signing_bytes demo_crypto v"
  by (cases v) (simp_all add: signing_bytes_def live_ideal_def)


end
