(* ===== verification/Call_Auth.thy ===== *)
theory Call_Auth
  imports Exec_Auth Task_Lifecycle
begin

text \<open>
  Tool calls, \<open>crates/mx-agent-daemon/src/call.rs\<close>: building and authorizing signed calls, running the
  tool, the signed response, and the caller's side, which accepts a response only from the account of the
  executing agent and with a signature of its published, locally trusted key (\<open>result_verify.rs\<close>). The tool
  runner is the parameter \<open>tool\<close>; what it returns is an error text or a JSON result.
\<close>

fun call_rejection_reason :: "CallRejection \<Rightarrow> string" where
  "call_rejection_reason CMalformed = ''malformed_request''"
| "call_rejection_reason CUnsigned = ''unsigned''"
| "call_rejection_reason CInvalidSignature = ''invalid_signature''"
| "call_rejection_reason (CUntrustedKey _) = ''untrusted_key''"
| "call_rejection_reason (CPolicyDenied _) = ''policy_denied''"
| "call_rejection_reason CUnverifiedDevice = ''unverified_device''"
| "call_rejection_reason CApprovalDenied = ''approval_denied''"
| "call_rejection_reason CApprovalExpired = ''approval_expired''"

definition read_call_signature :: "json \<Rightarrow> (CallRejection, Signature option) result" where
  "read_call_signature = embedded_signature CMalformed CInvalidSignature"

fun call_signature_error :: "SignatureError \<Rightarrow> CallRejection" where
  "call_signature_error MissingSignature = CUnsigned"
| "call_signature_error NotAnObject = CMalformed"
| "call_signature_error _ = CInvalidSignature"

definition CALL_REQUEST_TTL :: u64 where "CALL_REQUEST_TTL = 300"

record CallTargeting =
  ct_requesting_agent :: "string option"
  ct_target_agent :: "string option"

definition unsigned_call_request ::
  "string \<Rightarrow> string \<Rightarrow> string \<Rightarrow> string \<Rightarrow> string \<Rightarrow> string \<Rightarrow> string \<Rightarrow> json \<Rightarrow> CallTargeting \<Rightarrow> CallRequest" where
  "unsigned_call_request key_id invocation_id request_id nonce created_at expires_at tool_name args targeting = \<lparr>
     cq_invocation_id = invocation_id, cq_request_id = request_id, cq_tool = tool_name, cq_args = args,
     cq_created_at = created_at, cq_expires_at = expires_at, cq_nonce = nonce,
     cq_signature = \<lparr> sg_alg = ALG_ED25519, sg_key_id = key_id, sg_sig = [] \<rparr>,
     cq_requesting_agent = ct_requesting_agent targeting, cq_target_agent = ct_target_agent targeting, cq_extra = [] \<rparr>"

definition build_signed_call_request_for_target ::
  "('sk, 'vk) crypto \<Rightarrow> 'sk \<Rightarrow> string \<Rightarrow> string \<Rightarrow> string \<Rightarrow> string \<Rightarrow> string \<Rightarrow> string \<Rightarrow> string \<Rightarrow> json \<Rightarrow> CallTargeting
    \<Rightarrow> (SignatureError, json) result" where
  "build_signed_call_request_for_target cr sk key_id invocation_id request_id nonce created_at expires_at tool_name args targeting =
     sign_into cr sk key_id (call_request_to_json
       (unsigned_call_request key_id invocation_id request_id nonce created_at expires_at tool_name args targeting))"

definition build_signed_call_request ::
  "('sk, 'vk) crypto \<Rightarrow> Env \<Rightarrow> 'sk \<Rightarrow> string \<Rightarrow> string \<Rightarrow> string \<Rightarrow> string \<Rightarrow> json \<Rightarrow> (SignatureError, json) result" where
  "build_signed_call_request cr env sk key_id invocation_id request_id tool_name args =
     build_signed_call_request_for_target cr sk key_id invocation_id request_id (en_nonce env) (rfc3339_after env 0)
       (rfc3339_after env CALL_REQUEST_TTL) tool_name args \<lparr> ct_requesting_agent = None, ct_target_agent = None \<rparr>"

text \<open>The source expects signing to succeed and panics otherwise; arguments that hold a float make it fail.
  The panic is the error \<open>None\<close>.\<close>

definition send_call_request ::
  "('sk, 'vk) crypto \<Rightarrow> Env \<Rightarrow> 'sk \<Rightarrow> string \<Rightarrow> string \<Rightarrow> string \<Rightarrow> string \<Rightarrow> json \<Rightarrow> Room
    \<Rightarrow> (WorkspaceError option, CallRequest) result \<times> Room" where
  "send_call_request cr env sk key_id invocation_id request_id tool_name args rm =
     (case build_signed_call_request cr env sk key_id invocation_id request_id tool_name args of
        Inl _ \<Rightarrow> (Inl None, rm)
      | Inr content \<Rightarrow>
         (case send_raw env CALL_REQUEST content rm of
            (Inl e, rm') \<Rightarrow> (Inl (Some e), rm')
          | (Inr _, rm') \<Rightarrow> (ok_or (call_request_from_json content) (Some serde_error), rm')))"

subsection \<open>Authorization\<close>

definition authorize_call_request_with_allowance ::
  "('sk, 'vk) crypto \<Rightarrow> json \<Rightarrow> 'vk \<Rightarrow> TrustStore \<Rightarrow> Policy \<Rightarrow> string \<Rightarrow> string
    \<Rightarrow> (CallRejection, CallRequest \<times> Allowance) result" where
  "authorize_call_request_with_allowance cr content verifying_key trust policy room_id requesting_agent =
     and_then (and_then (read_call_signature content) (\<lambda>s. ok_or s CUnsigned)) (\<lambda>signature.
     and_then (map_err call_signature_error (Signing.verify cr verifying_key content)) (\<lambda>_.
     and_then (ok_or (call_request_from_json content) CMalformed) (\<lambda>request.
     if \<not> is_key_trusted trust (sg_key_id signature) then Inl (CUntrustedKey (sg_key_id signature))
     else case evaluate_call policy \<lparr> cc_room_id = room_id, cc_requesting_agent = requesting_agent,
                 cc_tool = cq_tool request \<rparr> of
       Allow limits \<Rightarrow> Inr (request, limits)
     | Deny reason \<Rightarrow> Inl (CPolicyDenied reason))))"

definition authorize_call_request ::
  "('sk, 'vk) crypto \<Rightarrow> json \<Rightarrow> 'vk \<Rightarrow> TrustStore \<Rightarrow> Policy \<Rightarrow> string \<Rightarrow> string \<Rightarrow> (CallRejection, CallRequest) result" where
  "authorize_call_request cr content verifying_key trust policy room_id requesting_agent =
     map_sum id fst (authorize_call_request_with_allowance cr content verifying_key trust policy room_id requesting_agent)"

definition enforce_verified_device_call :: "Allowance \<Rightarrow> bool option \<Rightarrow> (CallRejection, unit) result" where
  "enforce_verified_device_call limits device_verified =
     (if al_require_verified_device limits \<and> device_verified \<noteq> Some True then Inl CUnverifiedDevice else Inr ())"

definition authorize_live_call ::
  "('sk, 'vk) Host \<Rightarrow> Room \<Rightarrow> json \<Rightarrow> CallRequest \<Rightarrow> string \<Rightarrow> string \<Rightarrow> string option
    \<Rightarrow> (CallRejection, CallRequest \<times> Allowance) result" where
  "authorize_live_call ho rm content request requesting_agent room_id authenticated_sender =
     and_then (map_err (\<lambda>_. CMalformed) (read_agent_state rm requesting_agent)) (\<lambda>found.
     and_then (ok_or found (CUntrustedKey (sg_key_id (cq_signature request)))) (\<lambda>requester.
     if ag_signing_key_id requester \<noteq> sg_key_id (cq_signature request) then Inl CInvalidSignature
     else
       and_then (verifying_key_from_agent_state (ho_codec ho) requester) (\<lambda>verifying_key.
       and_then (map_err (\<lambda>_. CInvalidSignature)
                  (policy_identity (ag_matrix_user_id requester) authenticated_sender)) (\<lambda>policy_key.
       and_then (authorize_call_request_with_allowance (ho_crypto ho) content verifying_key (host_trust ho)
                  (host_policy ho) room_id policy_key) (\<lambda>(request, limits).
       and_then (enforce_verified_device_call limits (ho_device_verified ho (ag_matrix_user_id requester))) (\<lambda>_.
       Inr (request, limits)))))))"

subsection \<open>Responses\<close>

definition success_response :: "string \<Rightarrow> json \<Rightarrow> CallResponse" where
  "success_response request_id res = \<lparr> cp_request_id = request_id, cp_ok = True, cp_result = Some res, cp_error = None,
     cp_signature = None, cp_extra = [] \<rparr>"

definition error_response :: "string \<Rightarrow> string \<Rightarrow> CallResponse" where
  "error_response request_id msg = \<lparr> cp_request_id = request_id, cp_ok = False, cp_result = None, cp_error = Some msg,
     cp_signature = None, cp_extra = [] \<rparr>"

definition rejection_response :: "string \<Rightarrow> CallRejection \<Rightarrow> CallResponse" where
  "rejection_response request_id rejection = error_response request_id (call_rejection_reason rejection)"

type_synonym tool_runner = "string \<Rightarrow> json \<Rightarrow> Allowance \<Rightarrow> (string, json) result"

definition execute_authorized_call :: "tool_runner \<Rightarrow> CallRequest \<Rightarrow> Allowance \<Rightarrow> CallResponse" where
  "execute_authorized_call tool request limits = (case tool (cq_tool request) (cq_args request) limits of
       Inr res \<Rightarrow> success_response (cq_request_id request) res
     | Inl err \<Rightarrow> error_response (cq_request_id request) err)"

definition call_response_to_json :: "CallResponse \<Rightarrow> json" where
  "call_response_to_json r = JObject ([(''request_id'', JString (cp_request_id r)), (''ok'', JBool (cp_ok r)),
     (''result'', opt_null (\<lambda>v. v) (cp_result r)), (''error'', opt_null JString (cp_error r))] @
     opt_member ''signature'' signature_to_json (cp_signature r) @ cp_extra r)"

definition emit_call_response ::
  "('sk, 'vk) crypto \<Rightarrow> Env \<Rightarrow> 'sk \<Rightarrow> string \<Rightarrow> CallResponse \<Rightarrow> Room \<Rightarrow> (WorkspaceError, unit) result \<times> Room" where
  "emit_call_response cr env sk key_id response rm =
     (case sign_into cr sk key_id (call_response_to_json response) of
        Inr content \<Rightarrow> send_raw env CALL_RESPONSE content rm
      | Inl (NonCanonical _) \<Rightarrow>
         (case sign_into cr sk key_id (call_response_to_json
                 (error_response (cp_request_id response) ''result not canonicalizable'')) of
            Inl _ \<Rightarrow> (Inr (), rm)
          | Inr error_content \<Rightarrow> send_raw env CALL_RESPONSE error_content rm)
      | Inl _ \<Rightarrow> (Inr (), rm))"

datatype CallErrorKind = KUnknownTool | KInvalidArgs | KNotFound | KSpawn | KRemote

datatype CallOutcome = CallOk int string | CallFailed CallErrorKind string

definition json_get :: "json \<Rightarrow> string \<Rightarrow> json option" where
  "json_get v k = Option.bind (members_of v) (\<lambda>m. map_of m k)"

definition response_to_outcome :: "CallResponse \<Rightarrow> CallOutcome" where
  "response_to_outcome response =
     (if cp_ok response then
        (let res = unwrap_or (cp_result response) JNull
         in CallOk (unwrap_or (Option.bind (json_get res ''exit_code'') as_i32) 0)
              (unwrap_or (Option.bind (json_get res ''summary'') as_string) ''remote call completed''))
      else CallFailed KRemote (unwrap_or (cp_error response) ''remote call failed''))"

subsection \<open>Accepting a response\<close>

datatype ResultVerifyError = RUnresolvableKey | RUnsigned | RKeyIdMismatch | RUntrustedKey | RInvalid

fun result_verify_reason :: "ResultVerifyError \<Rightarrow> string" where
  "result_verify_reason RUnresolvableKey = ''unresolvable_executor_key''"
| "result_verify_reason RUnsigned = ''unsigned''"
| "result_verify_reason RKeyIdMismatch = ''key_id_mismatch''"
| "result_verify_reason RUntrustedKey = ''untrusted_key''"
| "result_verify_reason RInvalid = ''invalid_signature''"

definition embedded_key_id :: "json \<Rightarrow> string option" where
  "embedded_key_id v = Option.bind (json_get v SIGNATURE_FIELD) (\<lambda>s. Option.bind (json_get s ''key_id'') as_string)"

text \<open>\<open>to_value\<close> serialises the typed event.\<close>

definition verify_result_signature ::
  "('sk, 'vk) crypto \<Rightarrow> 'vk key_codec \<Rightarrow> ('t \<Rightarrow> json) \<Rightarrow> 't \<Rightarrow> AgentState \<Rightarrow> TrustStore \<Rightarrow> (ResultVerifyError, unit) result" where
  "verify_result_signature cr kc to_value event agent_state trust =
     and_then (map_err (\<lambda>_. RUnresolvableKey) (verifying_key_from_agent_state kc agent_state)) (\<lambda>verifying_key.
     and_then (map_err (\<lambda>e. if e = MissingSignature then RUnsigned else RInvalid)
                (verify_signed cr (\<lambda>e. Some (to_value e)) verifying_key event)) (\<lambda>_.
     case embedded_key_id (to_value event) of
       None \<Rightarrow> Inl RInvalid
     | Some key_id \<Rightarrow>
        if key_id \<noteq> ag_signing_key_id agent_state then Inl RKeyIdMismatch
        else if \<not> is_key_trusted trust key_id then Inl RUntrustedKey
        else Inr ()))"

definition verify_call_response_signature ::
  "('sk, 'vk) Host \<Rightarrow> Client \<Rightarrow> IncomingEvent \<Rightarrow> string \<Rightarrow> (string, unit) result" where
  "verify_call_response_signature ho cl event expected_sender =
     and_then (ok_or (call_response_from_json (ie_content event)) ''malformed'') (\<lambda>response.
     and_then (ok_or (bm_get (cl_rooms cl) (ie_room_id event)) (result_verify_reason RUnresolvableKey)) (\<lambda>rm.
     and_then (map_err (\<lambda>_. result_verify_reason RUnresolvableKey) (read_all_agent_states rm)) (\<lambda>agents.
     and_then (ok_or (find (\<lambda>a. ag_matrix_user_id a = expected_sender) agents) (result_verify_reason RUnresolvableKey)) (\<lambda>agent_state.
     map_err result_verify_reason
       (verify_result_signature (ho_crypto ho) (ho_codec ho) call_response_to_json response agent_state (host_trust ho))))))"

definition matching_response ::
  "('sk, 'vk) Host \<Rightarrow> Client \<Rightarrow> string \<Rightarrow> string \<Rightarrow> IncomingEvent \<Rightarrow> CallResponse option" where
  "matching_response ho cl request_id expected_sender event =
     (if ie_event_type event \<noteq> CALL_RESPONSE then None
      else if ie_sender event \<noteq> expected_sender then None
      else if isl (verify_call_response_signature ho cl event expected_sender) then None
      else case call_response_from_json (ie_content event) of
        None \<Rightarrow> None
      | Some response \<Rightarrow> if cp_request_id response = request_id then Some response else None)"

primrec first_some :: "('a \<Rightarrow> 'b option) \<Rightarrow> 'a list \<Rightarrow> 'b option" where
  "first_some f [] = None"
| "first_some f (x # xs) = (case f x of Some y \<Rightarrow> Some y | None \<Rightarrow> first_some f xs)"

text \<open>The wait polls until the deadline: \<open>syncs\<close> are the answers that arrive before it, each with the rooms
  as they are then.\<close>

fun wait_for_call_response ::
  "('sk, 'vk) Host \<Rightarrow> string \<Rightarrow> string \<Rightarrow> (string, Client \<times> IncomingEvent list) result list \<Rightarrow> (string, CallResponse) result" where
  "wait_for_call_response ho request_id expected_sender [] = Inl ''timed out waiting for call response''"
| "wait_for_call_response ho request_id expected_sender (sync # syncs) = (case sync of
     Inl e \<Rightarrow> Inl e
   | Inr (cl, events) \<Rightarrow>
      (case first_some (matching_response ho cl request_id expected_sender) events of
         Some response \<Rightarrow> Inr response
       | None \<Rightarrow> wait_for_call_response ho request_id expected_sender syncs))"

subsection \<open>Lemmas on call authorization\<close>

lemma call_read_fresh: "call_request_from_json v = Some r \<Longrightarrow> fresh_members call_fields (cq_extra r)"
  by (auto simp: call_request_from_json_def split: json.splits option.splits)

lemma call_embedded_signature:
  "embedded_signature a b (call_request_to_json r) = Inr (Some (cq_signature r))"
  by (simp add: embedded_signature_def call_request_to_json_def SIGNATURE_FIELD_def signature_to_json_def
      signature_from_json_def signature_of_fields_def ok_or_def map_err_def)

lemma authorize_call_ok:
  assumes "fresh_members call_fields (cq_extra rq)"
  shows "authorize_call_request_with_allowance cr (call_request_to_json rq) vk trust policy room who = Inr (r, limits) \<longleftrightarrow>
    r = rq \<and> Signing.verify cr vk (call_request_to_json rq) = Inr () \<and>
    is_key_trusted trust (sg_key_id (cq_signature rq)) \<and>
    evaluate_call policy \<lparr> cc_room_id = room, cc_requesting_agent = who, cc_tool = cq_tool rq \<rparr> = Allow limits"
  using call_request_roundtrip [OF assms]
  by (auto simp: authorize_call_request_with_allowance_def read_call_signature_def call_embedded_signature ok_or_def
      and_then_eq_Inr map_err_def split: sum.splits Outcome.splits)

lemma device_gate_call_ok:
  "enforce_verified_device_call limits d = Inr u \<longleftrightarrow> al_require_verified_device limits \<le> (d = Some True)"
  by (auto simp: enforce_verified_device_call_def)

lemma authorize_live_call_ok:
  assumes "fresh_members call_fields (cq_extra rq)"
  shows "authorize_live_call ho rm (call_request_to_json rq) rq who room_id sender = Inr (r, limits) \<longleftrightarrow>
    r = rq \<and> (\<exists>a vk. read_agent_state rm who = Inr (Some a) \<and>
      ag_signing_key_id a = sg_key_id (cq_signature rq) \<and>
      verifying_key_from_agent_state (ho_codec ho) a = Inr vk \<and>
      (sender = None \<or> sender = Some (ag_matrix_user_id a)) \<and>
      Signing.verify (ho_crypto ho) vk (call_request_to_json rq) = Inr () \<and>
      is_key_trusted (host_trust ho) (sg_key_id (cq_signature rq)) \<and>
      evaluate_call (host_policy ho) \<lparr> cc_room_id = room_id, cc_requesting_agent = ag_matrix_user_id a,
        cc_tool = cq_tool rq \<rparr> = Allow limits \<and>
      al_require_verified_device limits \<le> (ho_device_verified ho (ag_matrix_user_id a) = Some True))"
  (is "?L \<longleftrightarrow> ?R")
proof
  assume ?L
  then show ?R
    unfolding authorize_live_call_def
    by (auto simp: and_then_eq_Inr map_err_eq_Inr ok_or_eq_Inr authorize_call_ok [OF assms] policy_identity_ok
        device_gate_call_ok split: if_splits option.splits)
next
  assume ?R
  then obtain a vk where r: "r = rq" and a: "read_agent_state rm who = Inr (Some a)"
      "ag_signing_key_id a = sg_key_id (cq_signature rq)" "verifying_key_from_agent_state (ho_codec ho) a = Inr vk"
    and s: "sender = None \<or> sender = Some (ag_matrix_user_id a)"
    and v: "Signing.verify (ho_crypto ho) vk (call_request_to_json rq) = Inr ()"
      "is_key_trusted (host_trust ho) (sg_key_id (cq_signature rq))"
      "evaluate_call (host_policy ho) \<lparr> cc_room_id = room_id, cc_requesting_agent = ag_matrix_user_id a,
        cc_tool = cq_tool rq \<rparr> = Allow limits"
    and g: "al_require_verified_device limits \<le> (ho_device_verified ho (ag_matrix_user_id a) = Some True)"
    by (elim conjE exE)
  have "policy_identity (ag_matrix_user_id a) sender = Inr (ag_matrix_user_id a)"
    using s by (simp add: policy_identity_ok)
  moreover have "authorize_call_request_with_allowance (ho_crypto ho) (call_request_to_json rq) vk
      (host_trust ho) (host_policy ho) room_id (ag_matrix_user_id a) = Inr (rq, limits)"
    using v by (simp add: authorize_call_ok [OF assms])
  moreover have "enforce_verified_device_call limits (ho_device_verified ho (ag_matrix_user_id a)) = Inr ()"
    using g by (simp only: device_gate_call_ok)
  ultimately show ?L
    unfolding authorize_live_call_def by (simp add: a r ok_or_def map_err_def del: and_then_eq_Inr)
qed

subsection \<open>Lemmas on responses\<close>

definition response_fields :: "string list" where
  "response_fields = [''request_id'', ''ok'', ''result'', ''error'', ''signature'']"

text \<open>A null result and no result are written alike; reading gives no result.\<close>

definition as_read :: "CallResponse \<Rightarrow> CallResponse" where
  "as_read r = r \<lparr> cp_result := (if cp_result r = Some JNull then None else cp_result r) \<rparr>"

lemma as_read_json: "call_response_to_json (as_read r) = call_response_to_json r"
  by (simp add: call_response_to_json_def as_read_def opt_null_def)

lemma opt_field_result: "map_of m k = Some (opt_null (\<lambda>v. v) x) \<Longrightarrow>
  opt_field Some m k = Some (if x = Some JNull then None else x)"
  by (cases x) (auto simp: opt_field_def opt_null_def split: json.splits)

lemma opt_field_null_string: "map_of m k = Some (opt_null JString x) \<Longrightarrow> opt_field as_string m k = Some x"
  by (cases x) (auto simp: opt_field_def opt_null_def)

lemma call_response_read:
  assumes "fresh_members response_fields (cp_extra r)"
  shows "call_response_from_json (call_response_to_json r) = Some (as_read r)"
proof -
  have o: "others response_fields (cp_extra r) = cp_extra r" using assms by simp
  have n: "map_of (cp_extra r) ''signature'' = None"
    by (rule fresh_map_of [OF assms], simp add: response_fields_def)
  let ?m = "[(''request_id'', JString (cp_request_id r)), (''ok'', JBool (cp_ok r)),
     (''result'', opt_null (\<lambda>v. v) (cp_result r)), (''error'', opt_null JString (cp_error r))] @
     opt_member ''signature'' signature_to_json (cp_signature r) @ cp_extra r"
  have "opt_field signature_from_json ?m ''signature'' = Some (cp_signature r)"
    by (rule opt_field_signature) (cases "cp_signature r"; simp add: opt_member_def n)
  moreover have "opt_field Some ?m ''result'' = Some (if cp_result r = Some JNull then None else cp_result r)"
    by (rule opt_field_result) simp
  moreover have "opt_field as_string ?m ''error'' = Some (cp_error r)"
    by (rule opt_field_null_string) simp
  moreover have "others response_fields ?m = cp_extra r"
    using o by (cases "cp_signature r") (simp_all add: others_Cons opt_member_def response_fields_def)
  ultimately show ?thesis
    by (simp add: call_response_from_json_def call_response_to_json_def field_def as_read_def
        response_fields_def)
qed

lemma opt_field_not_null: "opt_field Some m k = Some x \<Longrightarrow> x \<noteq> Some JNull"
  by (auto simp: opt_field_def split: option.splits json.splits)

lemma call_read_response:
  assumes "call_response_from_json v = Some r"
  shows "fresh_members response_fields (cp_extra r) \<and> as_read r = r"
  using assms unfolding call_response_from_json_def response_fields_def [symmetric]
  by (auto simp: bind_eq_Some_conv as_read_def dest: opt_field_not_null)

lemma verify_response_json:
  "cp_signature r = Some s \<Longrightarrow> Signing.verify cr vk (call_response_to_json r) =
     and_then (signing_bytes cr (call_response_to_json r)) (verify_signature cr vk s)"
  by (simp add: verify_def call_response_to_json_def SIGNATURE_FIELD_def opt_member_def)

lemma response_key_id: "cp_signature r = Some s \<Longrightarrow> embedded_key_id (call_response_to_json r) = Some (sg_key_id s)"
  by (simp add: embedded_key_id_def json_get_def call_response_to_json_def SIGNATURE_FIELD_def opt_member_def
      signature_to_json_def)

lemma verify_result_ok:
  "verify_result_signature cr kc to_value e a trust = Inr u \<longleftrightarrow>
    (\<exists>vk. verifying_key_from_agent_state kc a = Inr vk \<and> Signing.verify cr vk (to_value e) = Inr () \<and>
      embedded_key_id (to_value e) = Some (ag_signing_key_id a) \<and> is_key_trusted trust (ag_signing_key_id a))"
  by (auto simp: verify_result_signature_def and_then_eq_Inr map_err_eq_Inr verify_signed_def ok_or_def
      split: option.splits if_splits)

lemma verify_response_ok:
  assumes "verify_call_response_signature ho cl ev expected_sender = Inr u" "call_response_from_json (ie_content ev) = Some r"
  shows "\<exists>rm agents a vk. bm_get (cl_rooms cl) (ie_room_id ev) = Some rm \<and> read_all_agent_states rm = Inr agents \<and>
    a \<in> set agents \<and> ag_matrix_user_id a = expected_sender \<and> verifying_key_from_agent_state (ho_codec ho) a = Inr vk \<and>
    Signing.verify (ho_crypto ho) vk (call_response_to_json r) = Inr () \<and> is_key_trusted (host_trust ho) (ag_signing_key_id a)"
  using assms
  by (auto simp: verify_call_response_signature_def and_then_eq_Inr map_err_eq_Inr ok_or_eq_Inr verify_result_ok
      find_Some_iff) (metis nth_mem)

lemma first_some_ok: "first_some f xs = Some y \<Longrightarrow> \<exists>x \<in> set xs. f x = Some y"
  by (induction xs) (auto split: option.splits)

lemma first_some_append:
  "list_all (\<lambda>x. f x = None) xs \<Longrightarrow> f y = Some z \<Longrightarrow> first_some f (xs @ y # ys) = Some z"
  by (induction xs) auto

lemma wait_matches:
  assumes "wait_for_call_response ho request_id expected_sender syncs = Inr r"
  shows "\<exists>cl evs ev. Inr (cl, evs) \<in> set syncs \<and> ev \<in> set evs \<and> matching_response ho cl request_id expected_sender ev = Some r"
  using assms
proof (induction syncs)
  case (Cons sync syncs)
  show ?case
  proof (cases sync)
    case (Inr p)
    obtain cl evs where p: "p = (cl, evs)" by (cases p)
    show ?thesis
    proof (cases "first_some (matching_response ho cl request_id expected_sender) evs")
      case None
      then show ?thesis using Cons Inr p by auto
    next
      case (Some r')
      then show ?thesis using Cons.prems Inr p first_some_ok [OF Some] by auto
    qed
  qed (use Cons.prems in simp)
qed simp

lemma matching_response_ok:
  "matching_response ho cl request_id expected_sender ev = Some r \<longleftrightarrow>
    ie_event_type ev = CALL_RESPONSE \<and> ie_sender ev = expected_sender \<and>
    verify_call_response_signature ho cl ev expected_sender = Inr () \<and>
    call_response_from_json (ie_content ev) = Some r \<and> cp_request_id r = request_id"
  by (cases "verify_call_response_signature ho cl ev expected_sender")
    (auto simp: matching_response_def split: option.splits)

lemma map_of_unsigned: "k \<noteq> SIGNATURE_FIELD \<Longrightarrow> map_of (unsigned_members m) k = map_of m k"
  by (induction m) (auto simp: unsigned_members_def)

lemma norm_scalar:
  "norm v = JString x \<longleftrightarrow> v = JString x" "norm v = JBool b \<longleftrightarrow> v = JBool b" "norm v = JNull \<longleftrightarrow> v = JNull"
  by (cases v; auto)+

lemma norm_opt_null_iff: "norm v = opt_null JString x \<longleftrightarrow> v = opt_null JString x"
  by (cases x) (simp_all add: opt_null_def norm_scalar)

lemma response_json_wf:
  assumes "json_wf v" "call_response_from_json v = Some r"
  shows "json_wf (call_response_to_json r)"
proof -
  obtain m where m: "v = JObject m" "cp_extra r = others response_fields m"
      "opt_field Some m ''result'' = Some (cp_result r)"
    using assms(2) unfolding call_response_from_json_def response_fields_def [symmetric]
    by (cases v) (auto simp: bind_eq_Some_conv)
  have "json_wf (opt_null (\<lambda>v. v) (cp_result r))"
    using m(3) assms(1) by (auto simp: m(1) opt_field_def opt_null_def list_all_iff dest!: map_of_SomeD
        split: option.splits json.splits)
  moreover have "distinct (map fst (others response_fields m))" "list_all (\<lambda>kv. json_wf (snd kv)) (others response_fields m)"
    "list_all (\<lambda>k. k \<notin> set response_fields) (map fst (others response_fields m))"
    using assms(1) m(1) by (auto simp: others_def distinct_map_filter list_all_iff)
  ultimately show ?thesis
    by (cases "cp_error r"; cases "cp_signature r")
      (auto simp: call_response_to_json_def m(2) response_fields_def list_all_iff signature_to_json_def opt_null_def
        opt_member_def case_prod_unfold)
qed

lemma verified_bytes:
  assumes "Signing.verify cr vk (JObject m) = Inr ()"
  shows "\<exists>bs s. signing_bytes cr (JObject m) = Inr bs \<and> cr_verify cr vk bs s"
  using assms by (auto simp: verify_def and_then_eq_Inr verify_signature_def ok_or_def split: if_splits option.splits)

text \<open>What a signed object says of a response, up to the order of members of the result.\<close>

definition states_response :: "members \<Rightarrow> CallResponse \<Rightarrow> bool" where
  "states_response m r \<longleftrightarrow> map_of m ''request_id'' = Some (JString (cp_request_id r)) \<and>
     map_of m ''ok'' = Some (JBool (cp_ok r)) \<and>
     map_option norm (map_of m ''result'') = Some (norm (opt_null (\<lambda>v. v) (cp_result r))) \<and>
     map_of m ''error'' = Some (opt_null JString (cp_error r))"

lemma response_bytes_bind:
  assumes "string_token (cr_esc cr)" "json_wf (call_response_to_json r)" "json_wf (JObject m)"
    "signing_bytes cr (call_response_to_json r) = Inr bs" "signing_bytes cr (JObject m) = Inr bs"
  shows "states_response m r"
proof -
  obtain n where n: "call_response_to_json r = JObject n" "map_of n ''request_id'' = Some (JString (cp_request_id r))"
      "map_of n ''ok'' = Some (JBool (cp_ok r))" "map_of n ''result'' = Some (opt_null (\<lambda>v. v) (cp_result r))"
      "map_of n ''error'' = Some (opt_null JString (cp_error r))"
    by (simp add: call_response_to_json_def)
  have wf: "json_wf (JObject n)" using assms(2) n(1) by simp
  have eqn: "norm (JObject (unsigned_members n)) = norm (JObject (unsigned_members m))"
    using signing_bytes_binds [OF assms(1) wf assms(3)] assms(4,5) n(1) by simp
  have "distinct (map fst (unsigned_members n))" "distinct (map fst (unsigned_members m))"
    using unsigned_wf [OF wf] unsigned_wf [OF assms(3)] by simp_all
  note eq = norm_lookup [OF this eqn]
  have e: "map_option norm (map_of n k) = map_option norm (map_of m k)" if "k \<noteq> SIGNATURE_FIELD" for k
    using eq [of k] that by (simp add: map_of_unsigned)
  have "cp_error r = None \<Longrightarrow> norm (opt_null JString (cp_error r)) = opt_null JString (cp_error r)"
    "cp_error r \<noteq> None \<Longrightarrow> norm (opt_null JString (cp_error r)) = opt_null JString (cp_error r)"
    by (auto simp: opt_null_def)
  then have "map_option norm (map_of m ''error'') = Some (opt_null JString (cp_error r))"
    using e [of "''error''"] n(5) by (cases "cp_error r") (simp_all add: SIGNATURE_FIELD_def)
  then show ?thesis
    using e [of "''request_id''"] e [of "''ok''"] e [of "''result''"] n(2-4)
    by (auto simp: states_response_def SIGNATURE_FIELD_def norm_scalar norm_opt_null_iff map_option_eq_Some
        eq_commute [of "Some _"])
qed

subsection \<open>Properties\<close>


text \<open>The response that leaves the executor: the given one, or an error where its bytes do not exist.\<close>

definition sent_response :: "CallResponse \<Rightarrow> CallResponse" where
  "sent_response r = (if no_float (opt_null (\<lambda>v. v) (cp_result r)) then r
     else error_response (cp_request_id r) ''result not canonicalizable'')"

lemma sign_response:
  assumes "cp_signature r = None" "cp_extra r = []" "json_wf (opt_null (\<lambda>v. v) (cp_result r))"
    and "no_float (opt_null (\<lambda>v. v) (cp_result r))"
  shows "\<exists>s. sg_key_id s = key_id \<and>
    sign_into cr sk key_id (call_response_to_json r) = Inr (call_response_to_json (r \<lparr> cp_signature := Some s \<rparr>))"
proof -
  obtain m where m: "call_response_to_json r = JObject m" "unsigned_members m = m" "SIGNATURE_FIELD \<notin> set (map fst m)"
    using assms(1,2) by (simp add: call_response_to_json_def unsigned_members_def SIGNATURE_FIELD_def opt_member_def)
  have "json_wf (JObject m)" "no_float (JObject m)"
    using m(1) assms by (cases "cp_error r"; force simp: call_response_to_json_def opt_member_def opt_null_def)+
  then obtain bs where bs: "signing_bytes cr (JObject m) = Inr bs"
    using signing_bytes_total [of m cr] m(2) by auto
  define s where "s = \<lparr> sg_alg = ALG_ED25519, sg_key_id = key_id, sg_sig = cr_b64_encode cr (cr_sign cr sk bs) \<rparr>"
  have "sign_into cr sk key_id (call_response_to_json r) = Inr (call_response_to_json (r \<lparr> cp_signature := Some s \<rparr>))"
    using bs m assms(1,2)
    by (simp add: sign_into_def sign_def s_def [symmetric])
      (auto simp: call_response_to_json_def opt_member_def SIGNATURE_FIELD_def)
  then show ?thesis by (intro exI [of _ s]) (simp add: s_def)
qed

lemma sign_response_float:
  assumes "cp_signature r = None" "cp_extra r = []" "json_wf (opt_null (\<lambda>v. v) (cp_result r))"
    and "\<not> no_float (opt_null (\<lambda>v. v) (cp_result r))"
  shows "\<exists>e. sign_into cr sk key_id (call_response_to_json r) = Inl (NonCanonical e)"
proof -
  obtain m where m: "call_response_to_json r = JObject m" "unsigned_members m = m"
    using assms(1,2) by (simp add: call_response_to_json_def unsigned_members_def SIGNATURE_FIELD_def opt_member_def)
  have "json_wf (JObject m)" "\<not> no_float (JObject m)"
    using m(1) assms by (cases "cp_error r"; force simp: call_response_to_json_def opt_member_def opt_null_def)+
  then have "\<nexists>bs. signing_bytes cr (JObject m) = Inr bs"
    using signing_bytes_total [of m cr] m(2) by auto
  then show ?thesis
    using m by (cases "to_canonical_bytes (cr_esc cr) (JObject m)")
      (auto simp: sign_into_def sign_def signing_bytes_def map_err_def)
qed

lemma send_raw_ok:
  "send_raw env t c rm = (Inr u, rm') \<Longrightarrow> rm_timeline rm' = rm_timeline rm @ [(t, c)]"
  by (auto simp: send_raw_def split: sum.splits)

lemma emitted_response:
  assumes "cp_signature r = None" "cp_extra r = []" "json_wf (opt_null (\<lambda>v. v) (cp_result r))"
    and "emit_call_response cr env sk key_id r rm = (Inr (), rm')" "signature_laws cr public"
  shows "\<exists>s. sg_key_id s = key_id \<and> rm_timeline rm' = rm_timeline rm @
      [(CALL_RESPONSE, call_response_to_json ((sent_response r) \<lparr> cp_signature := Some s \<rparr>))] \<and>
    Signing.verify cr (public sk) (call_response_to_json ((sent_response r) \<lparr> cp_signature := Some s \<rparr>)) = Inr ()"
proof (cases "no_float (opt_null (\<lambda>v. v) (cp_result r))")
  case True
  then have r: "sent_response r = r" by (simp only: sent_response_def if_True)
  obtain s where s: "sg_key_id s = key_id"
      "sign_into cr sk key_id (call_response_to_json r) = Inr (call_response_to_json (r \<lparr> cp_signature := Some s \<rparr>))"
    using sign_response [OF assms(1-3) True, of key_id cr sk] by (elim exE conjE)
  have "send_raw env CALL_RESPONSE (call_response_to_json (r \<lparr> cp_signature := Some s \<rparr>)) rm = (Inr (), rm')"
    using assms(4) by (simp only: emit_call_response_def s(2) sum.case)
  then show ?thesis
    unfolding r using send_raw_ok s(1) sign_into_verifies [OF assms(5) s(2)] by blast
next
  case False
  define e where "e = error_response (cp_request_id r) ''result not canonicalizable''"
  have r: "sent_response r = e" using False by (simp only: sent_response_def e_def if_False)
  obtain x where x: "sign_into cr sk key_id (call_response_to_json r) = Inl (NonCanonical x)"
    using sign_response_float [OF assms(1-3) False, of cr sk key_id] by (elim exE)
  have "cp_signature e = None" "cp_extra e = []" "cp_result e = None"
    by (simp_all add: e_def error_response_def)
  then obtain s where s: "sg_key_id s = key_id"
      "sign_into cr sk key_id (call_response_to_json e) = Inr (call_response_to_json (e \<lparr> cp_signature := Some s \<rparr>))"
    using sign_response [of e key_id cr sk] by (auto simp: opt_null_def)
  have "send_raw env CALL_RESPONSE (call_response_to_json (e \<lparr> cp_signature := Some s \<rparr>)) rm = (Inr (), rm')"
    using assms(4) by (simp only: emit_call_response_def x e_def [symmetric] s(2) sum.case SignatureError.case)
  then show ?thesis
    unfolding r using send_raw_ok s(1) sign_into_verifies [OF assms(5) s(2)] by blast
qed

lemma matching_sent:
  assumes "fresh_members response_fields (cp_extra r)" "cp_signature r = Some s" "sg_key_id s = ag_signing_key_id a"
    and "Signing.verify (ho_crypto ho) vk (call_response_to_json r) = Inr ()"
    and "ie_event_type ev = CALL_RESPONSE" "ie_sender ev = user" "ie_content ev = call_response_to_json r"
    and "bm_get (cl_rooms cl) (ie_room_id ev) = Some rm" "read_all_agent_states rm = Inr agents"
      "find (\<lambda>a. ag_matrix_user_id a = user) agents = Some a"
      "verifying_key_from_agent_state (ho_codec ho) a = Inr vk" "is_key_trusted (host_trust ho) (ag_signing_key_id a)"
  shows "matching_response ho cl (cp_request_id r) user ev = Some (as_read r)"
proof -
  have read: "call_response_from_json (ie_content ev) = Some (as_read r)"
    using call_response_read [OF assms(1)] assms(7) by simp
  have "verify_result_signature (ho_crypto ho) (ho_codec ho) call_response_to_json (as_read r) a (host_trust ho) = Inr ()"
    unfolding verify_result_ok as_read_json using assms(2-4,11,12) response_key_id by auto
  then have "verify_call_response_signature ho cl ev user = Inr ()"
    by (simp add: verify_call_response_signature_def read assms(8-10) ok_or_def map_err_def del: and_then_eq_Inr)
  then show ?thesis
    unfolding matching_response_ok using assms(5,6) read by (simp add: as_read_def)
qed

lemma as_read_outcome: "response_to_outcome (as_read r) = response_to_outcome r"
  by (simp add: response_to_outcome_def as_read_def unwrap_or_def)

text \<open>C29. Outcomes are delivered. When an agent runs a tool for an authorized call and its response is sent,
  the caller who sees the event, sent from the agent's account with its published and trusted key, stops
  waiting and reports exactly what the tool gave: its error text, or the exit code and summary of its
  result; a result that has no canonical form is reported as such, never sent unsigned. Events before it
  that do not match are passed over.\<close>

theorem call_outcome_delivered:
  assumes "signature_laws (ho_crypto ho) public"
    and "case tool (cq_tool q) (cq_args q) limits of Inl _ \<Rightarrow> True | Inr res \<Rightarrow> json_wf res"
    and "emit_call_response (ho_crypto ho) env sk (ag_signing_key_id a) (execute_authorized_call tool q limits) rm = (Inr (), rm')"
    and "ie_event_type ev = CALL_RESPONSE" "ie_sender ev = user" "ie_content ev = snd (last (rm_timeline rm'))"
    and "bm_get (cl_rooms cl) (ie_room_id ev) = Some crm" "read_all_agent_states crm = Inr agents"
      "find (\<lambda>a. ag_matrix_user_id a = user) agents = Some a"
      "verifying_key_from_agent_state (ho_codec ho) a = Inr (public sk)" "is_key_trusted (host_trust ho) (ag_signing_key_id a)"
    and "list_all (\<lambda>e. matching_response ho cl (cq_request_id q) user e = None) earlier"
  shows "\<exists>r. wait_for_call_response ho (cq_request_id q) user (Inr (cl, earlier @ ev # later) # syncs) = Inr r \<and>
    response_to_outcome r = (case tool (cq_tool q) (cq_args q) limits of
        Inl e \<Rightarrow> CallFailed KRemote e
      | Inr res \<Rightarrow>
          if no_float res
          then CallOk (unwrap_or (Option.bind (json_get res ''exit_code'') as_i32) 0)
            (unwrap_or (Option.bind (json_get res ''summary'') as_string) ''remote call completed'')
          else CallFailed KRemote ''result not canonicalizable'')"
proof -
  define x where "x = execute_authorized_call tool q limits"
  have x: "cp_signature x = None" "cp_extra x = []" "cp_request_id x = cq_request_id q"
      "json_wf (opt_null (\<lambda>v. v) (cp_result x))"
    using assms(2) by (auto simp: x_def execute_authorized_call_def success_response_def error_response_def opt_null_def
        split: sum.splits)
  obtain s where s: "sg_key_id s = ag_signing_key_id a" "rm_timeline rm' = rm_timeline rm @
      [(CALL_RESPONSE, call_response_to_json ((sent_response x) \<lparr> cp_signature := Some s \<rparr>))]"
    "Signing.verify (ho_crypto ho) (public sk) (call_response_to_json ((sent_response x) \<lparr> cp_signature := Some s \<rparr>)) = Inr ()"
    using emitted_response [OF x(1,2,4) assms(3) [folded x_def] assms(1)] by (elim exE conjE)
  define y where "y = (sent_response x) \<lparr> cp_signature := Some s \<rparr>"
  have y: "cp_extra y = []" "cp_signature y = Some s" "cp_request_id y = cq_request_id q"
    using x by (simp_all add: y_def sent_response_def error_response_def)
  have "ie_content ev = call_response_to_json y" using assms(6) s(2) by (simp add: y_def)
  then have "matching_response ho cl (cp_request_id y) user ev = Some (as_read y)"
    using y(1,2) s(1) s(3) [folded y_def] assms(4,5,7-11)
    by (intro matching_sent) (simp_all add: fresh_members_def)
  then have "wait_for_call_response ho (cq_request_id q) user (Inr (cl, earlier @ ev # later) # syncs) = Inr (as_read y)"
    using first_some_append [OF assms(12)] y(3) by simp
  moreover have "response_to_outcome (as_read y) = response_to_outcome (sent_response x)"
    unfolding as_read_outcome by (simp add: y_def response_to_outcome_def)
  moreover have "response_to_outcome (sent_response x) = (case tool (cq_tool q) (cq_args q) limits of
        Inl e \<Rightarrow> CallFailed KRemote e
      | Inr res \<Rightarrow>
          if no_float res
          then CallOk (unwrap_or (Option.bind (json_get res ''exit_code'') as_i32) 0)
            (unwrap_or (Option.bind (json_get res ''summary'') as_string) ''remote call completed'')
          else CallFailed KRemote ''result not canonicalizable'')"
    by (cases "tool (cq_tool q) (cq_args q) limits")
      (simp_all add: x_def execute_authorized_call_def sent_response_def success_response_def
        error_response_def response_to_outcome_def unwrap_or_def opt_null_def)
  ultimately show ?thesis by (intro exI [of _ "as_read y"]) simp
qed

text \<open>For the witnesses: agent b runs the tool and agent a waits for its response.\<close>

definition demo_call :: CallRequest where
  "demo_call = unsigned_call_request (key_id_for_verifying_key live_codec live_key) ''inv_1'' ''req_1'' ''n1'' ''c'' ''e''
     ''lint'' JNull \<lparr> ct_requesting_agent = Some ''a'', ct_target_agent = Some ''b'' \<rparr>"

definition demo_tool :: tool_runner where
  "demo_tool tool_name args limits = Inr (JObject [(''exit_code'', JNum (PosInt 3)), (''summary'', JString ''done'')])"

definition demo_caller :: Client where
  "demo_caller = \<lparr> cl_user_id = Some ''@a:x'', cl_resolve = Inr, cl_rooms = [(''!r:x'', live_room)] \<rparr>"

definition demo_response_event :: "json \<Rightarrow> IncomingEvent" where
  "demo_response_event content = \<lparr> ie_event_type = CALL_RESPONSE, ie_room_id = ''!r:x'', ie_sender = ''@b:x'', ie_event_id = None,
     ie_state_key = None, ie_encrypted = False, ie_content = content \<rparr>"

lemma demo_caller_room:
  "bm_get (cl_rooms demo_caller) ''!r:x'' = Some live_room"
  "read_all_agent_states live_room = Inr [live_agent ''a'' ''@a:x'', live_agent ''b'' ''@b:x'']"
  by (simp_all add: demo_caller_def bm_get_def read_all_agent_states_def live_room_def)

theorem call_outcome_delivered_witness:
  "\<exists>rm' r. emit_call_response demo_crypto demo_hb_env live_key (key_id_for_verifying_key live_codec live_key)
      (execute_authorized_call demo_tool demo_call live_limits) live_room = (Inr (), rm') \<and>
    wait_for_call_response (live_host demo_crypto) ''req_1'' ''@b:x''
      [Inr (demo_caller, [demo_response_event (snd (last (rm_timeline rm')))])] = Inr r \<and>
    response_to_outcome r = CallOk 3 ''done''"
proof -
  let ?b = "live_agent ''b'' ''@b:x''"
  define rm' where "rm' = snd (emit_call_response demo_crypto demo_hb_env live_key (key_id_for_verifying_key live_codec live_key)
      (execute_authorized_call demo_tool demo_call live_limits) live_room)"
  have "fst (emit_call_response demo_crypto demo_hb_env live_key k x rm) = Inr ()" for k x rm
    by (simp add: emit_call_response_def send_raw_def demo_hb_env_def split: sum.split SignatureError.split)
  then have emit: "emit_call_response demo_crypto demo_hb_env live_key (key_id_for_verifying_key live_codec live_key)
      (execute_authorized_call demo_tool demo_call live_limits) live_room = (Inr (), rm')"
    unfolding rm'_def by (metis prod.collapse)
  have r: "cq_request_id demo_call = ''req_1''" by (simp add: demo_call_def unsigned_call_request_def)
  have "\<exists>r. wait_for_call_response (live_host demo_crypto) (cq_request_id demo_call) ''@b:x''
      (Inr (demo_caller, [] @ demo_response_event (snd (last (rm_timeline rm'))) # []) # []) = Inr r \<and>
    response_to_outcome r = (case demo_tool (cq_tool demo_call) (cq_args demo_call) live_limits of
        Inl e \<Rightarrow> CallFailed KRemote e
      | Inr res \<Rightarrow>
          if no_float res
          then CallOk (unwrap_or (Option.bind (json_get res ''exit_code'') as_i32) 0)
            (unwrap_or (Option.bind (json_get res ''summary'') as_string) ''remote call completed'')
          else CallFailed KRemote ''result not canonicalizable'')"
    by (rule call_outcome_delivered [where ho = "live_host demo_crypto" and tool = demo_tool and q = demo_call and limits = live_limits and public = "\<lambda>sk. sk" and a = ?b
          and sk = live_key and env = demo_hb_env and rm = live_room and rm' = rm' and crm = live_room and agents = "[live_agent ''a'' ''@a:x'', ?b]"])
      (simp_all add: demo_crypto_laws emit demo_caller_room live_verifying_key live_trusted demo_response_event_def demo_tool_def)
  then show ?thesis
    using emit r by (auto simp: demo_tool_def json_get_def unwrap_or_def)
qed

text \<open>A verifier that accepts the bytes of one response.\<close>

definition demo_answer :: CallResponse where
  "demo_answer = (success_response ''req_1'' (JString ''ok'')) \<lparr> cp_signature := Some \<lparr> sg_alg = ALG_ED25519,
     sg_key_id = key_id_for_verifying_key live_codec live_key, sg_sig = [] \<rparr> \<rparr>"

definition answer_ideal :: "(string, string) crypto" where
  "answer_ideal = demo_crypto \<lparr> cr_verify := (\<lambda>vk bs s. signing_bytes demo_crypto (call_response_to_json demo_answer) = Inr bs) \<rparr>"

lemma answer_ideal_bytes: "signing_bytes answer_ideal v = signing_bytes demo_crypto v"
  by (cases v) (simp_all add: signing_bytes_def answer_ideal_def)


end
