(* ===== verification/Live_Handlers.thy ===== *)
theory Live_Handlers
  imports Call_Auth Audit_Log Replay_Cache Invocation
begin

text \<open>
  What the daemon does with a routed event: \<open>handle_routed_events\<close> of
  \<open>crates/mx-agent-daemon/src/sync.rs\<close> and the live handlers of \<open>exec.rs\<close>, \<open>call.rs\<close> and
  \<open>approval.rs\<close>, the sweep of expired holds of \<open>scheduler_loop.rs\<close> included. The state of the daemon is the
  record \<open>Daemon\<close>: the rooms, the file of the approval queue, the audit log, the controls of running
  commands, the counts of running invocations, the replay cache of the router, and the trace \<open>dm_effects\<close> of
  what was handed to child processes and tools. What it finds around it when an event is handled is the
  record \<open>Site\<close>.
\<close>

text \<open>\<open>Spawned\<close> is the hand-over to the task that runs the command; the frames are what is passed to the
  channels of a running command.\<close>

datatype Effect =
    Spawned string ExecRequest Allowance
  | RanTool string CallRequest Allowance
  | StdinData string string
  | StdinEof string
  | CancelSent string string
  | Resized string nat nat nat nat

record LiveExecControl =
  lx_requester_agent :: string
  lx_resize :: bool
  lx_seen_control_nonces :: "string list"

record Daemon =
  dm_client :: Client
  dm_queue :: queue_file
  dm_audit :: "string \<Rightarrow> string list"
  dm_controls :: "LiveExecControl bmap"
  dm_inflight :: inflight
  dm_router :: "(ReplayCache \<times> ReplayStore) option"
  dm_effects :: "Effect list"

record ('sk, 'vk) Site =
  si_host :: "('sk, 'vk) Host"
  si_print :: "json \<Rightarrow> string"
  si_read :: "string \<Rightarrow> json option"
  si_queue_write :: "io_error option"
  si_vars :: "string \<Rightarrow> string option"
  si_data_dir :: string
  si_audit_write :: "io_kind option"
  si_cache_print :: "StoredCache \<Rightarrow> string"
  si_cache_write :: "io_kind option"
  si_tool :: tool_runner

definition si_env :: "('sk, 'vk) Site \<Rightarrow> Env" where
  "si_env si = ho_env (si_host si)"

definition now_unix :: "('sk, 'vk) Site \<Rightarrow> int" where
  "now_unix si = sint (en_now (si_env si))"

subsection \<open>State updates\<close>

text \<open>An operation on the room of an event. Failures are logged only.\<close>

definition on_room :: "string \<Rightarrow> (Room \<Rightarrow> 'a \<times> Room) \<Rightarrow> Daemon \<Rightarrow> Daemon" where
  "on_room room_id f dm = (case bm_get (cl_rooms (dm_client dm)) room_id of
       None \<Rightarrow> dm
     | Some rm \<Rightarrow> dm \<lparr> dm_client := put_room room_id (snd (f rm)) (dm_client dm) \<rparr>)"

definition audited :: "('sk, 'vk) Site \<Rightarrow> AuditRecord \<Rightarrow> Daemon \<Rightarrow> Daemon" where
  "audited si r dm = dm \<lparr> dm_audit := append_audit (si_print si) (si_vars si) (si_data_dir si) (si_audit_write si) r (dm_audit dm) \<rparr>"

definition effect :: "Effect \<Rightarrow> Daemon \<Rightarrow> Daemon" where
  "effect x dm = dm \<lparr> dm_effects := dm_effects dm @ [x] \<rparr>"

text \<open>\<open>ApprovalQueue::load(paths).unwrap_or_default()\<close>, an update and a save whose failure is logged only.\<close>

definition queue_or_default :: "('sk, 'vk) Site \<Rightarrow> queue_file \<Rightarrow> ApprovalQueue" where
  "queue_or_default si file = (case queue_load (si_read si) file of Inr q \<Rightarrow> q | Inl _ \<Rightarrow> [])"

definition queue_update :: "('sk, 'vk) Site \<Rightarrow> (ApprovalQueue \<Rightarrow> ApprovalQueue) \<Rightarrow> Daemon \<Rightarrow> Daemon" where
  "queue_update si f dm = dm \<lparr> dm_queue :=
     snd (queue_save (si_print si) (si_queue_write si) (f (queue_or_default si (dm_queue dm))) (dm_queue dm)) \<rparr>"

definition insert_live_exec_control :: "string \<Rightarrow> LiveExecControl \<Rightarrow> Daemon \<Rightarrow> Daemon" where
  "insert_live_exec_control invocation_id control dm = dm \<lparr> dm_controls := bm_insert invocation_id control (dm_controls dm) \<rparr>"

definition remove_live_exec_control :: "string \<Rightarrow> Daemon \<Rightarrow> Daemon" where
  "remove_live_exec_control invocation_id dm = dm \<lparr> dm_controls := bm_remove invocation_id (dm_controls dm) \<rparr>"

definition live_exec_control :: "Daemon \<Rightarrow> string \<Rightarrow> LiveExecControl option" where
  "live_exec_control dm invocation_id = bm_get (dm_controls dm) invocation_id"

subsection \<open>Exec\<close>

definition audit_exec_decision :: "('sk, 'vk) Site \<Rightarrow> string \<Rightarrow> ExecRequest \<Rightarrow> Outcome \<Rightarrow> Daemon \<Rightarrow> Daemon" where
  "audit_exec_decision si room_id request outcome = audited si (for_exec (now_rfc3339 (si_env si)) room_id
     (xr_requesting_agent request) (xr_target_agent request) (Some (xr_invocation_id request)) (xr_command request) outcome)"

definition audit_exec_rejection :: "('sk, 'vk) Site \<Rightarrow> string \<Rightarrow> ExecRequest \<Rightarrow> ExecRejection \<Rightarrow> Daemon \<Rightarrow> Daemon" where
  "audit_exec_rejection si room_id request rejection = audited si (for_exec_denied (now_rfc3339 (si_env si)) room_id
     (xr_requesting_agent request) (xr_target_agent request) (Some (xr_invocation_id request)) (xr_command request)
     (exec_rejection_reason rejection))"

definition audit_exec_held :: "('sk, 'vk) Site \<Rightarrow> string \<Rightarrow> ExecRequest \<Rightarrow> Allowance \<Rightarrow> Daemon \<Rightarrow> Daemon" where
  "audit_exec_held si room_id request limits = audited si (for_exec_held (now_rfc3339 (si_env si)) room_id
     (xr_requesting_agent request) (xr_target_agent request) (Some (xr_invocation_id request)) (xr_command request) (Allow limits))"

definition audit_exec_released :: "('sk, 'vk) Site \<Rightarrow> string \<Rightarrow> ExecRequest \<Rightarrow> Allowance \<Rightarrow> Daemon \<Rightarrow> Daemon" where
  "audit_exec_released si room_id request limits = audited si (for_exec_released (now_rfc3339 (si_env si)) room_id
     (xr_requesting_agent request) (xr_target_agent request) (Some (xr_invocation_id request)) (xr_command request) (Allow limits))"

definition audit_exec_expired :: "('sk, 'vk) Site \<Rightarrow> string \<Rightarrow> ExecRequest \<Rightarrow> Daemon \<Rightarrow> Daemon" where
  "audit_exec_expired si room_id request = audited si (for_exec_expired (now_rfc3339 (si_env si)) room_id
     (xr_requesting_agent request) (xr_target_agent request) (Some (xr_invocation_id request)) (xr_command request))"

text \<open>The part of the two release paths that they share: what is audited of a rejection.\<close>

fun audit_rejected_exec :: "('sk, 'vk) Site \<Rightarrow> string \<Rightarrow> ExecRequest \<Rightarrow> ExecRejection \<Rightarrow> Daemon \<Rightarrow> Daemon" where
  "audit_rejected_exec si room_id request (XPolicyDenied reason) = audit_exec_decision si room_id request (Deny reason)"
| "audit_rejected_exec si room_id request XUnverifiedDevice = audit_exec_rejection si room_id request XUnverifiedDevice"
| "audit_rejected_exec si room_id request XSandboxRequired = audit_exec_rejection si room_id request XSandboxRequired"
| "audit_rejected_exec si room_id request (XEnvOverrideNotAllowed v) =
     audit_exec_rejection si room_id request (XEnvOverrideNotAllowed v)"
| "audit_rejected_exec si room_id request _ = id"

definition reject_exec ::
  "('sk, 'vk) Site \<Rightarrow> 'sk \<times> string \<Rightarrow> string \<Rightarrow> string \<Rightarrow> ExecRejection \<Rightarrow> Daemon \<Rightarrow> Daemon" where
  "reject_exec si key room_id invocation_id rejection = on_room room_id
     (emit_exec_rejected (ho_crypto (si_host si)) (si_env si) (fst key) (snd key) invocation_id rejection)"

definition accept_exec :: "('sk, 'vk) Site \<Rightarrow> 'sk \<times> string \<Rightarrow> string \<Rightarrow> string \<Rightarrow> Daemon \<Rightarrow> Daemon" where
  "accept_exec si key room_id invocation_id = on_room room_id
     (emit_exec_accepted (ho_crypto (si_host si)) (si_env si) (fst key) (snd key) invocation_id)"

text \<open>The record published when the command starts to run.\<close>

definition running_state :: "ExecRequest \<Rightarrow> string \<Rightarrow> InvocationState" where
  "running_state request now = (let state = invocation_state_for request now
     in state \<lparr> iv_state := INV_RUNNING, iv_updated_at := now, iv_state_rev := sat_add (iv_state_rev state) 1 \<rparr>)"

text \<open>\<open>spawn_authorized_live_exec\<close> up to the start of the task, which counts the invocation.\<close>

definition spawn_authorized_live_exec ::
  "('sk, 'vk) Site \<Rightarrow> string \<Rightarrow> ExecRequest \<Rightarrow> Allowance \<Rightarrow> 'sk \<times> string \<Rightarrow> Daemon \<Rightarrow> Daemon" where
  "spawn_authorized_live_exec si room_id request limits key dm =
     (let now = now_rfc3339 (si_env si);
          dm = accept_exec si key room_id (xr_invocation_id request) dm;
          dm = on_room room_id (publish_invocation_state (si_env si) (invocation_state_for request now)) dm;
          dm = on_room room_id (publish_invocation_state (si_env si) (running_state request now)) dm;
          dm = insert_live_exec_control (xr_invocation_id request)
                 \<lparr> lx_requester_agent = xr_requesting_agent request, lx_resize = xr_pty request,
                   lx_seen_control_nonces = [] \<rparr> dm;
          dm = dm \<lparr> dm_inflight := inflight_enter (xr_target_agent request) (dm_inflight dm) \<rparr>
      in effect (Spawned room_id request limits) dm)"

definition is_local_target :: "Daemon \<Rightarrow> Room \<Rightarrow> string \<Rightarrow> bool" where
  "is_local_target dm rm target_agent = (case read_agent_state rm target_agent of
       Inr (Some agent) \<Rightarrow> ag_matrix_user_id agent = user_id_or_empty (dm_client dm)
     | _ \<Rightarrow> False)"

definition hold_exec ::
  "('sk, 'vk) Site \<Rightarrow> EventMeta \<Rightarrow> ExecRequest \<Rightarrow> Allowance \<Rightarrow> ApprovalRequest \<Rightarrow> Daemon \<Rightarrow> Daemon" where
  "hold_exec si meta request limits approval dm =
     (let dm = audit_exec_held si (em_room_id meta) request limits dm;
          dm = queue_update si (enqueue \<lparr> pa_room_id = em_room_id meta, pa_request = approval,
                 pa_held_request = Some (HeldExec request), pa_requester_user = Some (em_sender meta) \<rparr>) dm
      in on_room (em_room_id meta) (emit_approval_request (si_env si) approval) dm)"

definition handle_live_exec_request ::
  "('sk, 'vk) Site \<Rightarrow> EventMeta \<Rightarrow> ExecRequest \<Rightarrow> Daemon \<Rightarrow> Daemon" where
  "handle_live_exec_request si meta request dm = (case bm_get (cl_rooms (dm_client dm)) (em_room_id meta) of
       None \<Rightarrow> dm
     | Some rm \<Rightarrow>
        if \<not> is_local_target dm rm (xr_target_agent request) then dm
        else case ho_key (si_host si) of
          Inl _ \<Rightarrow> dm
        | Inr key \<Rightarrow>
           if xr_idempotency_key request \<noteq> ''exec:'' @ xr_invocation_id request
           then reject_exec si key (em_room_id meta) (xr_invocation_id request) XMalformed dm
           else case authorize_live_exec (si_host si) rm (exec_request_to_json request) request (em_room_id meta)
                       (Some (em_sender meta)) of
             Inl rejection \<Rightarrow> reject_exec si key (em_room_id meta) (xr_invocation_id request) rejection
                 (audit_rejected_exec si (em_room_id meta) request rejection dm)
           | Inr (request, limits) \<Rightarrow>
              if live_exec_control dm (xr_invocation_id request) \<noteq> None
              then accept_exec si key (em_room_id meta) (xr_invocation_id request) dm
              else case disposition_for_exec request limits of
                RequiresApproval _ approval \<Rightarrow> hold_exec si meta request limits approval dm
              | Execute _ \<Rightarrow> spawn_authorized_live_exec si (em_room_id meta) request limits key
                  (audit_exec_decision si (em_room_id meta) request (Allow limits) dm))"

definition release_held_exec ::
  "('sk, 'vk) Site \<Rightarrow> Room \<Rightarrow> string \<Rightarrow> ExecRequest \<Rightarrow> string option \<Rightarrow> Daemon \<Rightarrow> Daemon" where
  "release_held_exec si rm room_id request authenticated_sender dm = (case ho_key (si_host si) of
       Inl _ \<Rightarrow> dm
     | Inr key \<Rightarrow>
        (case authorize_live_exec (si_host si) rm (exec_request_to_json request) request room_id authenticated_sender of
           Inr (request, limits) \<Rightarrow> spawn_authorized_live_exec si room_id request limits key
             (audit_exec_released si room_id request limits dm)
         | Inl rejection \<Rightarrow> reject_exec si key room_id (xr_invocation_id request) rejection
             (audit_rejected_exec si room_id request rejection dm)))"

text \<open>\<open>load_result_signing_key\<close>: nothing is sent without a key.\<close>

definition reject_held_exec :: "('sk, 'vk) Site \<Rightarrow> string \<Rightarrow> ExecRequest \<Rightarrow> ExecRejection \<Rightarrow> Daemon \<Rightarrow> Daemon" where
  "reject_held_exec si room_id request rejection dm = (case ho_key (si_host si) of
       Inl _ \<Rightarrow> dm
     | Inr key \<Rightarrow> reject_exec si key room_id (xr_invocation_id request) rejection dm)"

definition deny_held_exec :: "('sk, 'vk) Site \<Rightarrow> string \<Rightarrow> ExecRequest \<Rightarrow> Daemon \<Rightarrow> Daemon" where
  "deny_held_exec si room_id request dm =
     reject_held_exec si room_id request XApprovalDenied (audit_exec_rejection si room_id request XApprovalDenied dm)"

definition expire_held_exec :: "('sk, 'vk) Site \<Rightarrow> string \<Rightarrow> ExecRequest \<Rightarrow> Daemon \<Rightarrow> Daemon" where
  "expire_held_exec si room_id request dm =
     reject_held_exec si room_id request XApprovalExpired (audit_exec_expired si room_id request dm)"

subsection \<open>Controls of a running command\<close>

definition exec_stdin_to_json :: "ExecStdin \<Rightarrow> json" where
  "exec_stdin_to_json s = JObject ([(''invocation_id'', JString (xs_invocation_id s)), (''data'', JString (xs_data s)),
     (''eof'', JBool (xs_eof s)), (''created_at'', JString (xs_created_at s)), (''nonce'', JString (xs_nonce s)),
     (''signature'', signature_to_json (xs_signature s))] @ xs_extra s)"

definition exec_cancel_to_json :: "ExecCancel \<Rightarrow> json" where
  "exec_cancel_to_json c = JObject ([(''invocation_id'', JString (xc_invocation_id c)), (''reason'', JString (xc_reason c)),
     (''created_at'', JString (xc_created_at c)), (''nonce'', JString (xc_nonce c)),
     (''signature'', signature_to_json (xc_signature c))] @ xc_extra c)"

definition pty_resize_to_json :: "PtyResize \<Rightarrow> json" where
  "pty_resize_to_json z = JObject ([(''invocation_id'', JString (pz_invocation_id z)),
     (''rows'', JNum (PosInt (of_nat (pz_rows z)))), (''cols'', JNum (PosInt (of_nat (pz_cols z)))),
     (''pixel_width'', JNum (PosInt (of_nat (pz_pixel_width z)))),
     (''pixel_height'', JNum (PosInt (of_nat (pz_pixel_height z)))),
     (''created_at'', JString (pz_created_at z)), (''nonce'', JString (pz_nonce z)),
     (''signature'', signature_to_json (pz_signature z))] @ pz_extra z)"

text \<open>The set of nonces is shared by all copies of a control, so it is the one in the table.\<close>

definition admit_control_nonce :: "string \<Rightarrow> LiveExecControl \<Rightarrow> string \<Rightarrow> Daemon \<Rightarrow> bool \<times> Daemon" where
  "admit_control_nonce invocation_id control nonce dm =
     (if nonce \<in> set (lx_seen_control_nonces control) then (False, dm)
      else (True, insert_live_exec_control invocation_id
              (control \<lparr> lx_seen_control_nonces := nonce # lx_seen_control_nonces control \<rparr>) dm))"

text \<open>What the three handlers share: the control of a running command, the authorization of the frame
  and its nonce; \<open>apply_frame\<close> is what follows.\<close>

definition control_frame ::
  "('sk, 'vk) Site \<Rightarrow> Room \<Rightarrow> json \<Rightarrow> string \<Rightarrow> string \<Rightarrow> string \<Rightarrow> (LiveExecControl \<Rightarrow> Daemon \<Rightarrow> Daemon) \<Rightarrow> Daemon \<Rightarrow> Daemon" where
  "control_frame si rm content invocation_id key_id nonce apply_frame dm = (case live_exec_control dm invocation_id of
       None \<Rightarrow> dm
     | Some control \<Rightarrow>
        if authorize_live_control (si_host si) rm content key_id (lx_requester_agent control) \<noteq> Inr () then dm
        else case admit_control_nonce invocation_id control nonce dm of
          (False, dm) \<Rightarrow> dm
        | (True, dm) \<Rightarrow> apply_frame control dm)"

definition handle_live_exec_stdin :: "('sk, 'vk) Site \<Rightarrow> Room \<Rightarrow> json \<Rightarrow> ExecStdin \<Rightarrow> Daemon \<Rightarrow> Daemon" where
  "handle_live_exec_stdin si rm content stdin =
     control_frame si rm content (xs_invocation_id stdin) (sg_key_id (xs_signature stdin)) (xs_nonce stdin) (\<lambda>control dm.
       case cr_b64_decode (ho_crypto (si_host si)) (xs_data stdin) of
         None \<Rightarrow> dm
       | Some data \<Rightarrow>
          (let dm = (if data \<noteq> [] then effect (StdinData (xs_invocation_id stdin) data) dm else dm)
           in if xs_eof stdin then effect (StdinEof (xs_invocation_id stdin)) dm else dm))"

definition handle_live_exec_cancel :: "('sk, 'vk) Site \<Rightarrow> Room \<Rightarrow> json \<Rightarrow> ExecCancel \<Rightarrow> Daemon \<Rightarrow> Daemon" where
  "handle_live_exec_cancel si rm content cancel =
     control_frame si rm content (xc_invocation_id cancel) (sg_key_id (xc_signature cancel)) (xc_nonce cancel) (\<lambda>control.
       effect (CancelSent (xc_invocation_id cancel) (xc_reason cancel)))"

definition handle_live_pty_resize :: "('sk, 'vk) Site \<Rightarrow> Room \<Rightarrow> json \<Rightarrow> PtyResize \<Rightarrow> Daemon \<Rightarrow> Daemon" where
  "handle_live_pty_resize si rm content resize =
     control_frame si rm content (pz_invocation_id resize) (sg_key_id (pz_signature resize)) (pz_nonce resize) (\<lambda>control dm.
       if lx_resize control then effect (Resized (pz_invocation_id resize) (pz_rows resize) (pz_cols resize)
         (pz_pixel_width resize) (pz_pixel_height resize)) dm
       else dm)"

subsection \<open>Calls\<close>

definition audit_call_decision ::
  "('sk, 'vk) Site \<Rightarrow> string \<Rightarrow> CallRequest \<Rightarrow> string \<Rightarrow> string \<Rightarrow> Outcome \<Rightarrow> Daemon \<Rightarrow> Daemon" where
  "audit_call_decision si room_id request requester target outcome = audited si (for_call (now_rfc3339 (si_env si)) room_id
     requester target (Some (cq_invocation_id request)) (cq_tool request) outcome)"

definition audit_call_held ::
  "('sk, 'vk) Site \<Rightarrow> string \<Rightarrow> CallRequest \<Rightarrow> string \<Rightarrow> string \<Rightarrow> Allowance \<Rightarrow> Daemon \<Rightarrow> Daemon" where
  "audit_call_held si room_id request requester target limits = audited si (for_call_held (now_rfc3339 (si_env si)) room_id
     requester target (Some (cq_invocation_id request)) (cq_tool request) (Allow limits))"

definition audit_call_released ::
  "('sk, 'vk) Site \<Rightarrow> string \<Rightarrow> CallRequest \<Rightarrow> string \<Rightarrow> string \<Rightarrow> Allowance \<Rightarrow> Daemon \<Rightarrow> Daemon" where
  "audit_call_released si room_id request requester target limits = audited si (for_call_released (now_rfc3339 (si_env si))
     room_id requester target (Some (cq_invocation_id request)) (cq_tool request) (Allow limits))"

definition audit_call_expired :: "('sk, 'vk) Site \<Rightarrow> string \<Rightarrow> CallRequest \<Rightarrow> Daemon \<Rightarrow> Daemon" where
  "audit_call_expired si room_id request = audited si (for_call_expired (now_rfc3339 (si_env si)) room_id
     (unwrap_or (cq_requesting_agent request) []) (unwrap_or (cq_target_agent request) [])
     (Some (cq_invocation_id request)) (cq_tool request))"

fun call_rejection_audit_record ::
  "string \<Rightarrow> string \<Rightarrow> CallRequest \<Rightarrow> string \<Rightarrow> string \<Rightarrow> CallRejection \<Rightarrow> AuditRecord option" where
  "call_rejection_audit_record ts room_id request requester target (CPolicyDenied reason) =
     Some (for_call ts room_id requester target (Some (cq_invocation_id request)) (cq_tool request) (Deny reason))"
| "call_rejection_audit_record ts room_id request requester target CUnverifiedDevice =
     Some (for_call_denied ts room_id requester target (Some (cq_invocation_id request)) (cq_tool request)
       (call_rejection_reason CUnverifiedDevice))"
| "call_rejection_audit_record ts room_id request requester target _ = None"

definition audit_rejected_call ::
  "('sk, 'vk) Site \<Rightarrow> string \<Rightarrow> CallRequest \<Rightarrow> string \<Rightarrow> string \<Rightarrow> CallRejection \<Rightarrow> Daemon \<Rightarrow> Daemon" where
  "audit_rejected_call si room_id request requester target rejection =
     (case call_rejection_audit_record (now_rfc3339 (si_env si)) room_id request requester target rejection of
        Some r \<Rightarrow> audited si r
      | None \<Rightarrow> id)"

definition respond :: "('sk, 'vk) Site \<Rightarrow> 'sk \<times> string \<Rightarrow> string \<Rightarrow> CallResponse \<Rightarrow> Daemon \<Rightarrow> Daemon" where
  "respond si key room_id response = on_room room_id
     (emit_call_response (ho_crypto (si_host si)) (si_env si) (fst key) (snd key) response)"

definition enqueue_call_approval ::
  "('sk, 'vk) Site \<Rightarrow> string \<Rightarrow> CallRequest \<Rightarrow> ApprovalRequest \<Rightarrow> string \<Rightarrow> Daemon \<Rightarrow> Daemon" where
  "enqueue_call_approval si room_id request approval requester_user = queue_update si (enqueue \<lparr> pa_room_id = room_id,
     pa_request = approval, pa_held_request = Some (HeldCall request), pa_requester_user = Some requester_user \<rparr>)"

definition hold_call_for_approval ::
  "('sk, 'vk) Site \<Rightarrow> string \<Rightarrow> CallRequest \<Rightarrow> ApprovalRequest \<Rightarrow> string \<Rightarrow> Daemon \<Rightarrow> Daemon" where
  "hold_call_for_approval si room_id request approval requester_user dm =
     on_room room_id (emit_approval_request (si_env si) approval)
       (enqueue_call_approval si room_id request approval requester_user dm)"

definition execute_and_respond_call ::
  "('sk, 'vk) Site \<Rightarrow> 'sk \<times> string \<Rightarrow> string \<Rightarrow> CallRequest \<Rightarrow> Allowance \<Rightarrow> Daemon \<Rightarrow> Daemon" where
  "execute_and_respond_call si key room_id request limits dm =
     respond si key room_id (execute_authorized_call (si_tool si) request limits)
       (effect (RanTool room_id request limits) dm)"

text \<open>The in-flight guard lives until the handler returns: the count goes up for the run and down again.\<close>

definition handle_live_call_request ::
  "('sk, 'vk) Site \<Rightarrow> EventMeta \<Rightarrow> CallRequest \<Rightarrow> Daemon \<Rightarrow> Daemon" where
  "handle_live_call_request si meta request dm = (case (cq_target_agent request, cq_requesting_agent request,
         bm_get (cl_rooms (dm_client dm)) (em_room_id meta)) of
       (Some target_agent, Some requesting_agent, Some rm) \<Rightarrow>
         if \<not> is_local_target dm rm target_agent then dm
         else (case ho_key (si_host si) of
           Inl _ \<Rightarrow> dm
         | Inr key \<Rightarrow>
            (case authorize_live_call (si_host si) rm (call_request_to_json request) request requesting_agent
                    (em_room_id meta) (Some (em_sender meta)) of
               Inr (authorized, limits) \<Rightarrow>
                 (case disposition_for_call authorized limits of
                    CallRequiresApproval _ approval \<Rightarrow>
                      hold_call_for_approval si (em_room_id meta) authorized approval (em_sender meta)
                        (audit_call_held si (em_room_id meta) authorized requesting_agent target_agent limits dm)
                  | CallExecute _ \<Rightarrow>
                     (let dm = dm \<lparr> dm_inflight := inflight_enter target_agent (dm_inflight dm) \<rparr>;
                          dm = audit_call_decision si (em_room_id meta) authorized requesting_agent target_agent (Allow limits) dm;
                          dm = execute_and_respond_call si key (em_room_id meta) authorized limits dm
                      in dm \<lparr> dm_inflight := inflight_drop target_agent (dm_inflight dm) \<rparr>))
             | Inl rejection \<Rightarrow>
                respond si key (em_room_id meta) (rejection_response (cq_request_id request) rejection)
                  (audit_rejected_call si (em_room_id meta) request requesting_agent target_agent rejection dm)))
     | _ \<Rightarrow> dm)"

definition release_held_call ::
  "('sk, 'vk) Site \<Rightarrow> Room \<Rightarrow> string \<Rightarrow> CallRequest \<Rightarrow> string option \<Rightarrow> Daemon \<Rightarrow> Daemon" where
  "release_held_call si rm room_id request authenticated_sender dm =
     (let requesting_agent = unwrap_or (cq_requesting_agent request) [];
          target_agent = unwrap_or (cq_target_agent request) []
      in case ho_key (si_host si) of
           Inl _ \<Rightarrow> dm
         | Inr key \<Rightarrow>
            (case authorize_live_call (si_host si) rm (call_request_to_json request) request requesting_agent room_id
                    authenticated_sender of
               Inr (authorized, limits) \<Rightarrow> execute_and_respond_call si key room_id authorized limits
                 (audit_call_released si room_id authorized requesting_agent target_agent limits dm)
             | Inl rejection \<Rightarrow> respond si key room_id (rejection_response (cq_request_id request) rejection)
                 (audit_rejected_call si room_id request requesting_agent target_agent rejection dm)))"

definition respond_held_call :: "('sk, 'vk) Site \<Rightarrow> string \<Rightarrow> CallRequest \<Rightarrow> CallRejection \<Rightarrow> Daemon \<Rightarrow> Daemon" where
  "respond_held_call si room_id request rejection dm = (case ho_key (si_host si) of
       Inl _ \<Rightarrow> dm
     | Inr key \<Rightarrow> respond si key room_id (rejection_response (cq_request_id request) rejection) dm)"

definition deny_held_call :: "('sk, 'vk) Site \<Rightarrow> string \<Rightarrow> CallRequest \<Rightarrow> Daemon \<Rightarrow> Daemon" where
  "deny_held_call si room_id request dm = respond_held_call si room_id request CApprovalDenied
     (audited si (for_call_denied (now_rfc3339 (si_env si)) room_id (unwrap_or (cq_requesting_agent request) [])
        (unwrap_or (cq_target_agent request) []) (Some (cq_invocation_id request)) (cq_tool request)
        (call_rejection_reason CApprovalDenied)) dm)"

definition expire_held_call :: "('sk, 'vk) Site \<Rightarrow> string \<Rightarrow> CallRequest \<Rightarrow> Daemon \<Rightarrow> Daemon" where
  "expire_held_call si room_id request dm =
     respond_held_call si room_id request CApprovalExpired (audit_call_expired si room_id request dm)"

subsection \<open>Approval decisions\<close>

definition burn_decision_nonce :: "('sk, 'vk) Site \<Rightarrow> ApprovalDecision \<Rightarrow> Daemon \<Rightarrow> bool \<times> Daemon" where
  "burn_decision_nonce si decision dm = (case (dc_nonce decision, dc_expires_at decision) of
       (Some nonce, Some expires_at) \<Rightarrow>
         (case dm_router dm of
            Some router \<Rightarrow>
              (case admit_decision_nonce (si_cache_print si) (si_cache_write si) (now_unix si) nonce expires_at router of
                 (fresh, router) \<Rightarrow> (fresh, dm \<lparr> dm_router := Some router \<rparr>))
          | None \<Rightarrow> (True, dm))
     | _ \<Rightarrow> (False, dm))"

text \<open>The keys published in the room, by key id; a later agent with the same key id wins.\<close>

definition published_keys :: "'vk key_codec \<Rightarrow> AgentState list \<Rightarrow> 'vk bmap" where
  "published_keys kc agents = fold (\<lambda>agent keys.
     if ag_signing_key_id agent = [] then keys
     else case verifying_key_from_agent_state kc agent of
       Inr key \<Rightarrow> bm_insert (ag_signing_key_id agent) key keys
     | Inl _ \<Rightarrow> keys) agents []"

definition room_approvers :: "Policy \<Rightarrow> string \<Rightarrow> string list" where
  "room_approvers policy room_id = (case bm_get (rooms policy) room_id of Some r \<Rightarrow> rp_approvers r | None \<Rightarrow> [])"

definition decision_context :: "('sk, 'vk) Site \<Rightarrow> Daemon \<Rightarrow> AgentState list \<Rightarrow> string \<Rightarrow> 'vk DecisionVerification" where
  "decision_context si dm agents room_id = \<lparr> dv_local_user = user_id_or_empty (dm_client dm),
     dv_approvers = room_approvers (host_policy (si_host si)) room_id,
     dv_verifying_keys = published_keys (ho_codec (si_host si)) agents,
     dv_trust = host_trust (si_host si), dv_now_unix = now_unix si \<rparr>"

fun deny_held :: "('sk, 'vk) Site \<Rightarrow> string \<Rightarrow> HeldRequest \<Rightarrow> Daemon \<Rightarrow> Daemon" where
  "deny_held si room_id (HeldExec request) = deny_held_exec si room_id request"
| "deny_held si room_id (HeldCall request) = deny_held_call si room_id request"

fun release_held :: "('sk, 'vk) Site \<Rightarrow> Room \<Rightarrow> string \<Rightarrow> HeldRequest \<Rightarrow> string option \<Rightarrow> Daemon \<Rightarrow> Daemon" where
  "release_held si rm room_id (HeldExec request) sender = release_held_exec si rm room_id request sender"
| "release_held si rm room_id (HeldCall request) sender = release_held_call si rm room_id request sender"

definition handle_live_approval_decision ::
  "('sk, 'vk) Site \<Rightarrow> EventMeta \<Rightarrow> ApprovalDecision \<Rightarrow> Daemon \<Rightarrow> Daemon" where
  "handle_live_approval_decision si meta decision dm = (case queue_load (si_read si) (dm_queue dm) of
       Inl _ \<Rightarrow> dm
     | Inr queue \<Rightarrow>
        (case queue_get queue (dc_request_id decision) of
           None \<Rightarrow> dm
         | Some pending \<Rightarrow>
            (case pa_held_request pending of
               None \<Rightarrow> dm
             | Some held \<Rightarrow>
                (case bm_get (cl_rooms (dm_client dm)) (em_room_id meta) of
                   None \<Rightarrow> dm
                 | Some rm \<Rightarrow>
                    (case read_all_agent_states rm of
                       Inl _ \<Rightarrow> dm
                     | Inr agents \<Rightarrow>
                        if verification_failure (ho_crypto (si_host si)) decision (em_sender meta)
                             (decision_context si dm agents (em_room_id meta)) \<noteq> None then dm
                        else (case burn_decision_nonce si decision dm of
                          (False, dm) \<Rightarrow> dm
                        | (True, dm) \<Rightarrow>
                           (let dm = queue_update si (\<lambda>q. snd (queue_remove (dc_request_id decision) q)) dm
                            in if \<not> decision_permits_spawn decision then deny_held si (em_room_id meta) held dm
                               else release_held si rm (em_room_id meta) held (pa_requester_user pending) dm)))))))"

subsection \<open>Expired holds\<close>

definition expired_live_holds_in_room :: "ApprovalQueue \<Rightarrow> string \<Rightarrow> int \<Rightarrow> PendingApproval list" where
  "expired_live_holds_in_room queue room_id now =
     filter (\<lambda>p. pa_held_request p \<noteq> None \<and> approval_request_expired (aq_expires_at (pa_request p)) now)
       (pending_in_room queue room_id)"

fun expire_held :: "('sk, 'vk) Site \<Rightarrow> string \<Rightarrow> HeldRequest \<Rightarrow> Daemon \<Rightarrow> Daemon" where
  "expire_held si room_id (HeldExec request) = expire_held_exec si room_id request"
| "expire_held si room_id (HeldCall request) = expire_held_call si room_id request"

text \<open>The sweep works on the queue in memory, which its caller saves.\<close>

definition sweep_expired_live_holds ::
  "('sk, 'vk) Site \<Rightarrow> string \<Rightarrow> ApprovalQueue \<times> Daemon \<Rightarrow> ApprovalQueue \<times> Daemon" where
  "sweep_expired_live_holds si room_id = (\<lambda>(queue, dm).
     fold (\<lambda>pending (queue, dm). case pa_held_request pending of
         Some held \<Rightarrow> (snd (queue_remove (pa_request_id pending) queue), expire_held si room_id held dm)
       | None \<Rightarrow> (queue, dm))
       (expired_live_holds_in_room queue room_id (now_unix si)) (queue, dm))"

subsection \<open>The end of a command\<close>

record RunOutput =
  rn_exit_code :: "int option"
  rn_signal :: "int option"
  rn_stdout :: string
  rn_stderr :: string
  rn_timed_out :: bool

datatype ControlledExecResult = RunFinished RunOutput | RunCancelled RunOutput bool

definition CANCEL_SIGNAL :: string where "CANCEL_SIGNAL = ''SIGTERM''"

definition exec_finished_to_json :: "ExecFinished \<Rightarrow> json" where
  "exec_finished_to_json f = JObject ([(''invocation_id'', JString (xf_invocation_id f)),
     (''exit_code'', opt_null int_json (xf_exit_code f)), (''signal'', opt_null JString (xf_signal f)),
     (''duration_ms'', JNum (PosInt (xf_duration_ms f))), (''stdout_bytes'', JNum (PosInt (xf_stdout_bytes f))),
     (''stderr_bytes'', JNum (PosInt (xf_stderr_bytes f))), (''truncated'', JBool (xf_truncated f)),
     (''artifact_mxc'', opt_null JString (xf_artifact_mxc f))] @
     opt_member ''signature'' signature_to_json (xf_signature f) @ xf_extra f)"

definition exec_finished_for :: "ExecRequest \<Rightarrow> u64 \<Rightarrow> bool \<Rightarrow> RunOutput \<Rightarrow> ExecFinished" where
  "exec_finished_for request duration_ms truncated out = \<lparr> xf_invocation_id = xr_invocation_id request,
     xf_exit_code = rn_exit_code out, xf_signal = Option.bind (rn_signal out) signal_name, xf_duration_ms = duration_ms,
     xf_stdout_bytes = of_nat (length (rn_stdout out)), xf_stderr_bytes = of_nat (length (rn_stderr out)),
     xf_truncated = truncated, xf_artifact_mxc = None, xf_signature = None, xf_extra = [] \<rparr>"

definition ended_state :: "InvocationState \<Rightarrow> string \<Rightarrow> int option \<Rightarrow> string \<Rightarrow> InvocationState" where
  "ended_state state new_state exit_code now = state \<lparr> iv_state := new_state, iv_exit_code := exit_code,
     iv_updated_at := now, iv_state_rev := sat_add (iv_state_rev state) 1 \<rparr>"

text \<open>The task of a command without terminal after \<open>run_controlled_exec\<close> has returned \<open>outcome\<close> (an error is the
  text of the error). \<open>emit_out\<close> stands for \<open>emit_output_events\<close>: it sends the captured output and says whether
  it was cut. The guard of the in-flight count is dropped at the end on every path.\<close>

definition finish_live_exec ::
  "('sk, 'vk) Site \<Rightarrow> string \<Rightarrow> ExecRequest \<Rightarrow> InvocationState \<Rightarrow> 'sk \<times> string \<Rightarrow> u64
    \<Rightarrow> (RunOutput \<Rightarrow> Room \<Rightarrow> bool \<times> Room) \<Rightarrow> (string, ControlledExecResult) result \<Rightarrow> Daemon \<Rightarrow> Daemon" where
  "finish_live_exec si room_id request state key duration_ms emit_out outcome dm =
     (let cr = ho_crypto (si_host si); env = si_env si; now = now_rfc3339 env;
          dm = remove_live_exec_control (xr_invocation_id request) dm;
          dm = (case outcome of
              Inr (RunCancelled out killed) \<Rightarrow>
                (let dm = on_room room_id (emit_out out) dm;
                     dm = on_room room_id (emit_exec_cancelled cr env (fst key) (snd key) (xr_invocation_id request)
                            CANCEL_SIGNAL killed now) dm
                 in on_room room_id (publish_invocation_state env (ended_state state INV_CANCELLED (rn_exit_code out) now)) dm)
            | Inl err \<Rightarrow> reject_exec si key room_id (xr_invocation_id request) (XPolicyDenied (CommandNotAllowed err)) dm
            | Inr (RunFinished out) \<Rightarrow>
                (let truncated = (case bm_get (cl_rooms (dm_client dm)) room_id of
                       Some rm \<Rightarrow> fst (emit_out out rm) | None \<Rightarrow> False);
                     dm = on_room room_id (emit_out out) dm;
                     dm = on_room room_id (emit_signed cr env (fst key) (snd key) EXEC_FINISHED
                            (exec_finished_to_json (exec_finished_for request duration_ms truncated out))) dm
                 in on_room room_id (publish_invocation_state env (ended_state state
                      (case rn_exit_code out of Some code \<Rightarrow> terminal_state_for_exit code | None \<Rightarrow> INV_FAILED)
                      (rn_exit_code out) now)) dm))
      in dm \<lparr> dm_inflight := inflight_drop (xr_target_agent request) (dm_inflight dm) \<rparr>)"

subsection \<open>Routed events\<close>

text \<open>Result events go to waiting local clients and change nothing here; the other categories have no
  handler.\<close>

fun handle_routed_event :: "('sk, 'vk) Site \<Rightarrow> EventMeta \<Rightarrow> RoutedEvent \<Rightarrow> Daemon \<Rightarrow> Daemon" where
  "handle_routed_event si meta (REExecRequest request) dm = handle_live_exec_request si meta request dm"
| "handle_routed_event si meta (REExecStdin ev) dm = (case bm_get (cl_rooms (dm_client dm)) (em_room_id meta) of
     Some rm \<Rightarrow> handle_live_exec_stdin si rm (exec_stdin_to_json ev) ev dm | None \<Rightarrow> dm)"
| "handle_routed_event si meta (REExecCancel ev) dm = (case bm_get (cl_rooms (dm_client dm)) (em_room_id meta) of
     Some rm \<Rightarrow> handle_live_exec_cancel si rm (exec_cancel_to_json ev) ev dm | None \<Rightarrow> dm)"
| "handle_routed_event si meta (REPtyResize ev) dm = (case bm_get (cl_rooms (dm_client dm)) (em_room_id meta) of
     Some rm \<Rightarrow> handle_live_pty_resize si rm (pty_resize_to_json ev) ev dm | None \<Rightarrow> dm)"
| "handle_routed_event si meta (RECallRequest request) dm = handle_live_call_request si meta request dm"
| "handle_routed_event si meta (REApprovalDecision decision) dm = handle_live_approval_decision si meta decision dm"
| "handle_routed_event si meta _ dm = dm"

definition handle_routed_events :: "('sk, 'vk) Site \<Rightarrow> (EventMeta \<times> RoutedEvent) list \<Rightarrow> Daemon \<Rightarrow> Daemon" where
  "handle_routed_events si events = fold (\<lambda>(meta, routed). handle_routed_event si meta routed) events"

text \<open>A sync response: every event is routed first, with the lock on the cache held, then the dispatched
  ones are handled. Without a cache nothing is routed.\<close>

fun route_events ::
  "('sk, 'vk) Site \<Rightarrow> IncomingEvent list \<Rightarrow> ReplayCache \<times> ReplayStore
    \<Rightarrow> (EventMeta \<times> RoutedEvent) list \<times> ReplayCache \<times> ReplayStore" where
  "route_events si [] s = ([], s)"
| "route_events si (ev # evs) s = (case route (si_cache_print si) (si_cache_write si) (now_unix si) ev s of
     (_, dispatched, s) \<Rightarrow> (case route_events si evs s of (rest, s) \<Rightarrow> (dispatched @ rest, s)))"

definition handle_sync_response :: "('sk, 'vk) Site \<Rightarrow> IncomingEvent list \<Rightarrow> Daemon \<Rightarrow> Daemon" where
  "handle_sync_response si evs dm = (case dm_router dm of
       None \<Rightarrow> dm
     | Some router \<Rightarrow>
        (case route_events si evs router of
           (dispatched, router) \<Rightarrow> handle_routed_events si dispatched (dm \<lparr> dm_router := Some router \<rparr>)))"

subsection \<open>Frames\<close>

lemma on_room_frame [simp]:
  "dm_queue (on_room r f dm) = dm_queue dm" "dm_audit (on_room r f dm) = dm_audit dm"
  "dm_controls (on_room r f dm) = dm_controls dm" "dm_inflight (on_room r f dm) = dm_inflight dm"
  "dm_router (on_room r f dm) = dm_router dm" "dm_effects (on_room r f dm) = dm_effects dm"
  by (simp_all add: on_room_def split: option.split)

lemma audited_frame [simp]:
  "dm_client (audited si x dm) = dm_client dm" "dm_queue (audited si x dm) = dm_queue dm"
  "dm_controls (audited si x dm) = dm_controls dm" "dm_inflight (audited si x dm) = dm_inflight dm"
  "dm_router (audited si x dm) = dm_router dm" "dm_effects (audited si x dm) = dm_effects dm"
  by (simp_all add: audited_def)

lemma effect_frame [simp]:
  "dm_client (effect x dm) = dm_client dm" "dm_queue (effect x dm) = dm_queue dm" "dm_audit (effect x dm) = dm_audit dm"
  "dm_controls (effect x dm) = dm_controls dm" "dm_inflight (effect x dm) = dm_inflight dm"
  "dm_router (effect x dm) = dm_router dm" "dm_effects (effect x dm) = dm_effects dm @ [x]"
  by (simp_all add: effect_def)

lemma queue_update_frame [simp]:
  "dm_client (queue_update si f dm) = dm_client dm" "dm_audit (queue_update si f dm) = dm_audit dm"
  "dm_controls (queue_update si f dm) = dm_controls dm" "dm_inflight (queue_update si f dm) = dm_inflight dm"
  "dm_router (queue_update si f dm) = dm_router dm" "dm_effects (queue_update si f dm) = dm_effects dm"
  by (simp_all add: queue_update_def)

lemma control_insert_frame [simp]:
  "dm_client (insert_live_exec_control i c dm) = dm_client dm" "dm_queue (insert_live_exec_control i c dm) = dm_queue dm"
  "dm_audit (insert_live_exec_control i c dm) = dm_audit dm" "dm_inflight (insert_live_exec_control i c dm) = dm_inflight dm"
  "dm_router (insert_live_exec_control i c dm) = dm_router dm" "dm_effects (insert_live_exec_control i c dm) = dm_effects dm"
  "dm_controls (insert_live_exec_control i c dm) = bm_insert i c (dm_controls dm)"
  by (simp_all add: insert_live_exec_control_def)

lemmas audit_defs = audit_exec_decision_def audit_exec_rejection_def audit_exec_held_def audit_exec_released_def
  audit_exec_expired_def audit_call_decision_def audit_call_held_def audit_call_released_def audit_call_expired_def

lemmas emit_defs = reject_exec_def accept_exec_def respond_def reject_held_exec_def respond_held_call_def

lemma audit_rejected_exec_frame [simp]:
  "dm_controls (audit_rejected_exec si r q x dm) = dm_controls dm" "dm_router (audit_rejected_exec si r q x dm) = dm_router dm"
  "dm_effects (audit_rejected_exec si r q x dm) = dm_effects dm" "dm_queue (audit_rejected_exec si r q x dm) = dm_queue dm"
  by (cases x; simp add: audit_defs)+

lemma audit_rejected_call_frame [simp]:
  "dm_controls (audit_rejected_call si r q a b x dm) = dm_controls dm"
  "dm_router (audit_rejected_call si r q a b x dm) = dm_router dm"
  "dm_effects (audit_rejected_call si r q a b x dm) = dm_effects dm"
  "dm_queue (audit_rejected_call si r q a b x dm) = dm_queue dm"
  by (simp_all add: audit_rejected_call_def split: option.split)

lemma reject_frame [simp]:
  "dm_controls (reject_exec si k r i x dm) = dm_controls dm" "dm_router (reject_exec si k r i x dm) = dm_router dm"
  "dm_effects (reject_exec si k r i x dm) = dm_effects dm"
  "dm_controls (respond si k r y dm) = dm_controls dm" "dm_router (respond si k r y dm) = dm_router dm"
  "dm_effects (respond si k r y dm) = dm_effects dm"
  "dm_controls (accept_exec si k r i dm) = dm_controls dm" "dm_router (accept_exec si k r i dm) = dm_router dm"
  "dm_effects (accept_exec si k r i dm) = dm_effects dm"
  by (simp_all add: emit_defs)

lemma spawn_frame [simp]:
  "dm_effects (spawn_authorized_live_exec si r q l k dm) = dm_effects dm @ [Spawned r q l]"
  "dm_router (spawn_authorized_live_exec si r q l k dm) = dm_router dm"
  "dm_controls (spawn_authorized_live_exec si r q l k dm) = bm_insert (xr_invocation_id q)
     \<lparr> lx_requester_agent = xr_requesting_agent q, lx_resize = xr_pty q, lx_seen_control_nonces = [] \<rparr> (dm_controls dm)"
  by (simp_all add: spawn_authorized_live_exec_def Let_def)

lemma held_frame [simp]:
  "dm_effects (hold_exec si meta q l a dm) = dm_effects dm" "dm_router (hold_exec si meta q l a dm) = dm_router dm"
  "dm_controls (hold_exec si meta q l a dm) = dm_controls dm"
  "dm_effects (hold_call_for_approval si r c a u dm) = dm_effects dm"
  "dm_router (hold_call_for_approval si r c a u dm) = dm_router dm"
  "dm_controls (hold_call_for_approval si r c a u dm) = dm_controls dm"
  by (simp_all add: hold_exec_def hold_call_for_approval_def enqueue_call_approval_def audit_defs Let_def)

lemma deny_held_frame [simp]:
  "dm_effects (deny_held si r h dm) = dm_effects dm" "dm_router (deny_held si r h dm) = dm_router dm"
  "dm_controls (deny_held si r h dm) = dm_controls dm"
  by (cases h; simp add: deny_held_exec_def deny_held_call_def reject_held_exec_def respond_held_call_def audit_defs
      split: sum.split)+

lemma execute_call_frame [simp]:
  "dm_effects (execute_and_respond_call si k r c l dm) = dm_effects dm @ [RanTool r c l]"
  "dm_router (execute_and_respond_call si k r c l dm) = dm_router dm"
  "dm_controls (execute_and_respond_call si k r c l dm) = dm_controls dm"
  by (simp_all add: execute_and_respond_call_def)

lemma burn_frame:
  assumes "burn_decision_nonce si d dm = (b, dm')"
  shows "dm_effects dm' = dm_effects dm" "dm_controls dm' = dm_controls dm" "dm_client dm' = dm_client dm"
  using assms by (auto simp: burn_decision_nonce_def split: option.splits prod.splits)

subsection \<open>What justifies an effect\<close>

text \<open>A hold that a verified, approving decision with a fresh nonce releases.\<close>

definition approved_hold ::
  "('sk, 'vk) Site \<Rightarrow> EventMeta \<Rightarrow> RoutedEvent \<Rightarrow> Daemon \<Rightarrow> Room \<Rightarrow> PendingApproval \<Rightarrow> bool" where
  "approved_hold si meta routed dm rm pending \<longleftrightarrow> (\<exists>d queue agents. routed = REApprovalDecision d \<and> decision_permits_spawn d \<and>
     queue_load (si_read si) (dm_queue dm) = Inr queue \<and> queue_get queue (dc_request_id d) = Some pending \<and>
     read_all_agent_states rm = Inr agents \<and> verification_failure (ho_crypto (si_host si)) d (em_sender meta)
       (decision_context si dm agents (em_room_id meta)) = None \<and> fst (burn_decision_nonce si d dm))"

text \<open>A control frame of the requester of a running command with a nonce not seen in its session.\<close>

definition owned_frame :: "('sk, 'vk) Site \<Rightarrow> EventMeta \<Rightarrow> Daemon \<Rightarrow> string \<Rightarrow> json \<Rightarrow> string \<Rightarrow> string \<Rightarrow> bool" where
  "owned_frame si meta dm invocation_id content key_id nonce \<longleftrightarrow> (\<exists>rm control.
     bm_get (cl_rooms (dm_client dm)) (em_room_id meta) = Some rm \<and> live_exec_control dm invocation_id = Some control \<and>
     authorize_live_control (si_host si) rm content key_id (lx_requester_agent control) = Inr () \<and>
     nonce \<notin> set (lx_seen_control_nonces control))"

fun control_of :: "RoutedEvent \<Rightarrow> (string \<times> json \<times> string \<times> string) option" where
  "control_of (REExecStdin e) = Some (xs_invocation_id e, exec_stdin_to_json e, sg_key_id (xs_signature e), xs_nonce e)"
| "control_of (REExecCancel e) = Some (xc_invocation_id e, exec_cancel_to_json e, sg_key_id (xc_signature e), xc_nonce e)"
| "control_of (REPtyResize e) = Some (pz_invocation_id e, pty_resize_to_json e, sg_key_id (pz_signature e), pz_nonce e)"
| "control_of _ = None"

fun effect_target :: "Effect \<Rightarrow> string" where
  "effect_target (Spawned _ r _) = xr_invocation_id r"
| "effect_target (RanTool _ c _) = cq_invocation_id c"
| "effect_target (StdinData i _) = i"
| "effect_target (StdinEof i) = i"
| "effect_target (CancelSent i _) = i"
| "effect_target (Resized i _ _ _ _) = i"

fun justified :: "('sk, 'vk) Site \<Rightarrow> EventMeta \<Rightarrow> RoutedEvent \<Rightarrow> Daemon \<Rightarrow> Effect \<Rightarrow> bool" where
  "justified si meta routed dm (Spawned room_id r limits) \<longleftrightarrow> room_id = em_room_id meta \<and>
     (\<exists>rm. bm_get (cl_rooms (dm_client dm)) room_id = Some rm \<and>
       ((\<exists>rq. routed = REExecRequest rq \<and> is_local_target dm rm (xr_target_agent rq) \<and>
          xr_idempotency_key rq = ''exec:'' @ xr_invocation_id rq \<and>
          authorize_live_exec (si_host si) rm (exec_request_to_json rq) rq room_id (Some (em_sender meta)) = Inr (r, limits) \<and>
          \<not> al_requires_approval limits \<and> live_exec_control dm (xr_invocation_id r) = None) \<or>
        (\<exists>pending rq. approved_hold si meta routed dm rm pending \<and> pa_held_request pending = Some (HeldExec rq) \<and>
          authorize_live_exec (si_host si) rm (exec_request_to_json rq) rq room_id (pa_requester_user pending) = Inr (r, limits))))"
| "justified si meta routed dm (RanTool room_id r limits) \<longleftrightarrow> room_id = em_room_id meta \<and>
     (\<exists>rm. bm_get (cl_rooms (dm_client dm)) room_id = Some rm \<and>
       ((\<exists>rq target who. routed = RECallRequest rq \<and> cq_target_agent rq = Some target \<and> cq_requesting_agent rq = Some who \<and>
          is_local_target dm rm target \<and>
          authorize_live_call (si_host si) rm (call_request_to_json rq) rq who room_id (Some (em_sender meta)) = Inr (r, limits) \<and>
          \<not> al_requires_approval limits) \<or>
        (\<exists>pending rq. approved_hold si meta routed dm rm pending \<and> pa_held_request pending = Some (HeldCall rq) \<and>
          authorize_live_call (si_host si) rm (call_request_to_json rq) rq (unwrap_or (cq_requesting_agent rq) []) room_id
            (pa_requester_user pending) = Inr (r, limits))))"
| "justified si meta routed dm x \<longleftrightarrow>
     (case control_of routed of
        None \<Rightarrow> False
      | Some (i, content, key_id, nonce) \<Rightarrow> effect_target x = i \<and> owned_frame si meta dm i content key_id nonce)"

definition extends :: "Daemon \<Rightarrow> Daemon \<Rightarrow> (Effect \<Rightarrow> bool) \<Rightarrow> bool" where
  "extends dm dm' P \<longleftrightarrow> (\<exists>xs. dm_effects dm' = dm_effects dm @ xs \<and> list_all P xs)"

lemma extends_same [intro]: "dm_effects dm' = dm_effects dm \<Longrightarrow> extends dm dm' P"
  by (simp add: extends_def)

lemma extends_one [intro]: "dm_effects dm' = dm_effects dm @ [x] \<Longrightarrow> P x \<Longrightarrow> extends dm dm' P"
  by (simp add: extends_def)

lemma exec_request_effects:
  "extends dm (handle_live_exec_request si meta rq dm) (justified si meta (REExecRequest rq) dm)"
  unfolding handle_live_exec_request_def disposition_for_exec_def
  by (auto split: option.split sum.split simp: audit_defs extends_def)

lemma call_request_effects:
  "extends dm (handle_live_call_request si meta rq dm) (justified si meta (RECallRequest rq) dm)"
  unfolding handle_live_call_request_def disposition_for_call_def
  by (auto split: option.split sum.split simp: audit_defs Let_def extends_def)

lemma control_frame_effects:
  assumes "\<And>control dm. extends dm (act control dm) (\<lambda>x. effect_target x = i \<and> (case x of Spawned _ _ _ \<Rightarrow> False | RanTool _ _ _ \<Rightarrow> False | _ \<Rightarrow> True))"
    and "bm_get (cl_rooms (dm_client dm)) (em_room_id meta) = Some rm"
  shows "extends dm (control_frame si rm content i key_id nonce act dm) (\<lambda>x. effect_target x = i \<and>
    (case x of Spawned _ _ _ \<Rightarrow> False | RanTool _ _ _ \<Rightarrow> False | _ \<Rightarrow> True) \<and> owned_frame si meta dm i content key_id nonce)"
proof (cases "live_exec_control dm i")
  case None
  then show ?thesis by (auto simp: control_frame_def)
next
  case (Some control)
  show ?thesis
  proof (cases "authorize_live_control (si_host si) rm content key_id (lx_requester_agent control) = Inr () \<and>
      nonce \<notin> set (lx_seen_control_nonces control)")
    case True
    then have "owned_frame si meta dm i content key_id nonce"
      using assms(2) Some by (auto simp: owned_frame_def)
    then show ?thesis
      using True Some assms(1) [of "insert_live_exec_control i (control \<lparr> lx_seen_control_nonces := nonce #
          lx_seen_control_nonces control \<rparr>) dm" control]
      by (simp add: control_frame_def admit_control_nonce_def extends_def)
  next
    case False
    then show ?thesis
      using Some by (auto simp: control_frame_def admit_control_nonce_def)
  qed
qed

lemma control_effects:
  assumes "bm_get (cl_rooms (dm_client dm)) (em_room_id meta) = Some rm"
  shows "extends dm (handle_live_exec_stdin si rm (exec_stdin_to_json s) s dm) (justified si meta (REExecStdin s) dm)"
    "extends dm (handle_live_exec_cancel si rm (exec_cancel_to_json c) c dm) (justified si meta (REExecCancel c) dm)"
    "extends dm (handle_live_pty_resize si rm (pty_resize_to_json z) z dm) (justified si meta (REPtyResize z) dm)"
proof -
  have weaken: "extends dm d Q" if "extends dm d P" "\<And>x. P x \<Longrightarrow> Q x" for d P Q
    using that by (auto simp: extends_def list_all_iff)
  have mono: "effect_target x = i \<and> (case x of Spawned _ _ _ \<Rightarrow> False | RanTool _ _ _ \<Rightarrow> False | _ \<Rightarrow> True) \<and>
      owned_frame si meta dm i content key_id nonce \<Longrightarrow> control_of ev = Some (i, content, key_id, nonce) \<Longrightarrow>
      justified si meta ev dm x" for x i content key_id nonce ev
    by (cases x) auto
  show "extends dm (handle_live_exec_stdin si rm (exec_stdin_to_json s) s dm) (justified si meta (REExecStdin s) dm)"
    unfolding handle_live_exec_stdin_def
    by (rule weaken [OF control_frame_effects [OF _ assms]], force simp: extends_def Let_def split: option.split)
      (rule mono, simp_all)
  show "extends dm (handle_live_exec_cancel si rm (exec_cancel_to_json c) c dm) (justified si meta (REExecCancel c) dm)"
    unfolding handle_live_exec_cancel_def
    by (rule weaken [OF control_frame_effects [OF _ assms]], force simp: extends_def) (rule mono, simp_all)
  show "extends dm (handle_live_pty_resize si rm (pty_resize_to_json z) z dm) (justified si meta (REPtyResize z) dm)"
    unfolding handle_live_pty_resize_def
    by (rule weaken [OF control_frame_effects [OF _ assms]], force simp: extends_def) (rule mono, simp_all)
qed

lemma release_effects:
  "dm_effects (release_held si rm room_id held sender dm) = dm_effects dm \<or>
    (\<exists>rq r limits. held = HeldExec rq \<and> dm_effects (release_held si rm room_id held sender dm) = dm_effects dm @ [Spawned room_id r limits] \<and>
      authorize_live_exec (si_host si) rm (exec_request_to_json rq) rq room_id sender = Inr (r, limits)) \<or>
    (\<exists>rq r limits. held = HeldCall rq \<and> dm_effects (release_held si rm room_id held sender dm) = dm_effects dm @ [RanTool room_id r limits] \<and>
      authorize_live_call (si_host si) rm (call_request_to_json rq) rq (unwrap_or (cq_requesting_agent rq) []) room_id sender =
        Inr (r, limits))"
  by (cases held) (auto simp: release_held_exec_def release_held_call_def audit_defs Let_def split: sum.split)

lemma release_router [simp]: "dm_router (release_held si rm room_id held sender dm) = dm_router dm"
  by (cases held) (auto simp: release_held_exec_def release_held_call_def audit_defs Let_def split: sum.split)

text \<open>A decision has an effect only when it releases a hold.\<close>

lemma decision_handled:
  "(dm_effects (handle_live_approval_decision si meta d dm) = dm_effects dm) \<or>
    (\<exists>rm pending held dm1. bm_get (cl_rooms (dm_client dm)) (em_room_id meta) = Some rm \<and>
      approved_hold si meta (REApprovalDecision d) dm rm pending \<and> pa_held_request pending = Some held \<and>
      burn_decision_nonce si d dm = (True, dm1) \<and> handle_live_approval_decision si meta d dm =
        release_held si rm (em_room_id meta) held (pa_requester_user pending)
          (queue_update si (\<lambda>q. snd (queue_remove (dc_request_id d) q)) dm1))"
proof (cases "\<exists>queue pending held rm agents. queue_load (si_read si) (dm_queue dm) = Inr queue \<and>
    queue_get queue (dc_request_id d) = Some pending \<and> pa_held_request pending = Some held \<and>
    bm_get (cl_rooms (dm_client dm)) (em_room_id meta) = Some rm \<and> read_all_agent_states rm = Inr agents \<and>
    verification_failure (ho_crypto (si_host si)) d (em_sender meta) (decision_context si dm agents (em_room_id meta)) = None")
  case True
  then obtain queue pending held rm agents where c: "queue_load (si_read si) (dm_queue dm) = Inr queue"
    "queue_get queue (dc_request_id d) = Some pending" "pa_held_request pending = Some held"
    "bm_get (cl_rooms (dm_client dm)) (em_room_id meta) = Some rm" "read_all_agent_states rm = Inr agents"
    "verification_failure (ho_crypto (si_host si)) d (em_sender meta) (decision_context si dm agents (em_room_id meta)) = None"
    by (elim exE conjE)
  obtain b dm1 where b: "burn_decision_nonce si d dm = (b, dm1)" by (cases "burn_decision_nonce si d dm")
  show ?thesis
  proof (cases "b \<and> decision_permits_spawn d")
    case True
    then have "approved_hold si meta (REApprovalDecision d) dm rm pending"
      using c b by (auto simp: approved_hold_def)
    then show ?thesis
      using True c b by (intro disjI2 exI [of _ rm] exI [of _ pending] exI [of _ held] exI [of _ dm1])
        (simp add: handle_live_approval_decision_def Let_def)
  next
    case False
    then show ?thesis
      using c b burn_frame [OF b] by (cases b) (simp_all add: handle_live_approval_decision_def Let_def)
  qed
next
  case False
  then have "handle_live_approval_decision si meta d dm = dm"
    by (auto simp: handle_live_approval_decision_def split: sum.split option.split)
  then show ?thesis by simp
qed

lemma decision_effects:
  "extends dm (handle_live_approval_decision si meta d dm) (justified si meta (REApprovalDecision d) dm)"
  using decision_handled [of si meta d dm]
proof (elim disjE exE conjE)
  fix rm pending held dm1
  assume a: "bm_get (cl_rooms (dm_client dm)) (em_room_id meta) = Some rm"
    "approved_hold si meta (REApprovalDecision d) dm rm pending" "pa_held_request pending = Some held"
    "burn_decision_nonce si d dm = (True, dm1)"
    and h: "handle_live_approval_decision si meta d dm = release_held si rm (em_room_id meta) held (pa_requester_user pending)
          (queue_update si (\<lambda>q. snd (queue_remove (dc_request_id d) q)) dm1)"
  show ?thesis
    unfolding h using release_effects [of si rm "em_room_id meta" held "pa_requester_user pending"
        "queue_update si (\<lambda>q. snd (queue_remove (dc_request_id d) q)) dm1"] a burn_frame(1) [OF a(4)]
    by (elim disjE exE conjE) (auto simp: extends_def)
qed auto

lemma routed_effects: "extends dm (handle_routed_event si meta ev dm) (justified si meta ev dm)"
  by (cases ev) (auto simp: exec_request_effects call_request_effects decision_effects control_effects split: option.split)

text \<open>A session: events in the order in which they are handled, each with what the daemon finds then.\<close>

definition run_session :: "(('sk, 'vk) Site \<times> EventMeta \<times> RoutedEvent) list \<Rightarrow> Daemon \<Rightarrow> Daemon" where
  "run_session = fold (\<lambda>(si, meta, ev). handle_routed_event si meta ev)"

lemma control_frame_router:
  assumes "\<And>control dm. dm_router (act control dm) = dm_router dm"
  shows "dm_router (control_frame si rm content i key_id nonce act dm) = dm_router dm"
  using assms by (simp add: control_frame_def admit_control_nonce_def split: option.split)

lemma burn_router:
  assumes "burn_decision_nonce si d dm = (b, dm')"
  shows "dm_router dm' = dm_router dm \<or> (\<exists>n x r. dm_router dm = Some r \<and>
    dm_router dm' = Some (snd (admit_at (si_cache_print si) (si_cache_write si) n x (now_unix si) r)))"
proof (cases "\<exists>n x r. dc_nonce d = Some n \<and> dc_expires_at d = Some x \<and> dm_router dm = Some r")
  case True
  then obtain n x r where n: "dc_nonce d = Some n" "dc_expires_at d = Some x" "dm_router dm = Some r" by blast
  then have "dm_router dm' = Some (snd (admit_at (si_cache_print si) (si_cache_write si) n x (now_unix si) r))"
    using assms by (auto simp: burn_decision_nonce_def admit_decision_nonce_def case_prod_unfold)
  then show ?thesis using n(3) by (intro disjI2 exI conjI)
next
  case False
  then show ?thesis
    using assms by (auto simp: burn_decision_nonce_def split: option.splits)
qed

lemma decision_router:
  "dm_router (handle_live_approval_decision si meta d dm) \<in> {dm_router dm, dm_router (snd (burn_decision_nonce si d dm))}"
  unfolding handle_live_approval_decision_def
  by (cases "burn_decision_nonce si d dm") (auto simp: Let_def split: sum.split option.split bool.split)

lemma routed_router:
  "dm_router (handle_routed_event si meta ev dm) = dm_router dm \<or> (\<exists>n x r. dm_router dm = Some r \<and>
    dm_router (handle_routed_event si meta ev dm) =
      Some (snd (admit_at (si_cache_print si) (si_cache_write si) n x (now_unix si) r)))"
proof (cases ev)
  case (REExecRequest q)
  then show ?thesis
    by (simp add: handle_live_exec_request_def audit_defs split: option.split sum.split ExecDisposition.split)
next
  case (RECallRequest q)
  then show ?thesis
    by (simp add: handle_live_call_request_def audit_defs Let_def split: option.split sum.split CallDisposition.split)
next
  case (REApprovalDecision d)
  obtain b dm' where b: "burn_decision_nonce si d dm = (b, dm')" by (cases "burn_decision_nonce si d dm")
  have "dm_router (handle_routed_event si meta ev dm) = dm_router dm \<or>
      dm_router (handle_routed_event si meta ev dm) = dm_router dm'"
    using decision_router [of si meta d dm] by (simp add: REApprovalDecision b)
  then show ?thesis using burn_router [OF b] by metis
next
  case (REExecStdin s)
  then show ?thesis
    by (auto simp: handle_live_exec_stdin_def Let_def intro!: control_frame_router split: option.split)
next
  case (REExecCancel c)
  then show ?thesis
    by (auto simp: handle_live_exec_cancel_def intro!: control_frame_router split: option.split)
next
  case (REPtyResize z)
  then show ?thesis
    by (auto simp: handle_live_pty_resize_def intro!: control_frame_router split: option.split)
qed simp_all

lemma session_spent:
  assumes "dm_router dm = Some (c, st)" "spent n e t c" "sorted (t # map (\<lambda>x. now_unix (fst x)) evs)"
    "length (rc_nonces c) + length evs \<le> rc_capacity c" "list_all (\<lambda>u. u \<le> t') (t # map (\<lambda>x. now_unix (fst x)) evs)"
  shows "\<exists>c' st'. dm_router (run_session evs dm) = Some (c', st') \<and> spent n e t' c'"
  using assms
proof (induction evs arbitrary: dm c st t)
  case Nil
  then show ?case by (auto simp: run_session_def spent_def)
next
  case (Cons x evs)
  obtain si meta ev where x: "x = (si, meta, ev)" by (cases x)
  let ?dm = "handle_routed_event si meta ev dm"
  have t: "t \<le> now_unix si" "sorted (now_unix si # map (\<lambda>x. now_unix (fst x)) evs)"
    "list_all (\<lambda>u. u \<le> t') (now_unix si # map (\<lambda>x. now_unix (fst x)) evs)"
    using Cons.prems(3,5) by (simp_all add: x)
  have room: "length (rc_nonces c) < rc_capacity c" using Cons.prems(4) by simp
  consider "dm_router ?dm = Some (c, st)"
    | nn xx where "dm_router ?dm = Some (snd (admit_at (si_cache_print si) (si_cache_write si) nn xx (now_unix si) (c, st)))"
    using routed_router [of si meta ev dm] Cons.prems(1) by auto
  then have "\<exists>c' st'. dm_router ?dm = Some (c', st') \<and> spent n e (now_unix si) c' \<and>
      length (rc_nonces c') + length evs \<le> rc_capacity c'"
  proof cases
    case 1
    then show ?thesis using Cons.prems(2,4) t(1) by (auto simp: spent_def)
  next
    case 2
    obtain r c' st' where a: "admit_at (si_cache_print si) (si_cache_write si) nn xx (now_unix si) (c, st) = (r, c', st')"
      by (cases "admit_at (si_cache_print si) (si_cache_write si) nn xx (now_unix si) (c, st)")
    then show ?thesis
      using 2 spent_step [OF Cons.prems(2) t(1) room a] admit_length [OF a room] Cons.prems(4) by auto
  qed
  then obtain c' st' where "dm_router ?dm = Some (c', st')" "spent n e (now_unix si) c'"
    "length (rc_nonces c') + length evs \<le> rc_capacity c'" by blast
  from Cons.IH [OF this(1,2) t(2) this(3) t(3)] show ?case by (simp add: run_session_def x)
qed

fun is_decision :: "RoutedEvent \<Rightarrow> bool" where
  "is_decision (REApprovalDecision _) = True"
| "is_decision _ = False"

lemma control_frame_controls:
  assumes "\<And>control dm. dm_controls (act control dm) = dm_controls dm"
  shows "control_frame si rm content i key_id nonce act dm = dm \<or>
    (\<exists>control. live_exec_control dm i = Some control \<and> nonce \<notin> set (lx_seen_control_nonces control) \<and>
      dm_controls (control_frame si rm content i key_id nonce act dm) =
        bm_insert i (control \<lparr> lx_seen_control_nonces := nonce # lx_seen_control_nonces control \<rparr>) (dm_controls dm))"
  using assms by (auto simp: control_frame_def admit_control_nonce_def split: option.split)

lemma control_event:
  assumes "control_of ev = Some (i, content, key_id, nonce)"
  shows "handle_routed_event si meta ev dm = dm \<or>
    (\<exists>control. live_exec_control dm i = Some control \<and> nonce \<notin> set (lx_seen_control_nonces control) \<and>
      dm_controls (handle_routed_event si meta ev dm) =
        bm_insert i (control \<lparr> lx_seen_control_nonces := nonce # lx_seen_control_nonces control \<rparr>) (dm_controls dm))"
proof (cases "bm_get (cl_rooms (dm_client dm)) (em_room_id meta)")
  case None
  then show ?thesis using assms by (cases ev) simp_all
next
  case (Some rm)
  then show ?thesis
    using assms
    by (cases ev) (auto simp: handle_live_exec_stdin_def handle_live_exec_cancel_def handle_live_pty_resize_def Let_def
        simp del: control_frame_def intro!: control_frame_controls split: option.split)
qed

text \<open>The nonces a session has seen stay seen as long as no held request is released.\<close>

lemma seen_nonce_stays:
  assumes "live_exec_control dm i = Some c" "n \<in> set (lx_seen_control_nonces c)" "\<not> is_decision ev"
  shows "\<exists>c'. live_exec_control (handle_routed_event si meta ev dm) i = Some c' \<and> n \<in> set (lx_seen_control_nonces c')"
proof (cases "control_of ev")
  case (Some x)
  obtain j content k m where x: "x = (j, content, k, m)" by (cases x)
  show ?thesis
    using control_event [OF Some [unfolded x], of si meta dm] assms
    by (auto simp: live_exec_control_def bm_get_insert)
next
  case None
  have "live_exec_control (handle_routed_event si meta ev dm) i = live_exec_control dm i"
  proof (cases ev)
    case (REExecRequest q)
    then show ?thesis
      using assms(1) by (auto simp: handle_live_exec_request_def audit_defs live_exec_control_def bm_get_insert
          split: option.split sum.split ExecDisposition.split)
  next
    case (RECallRequest q)
    then show ?thesis
      by (simp add: handle_live_call_request_def audit_defs Let_def live_exec_control_def
          split: option.split sum.split CallDisposition.split)
  qed (use assms(3) None in simp_all)
  then show ?thesis using assms(1,2) by simp
qed

lemma session_seen_nonce:
  assumes "live_exec_control dm i = Some c" "n \<in> set (lx_seen_control_nonces c)"
    "list_all (\<lambda>(_, _, ev). \<not> is_decision ev) evs"
  shows "\<exists>c'. live_exec_control (run_session evs dm) i = Some c' \<and> n \<in> set (lx_seen_control_nonces c')"
  using assms
proof (induction evs arbitrary: dm c)
  case (Cons x evs)
  obtain si meta ev where x: "x = (si, meta, ev)" by (cases x)
  obtain c' where "live_exec_control (handle_routed_event si meta ev dm) i = Some c'" "n \<in> set (lx_seen_control_nonces c')"
    using seen_nonce_stays [OF Cons.prems(1,2), of ev si meta] Cons.prems(3) by (auto simp: x)
  from Cons.IH [OF this] Cons.prems(3) show ?case by (simp add: run_session_def x)
qed (simp add: run_session_def)

lemma queue_update_load:
  assumes "si_queue_write si = None" "\<And>v. si_read si' (si_print si v) = Some v" "list_all pending_wf (f (queue_or_default si (dm_queue dm)))"
  shows "queue_load (si_read si') (dm_queue (queue_update si f dm)) = Inr (f (queue_or_default si (dm_queue dm)))"
  using assms by (simp add: queue_update_def queue_save_def queue_load_def queue_roundtrip)

lemma exec_held:
  assumes "bm_get (cl_rooms (dm_client dm)) (em_room_id meta) = Some rm" "is_local_target dm rm (xr_target_agent rq)"
    "ho_key (si_host si) = Inr key" "xr_idempotency_key rq = ''exec:'' @ xr_invocation_id rq"
    "authorize_live_exec (si_host si) rm (exec_request_to_json rq) rq (em_room_id meta) (Some (em_sender meta)) = Inr (r, limits)"
    "live_exec_control dm (xr_invocation_id r) = None" "al_requires_approval limits"
  shows "handle_live_exec_request si meta rq dm = hold_exec si meta r limits (approval_request_for r limits) dm"
  using assms(1-3,5-7) unfolding handle_live_exec_request_def disposition_for_exec_def by (simp add: assms(4) assms(6))

lemma held_queue:
  "dm_queue (hold_exec si meta r limits approval dm) = dm_queue (queue_update si (enqueue \<lparr> pa_room_id = em_room_id meta,
     pa_request = approval, pa_held_request = Some (HeldExec r), pa_requester_user = Some (em_sender meta) \<rparr>) dm)"
  by (simp add: hold_exec_def Let_def audit_exec_held_def queue_update_def)

lemma enqueue_wf: "list_all pending_wf q \<Longrightarrow> pending_wf e \<Longrightarrow> list_all pending_wf (enqueue e q)"
  by (auto simp: enqueue_def list_all_iff set_update_subset_insert [THEN subsetD] dest!: set_update_subset_insert [THEN subsetD]
      split: option.split)

lemma queue_remove_wf: "list_all pending_wf q \<Longrightarrow> list_all pending_wf (snd (queue_remove k q))"
  by (auto simp: queue_remove_def list_all_iff split: option.split dest: in_set_takeD in_set_dropD)

text \<open>The record that is written when a command or tool starts.\<close>

fun is_run :: "Effect \<Rightarrow> bool" where
  "is_run (Spawned _ _ _) = True"
| "is_run (RanTool _ _ _) = True"
| "is_run _ = False"

definition run_recorded :: "('sk, 'vk) Site \<Rightarrow> AuditDecision \<Rightarrow> Daemon \<Rightarrow> Daemon \<Rightarrow> bool" where
  "run_recorded si decision dm dm' \<longleftrightarrow> (\<exists>x a. dm_effects dm' = dm_effects dm @ [x] \<and> is_run x \<and>
     dm_audit dm' = append_audit (si_print si) (si_vars si) (si_data_dir si) (si_audit_write si) a (dm_audit dm) \<and>
     ad_decision a = decision \<and> ad_invocation_id a = Some (effect_target x))"

definition no_run :: "Daemon \<Rightarrow> Daemon \<Rightarrow> bool" where
  "no_run dm dm' \<longleftrightarrow> (\<exists>xs. dm_effects dm' = dm_effects dm @ xs \<and> list_all (\<lambda>x. \<not> is_run x) xs)"

lemma no_run_same: "dm_effects dm' = dm_effects dm \<Longrightarrow> no_run dm dm'"
  by (simp add: no_run_def)

lemma spawn_audit [simp]: "dm_audit (spawn_authorized_live_exec si r q l k dm) = dm_audit dm"
  by (simp add: spawn_authorized_live_exec_def Let_def accept_exec_def)

lemma call_audit [simp]: "dm_audit (execute_and_respond_call si k r c l dm) = dm_audit dm"
  by (simp add: execute_and_respond_call_def respond_def)

lemma audited_log [simp]:
  "dm_audit (audited si x dm) = append_audit (si_print si) (si_vars si) (si_data_dir si) (si_audit_write si) x (dm_audit dm)"
  by (simp add: audited_def)

lemma from_outcome_Allow [simp]: "from_outcome (Allow l) = Allowed"
  by (simp add: from_outcome_def)

lemmas record_defs = for_exec_def for_call_def for_exec_released_def for_call_released_def exec_record_def call_record_def

lemma recordedI:
  "dm_effects dm' = dm_effects dm @ [x] \<Longrightarrow> is_run x \<Longrightarrow>
   dm_audit dm' = append_audit (si_print si) (si_vars si) (si_data_dir si) (si_audit_write si) a (dm_audit dm) \<Longrightarrow>
   ad_decision a = d \<Longrightarrow> ad_invocation_id a = Some (effect_target x) \<Longrightarrow> run_recorded si d dm dm'"
  by (auto simp: run_recorded_def)

lemma spawn_recorded:
  "run_recorded si Allowed dm (spawn_authorized_live_exec si r q l k (audit_exec_decision si r q (Allow l) dm))"
  "run_recorded si Released dm (spawn_authorized_live_exec si r q l k (audit_exec_released si r q l dm))"
  unfolding audit_defs
  by (rule recordedI [where x = "Spawned r q l"], simp, simp, simp, simp_all add: record_defs)+

lemma tool_recorded:
  "run_recorded si Allowed dm (execute_and_respond_call si k r c l (audit_call_decision si r c a b (Allow l) dm))"
  "run_recorded si Released dm (execute_and_respond_call si k r c l (audit_call_released si r c a b l dm))"
  unfolding audit_defs
  by (rule recordedI [where x = "RanTool r c l"], simp, simp, simp, simp_all add: record_defs)+

lemma inflight_recorded [simp]:
  "run_recorded si d (dm \<lparr> dm_inflight := f \<rparr>) (dm' \<lparr> dm_inflight := f' \<rparr>) \<longleftrightarrow> run_recorded si d dm dm'"
  "run_recorded si d (dm \<lparr> dm_inflight := f \<rparr>) dm' \<longleftrightarrow> run_recorded si d dm dm'"
  "run_recorded si d dm (dm' \<lparr> dm_inflight := f' \<rparr>) \<longleftrightarrow> run_recorded si d dm dm'"
  by (simp_all add: run_recorded_def)

lemma exec_request_recorded:
  "no_run dm (handle_live_exec_request si meta rq dm) \<or> run_recorded si Allowed dm (handle_live_exec_request si meta rq dm)"
  unfolding handle_live_exec_request_def disposition_for_exec_def
  by (auto split: option.split sum.split simp: spawn_recorded no_run_same)

lemma call_request_recorded:
  "no_run dm (handle_live_call_request si meta rq dm) \<or> run_recorded si Allowed dm (handle_live_call_request si meta rq dm)"
proof -
  have "run_recorded si Allowed dm (execute_and_respond_call si k r c l
      (audit_call_decision si r c a b (Allow l) (dm \<lparr> dm_inflight := f \<rparr>)))" for k r c l a b f
    using tool_recorded(1) [of si "dm \<lparr> dm_inflight := f \<rparr>"] by simp
  then show ?thesis
    unfolding handle_live_call_request_def disposition_for_call_def
    by (auto split: option.split sum.split simp: Let_def no_run_same audit_defs)
qed

lemma recorded_from:
  "dm_effects u = dm_effects dm \<Longrightarrow> no_run u dm' = no_run dm dm'"
  "dm_effects u = dm_effects dm \<Longrightarrow> dm_audit u = dm_audit dm \<Longrightarrow> run_recorded si d u dm' = run_recorded si d dm dm'"
  by (simp_all add: no_run_def run_recorded_def)

lemma decision_recorded:
  "no_run dm (handle_live_approval_decision si meta d dm) \<or> run_recorded si Released dm (handle_live_approval_decision si meta d dm)"
proof -
  have "no_run dm0 (release_held si rm r held sender dm0) \<or> run_recorded si Released dm0 (release_held si rm r held sender dm0)" for rm r held sender dm0
    by (cases held) (auto simp: release_held_exec_def release_held_call_def Let_def spawn_recorded tool_recorded no_run_same
        split: sum.split)
  note rel = this
  show ?thesis
    using decision_handled [of si meta d dm]
  proof (elim disjE exE conjE)
    fix rm pending held dm1
    assume b: "burn_decision_nonce si d dm = (True, dm1)" and h: "handle_live_approval_decision si meta d dm =
      release_held si rm (em_room_id meta) held (pa_requester_user pending)
        (queue_update si (\<lambda>q. snd (queue_remove (dc_request_id d) q)) dm1)"
    let ?u = "queue_update si (\<lambda>q. snd (queue_remove (dc_request_id d) q)) dm1"
    have "dm_effects ?u = dm_effects dm" "dm_audit ?u = dm_audit dm"
      using b by (auto simp: burn_decision_nonce_def split: option.splits prod.splits)
    from recorded_from(1) [OF this(1)] recorded_from(2) [OF this] rel [of ?u rm "em_room_id meta" held "pa_requester_user pending"]
    show ?thesis unfolding h by blast
  qed (simp add: no_run_same)
qed

lemma control_not_run:
  assumes "control_of ev \<noteq> None"
  shows "no_run dm (handle_routed_event si meta ev dm)"
proof -
  have "\<not> is_run x" if "justified si meta ev dm x" for x
    using that assms by (cases x; cases ev) (auto simp: approved_hold_def)
  then show ?thesis
    using routed_effects [of dm si meta ev] by (auto simp: extends_def no_run_def list_all_iff)
qed

subsection \<open>Properties\<close>

text \<open>C1. Nothing happens without authority. Whatever event is routed to the daemon, the only things it hands
  to child processes and tools are these. A command or tool starts for a request in the event's room that
  passed the full authorization for the event's sender, is addressed to a local agent, needs no approval
  and, for a command, whose invocation is not running already; or it is a held request which a verified,
  approving decision with a fresh nonce releases and which passes the full authorization again for the
  sender who was recorded with it. Input, cancellation and resizing reach only the running command they
  name, signed by the agent that requested it with a trusted key, under a nonce new to that session.\<close>

theorem live_effects_justified:
  "\<exists>xs. dm_effects (handle_routed_event si meta ev dm) = dm_effects dm @ xs \<and> list_all (justified si meta ev dm) xs"
  using routed_effects by (simp only: extends_def)


text \<open>C7. A decision acts once. When a decision has released a held request, a later delivery of the same
  decision has no effect, whatever events the daemon handled in between and even if the queue could not
  be saved or a request with the same id was held again, provided the clock does not go back and the
  replay cache has room for the nonces of the session.\<close>

theorem decision_acts_once:
  assumes "dm_router dm = Some (c, st)" "length (rc_nonces c) + length evs < rc_capacity c"
    and "sorted (map now_unix (si # map fst evs @ [si']))"
    and "dm_effects (handle_routed_event si meta (REApprovalDecision d) dm) \<noteq> dm_effects dm"
    and "dm2 = run_session evs (handle_routed_event si meta (REApprovalDecision d) dm)"
  shows "dm_effects (handle_routed_event si' meta' (REApprovalDecision d) dm2) = dm_effects dm2"
proof -
  let ?dm = "handle_routed_event si meta (REApprovalDecision d) dm"
  obtain dm1 where b: "burn_decision_nonce si d dm = (True, dm1)" "dm_router ?dm = dm_router dm1"
    using decision_handled [of si meta d dm] assms(4) by auto
  then obtain n x c1 st1 where n: "dc_nonce d = Some n" "dc_expires_at d = Some x"
    "admit_at (si_cache_print si) (si_cache_write si) n x (now_unix si) (c, st) = (Inr (), c1, st1)"
    "dm_router ?dm = Some (c1, st1)"
    using assms(1) by (auto simp: burn_decision_nonce_def admit_decision_nonce_def split: option.splits prod.splits)
  obtain e where e: "parse_rfc3339_to_unix x = Some e" "spent n e (now_unix si) c1"
    using admitted_spent [OF n(3)] by blast
  have room: "length (rc_nonces c1) + length evs \<le> rc_capacity c1"
    using admit_length [OF n(3)] assms(2) by simp
  obtain c2 st2 where c2: "dm_router dm2 = Some (c2, st2)" "spent n e (now_unix si') c2"
    using session_spent [OF n(4) e(2) _ room, of "now_unix si'"] assms(3)
    by (auto simp: assms(5) sorted_append list_all_iff comp_def)
  obtain r s' where a: "admit_at (si_cache_print si') (si_cache_write si') n x (now_unix si') (c2, st2) = (r, s')"
    by (cases "admit_at (si_cache_print si') (si_cache_write si') n x (now_unix si') (c2, st2)")
  then have "r \<noteq> Inr ()" using spent_denied [OF c2(2) e(1)] by (cases s') auto
  then have "\<not> fst (burn_decision_nonce si' d dm2)"
    using a n(1,2) c2(1) by (simp add: burn_decision_nonce_def admit_decision_nonce_def)
  then show ?thesis
    using decision_handled [of si' meta' d dm2] by auto
qed

text \<open>C13. A control frame acts once. When a frame of input, cancellation or resizing has reached a running
  command, no later frame with the same nonce for the same command, of whatever kind and however it was
  delivered, has an effect on it, whatever was handled in between short of releasing a held request.\<close>

theorem control_acts_once:
  assumes "control_of ev = Some (i, content, key_id, nonce)" "control_of ev' = Some (i, content', key_id', nonce)"
    and "dm_effects (handle_routed_event si meta ev dm) \<noteq> dm_effects dm"
    and "list_all (\<lambda>(_, _, ev). \<not> is_decision ev) evs"
    and "dm2 = run_session evs (handle_routed_event si meta ev dm)"
  shows "handle_routed_event si' meta' ev' dm2 = dm2"
proof -
  obtain c where "live_exec_control (handle_routed_event si meta ev dm) i = Some c" "nonce \<in> set (lx_seen_control_nonces c)"
    using control_event [OF assms(1), of si meta dm] assms(3) by (auto simp: live_exec_control_def bm_get_insert)
  then obtain c2 where "live_exec_control dm2 i = Some c2" "nonce \<in> set (lx_seen_control_nonces c2)"
    using session_seen_nonce assms(4,5) by blast
  then show ?thesis
    using control_event [OF assms(2), of si' meta' dm2] by auto
qed

text \<open>C27. Held requests are released. An authorized command that needs approval is not run but queued. When an
  approving decision for it arrives in the room, is verified and has a fresh nonce, and the request is
  still authorized, the command starts with the limits that hold then; the entry has left the queue and
  every other entry is still there. The queue is taken to be readable and writable.\<close>

theorem held_request_released:
  assumes "exec_request_from_json v = Some rq" "bm_get (cl_rooms (dm_client dm)) (em_room_id meta) = Some rm"
      "is_local_target dm rm (xr_target_agent rq)" "ho_key (si_host si) = Inr key"
      "xr_idempotency_key rq = ''exec:'' @ xr_invocation_id rq" "live_exec_control dm (xr_invocation_id rq) = None"
      "authorize_live_exec (si_host si) rm (exec_request_to_json rq) rq (em_room_id meta) (Some (em_sender meta)) = Inr (rq, limits)"
      "al_requires_approval limits"
    and "queue_load (si_read si) (dm_queue dm) = Inr q" "list_all pending_wf q" "queue_inv q"
      "si_queue_write si = None" "\<And>u. si_read si' (si_print si u) = Some u"
      "si_queue_write si' = None" "\<And>u. si_read si'' (si_print si' u) = Some u"
    and "dm1 = handle_routed_event si meta (REExecRequest rq) dm"
    and "em_room_id meta' = em_room_id meta" "dc_request_id d = xr_request_id rq" "decision_permits_spawn d"
      "bm_get (cl_rooms (dm_client dm1)) (em_room_id meta) = Some rm1" "read_all_agent_states rm1 = Inr agents"
      "verification_failure (ho_crypto (si_host si')) d (em_sender meta') (decision_context si' dm1 agents (em_room_id meta)) = None"
      "fst (burn_decision_nonce si' d dm1)" "ho_key (si_host si') = Inr key'"
      "authorize_live_exec (si_host si') rm1 (exec_request_to_json rq) rq (em_room_id meta) (Some (em_sender meta)) = Inr (rq, limits')"
    and "dm2 = handle_routed_event si' meta' (REApprovalDecision d) dm1"
  shows "dm_effects dm1 = dm_effects dm \<and> dm_effects dm2 = dm_effects dm @ [Spawned (em_room_id meta) rq limits'] \<and>
    (\<exists>q'. queue_load (si_read si'') (dm_queue dm2) = Inr q' \<and>
      queue_get q' k = (if k = xr_request_id rq then None else queue_get q k))"
proof -
  let ?a = "approval_request_for rq limits"
  let ?p = "\<lparr> pa_room_id = em_room_id meta, pa_request = ?a, pa_held_request = Some (HeldExec rq),
    pa_requester_user = Some (em_sender meta) \<rparr>"
  have dm1: "dm1 = hold_exec si meta rq limits ?a dm"
    using exec_held [OF assms(2-5,7,6,8)] by (simp add: assms(16))
  have id: "pa_request_id ?p = xr_request_id rq" by (simp add: pa_request_id_def approval_request_for_def)
  have wf: "pending_wf ?p"
    using exec_read_wf [OF assms(1)] by (simp add: pending_wf_def approval_request_for_def fresh_members_def held_wf_def exec_wf_def)
  have q: "queue_or_default si (dm_queue dm) = q" by (simp add: queue_or_default_def assms(9))
  have l1: "queue_load (si_read si') (dm_queue dm1) = Inr (enqueue ?p q)"
    using queue_update_load [OF assms(12,13), of "enqueue ?p" dm] enqueue_wf [OF assms(10) wf] by (simp add: dm1 held_queue q)
  have g: "queue_get (enqueue ?p q) (dc_request_id d) = Some ?p"
    using aq.put_get [OF assms(11)] by (simp add: assms(18) id)
  obtain dmb where b: "burn_decision_nonce si' d dm1 = (True, dmb)"
    using assms(23) by (cases "burn_decision_nonce si' d dm1") auto
  let ?u = "queue_update si' (\<lambda>q. snd (queue_remove (dc_request_id d) q)) dmb"
  have dm2: "dm2 = release_held si' rm1 (em_room_id meta) (HeldExec rq) (Some (em_sender meta)) ?u"
    using l1 g b assms(17,19-22) by (simp add: assms(26) handle_live_approval_decision_def Let_def)
  then have e: "dm_effects dm2 = dm_effects dm @ [Spawned (em_room_id meta) rq limits']"
      "dm_queue dm2 = dm_queue ?u"
    using assms(24,25) burn_frame(1) [OF b]
    by (simp_all add: release_held_exec_def audit_exec_released_def dm1)
      (simp add: spawn_authorized_live_exec_def Let_def accept_exec_def)
  have bq: "dm_queue dmb = dm_queue dm1"
    using b by (auto simp: burn_decision_nonce_def split: option.splits prod.splits)
  have "queue_load (si_read si'') (dm_queue ?u) = Inr (snd (queue_remove (dc_request_id d) (enqueue ?p q)))"
    using queue_update_load [OF assms(14,15), of "\<lambda>q. snd (queue_remove (dc_request_id d) q)" dmb]
      queue_remove_wf [OF enqueue_wf [OF assms(10) wf]] l1 by (simp add: queue_or_default_def bq)
  moreover have "queue_get (snd (queue_remove (dc_request_id d) (enqueue ?p q))) k =
      (if k = xr_request_id rq then None else queue_get q k)"
    using aq.rem_get [OF aq.put_invar [OF assms(11)]] aq.put_get [OF assms(11)] by (simp add: assms(18) id)
  ultimately show ?thesis
    using e by (simp add: dm1)
qed

subsection \<open>Witnesses\<close>

text \<open>Daemon b runs commands for agent a under a policy that asks for approval.\<close>

definition careful_agent :: AgentPolicy where
  "careful_agent = demo_agent \<lparr> ap_requires_approval := True \<rparr>"

definition careful_policy :: Policy where
  "careful_policy = demo_policy \<lparr> rooms := [(''!r:x'', demo_room \<lparr> rp_agents := [(''@a:x'', careful_agent)] \<rparr>)] \<rparr>"

definition careful_limits :: Allowance where
  "careful_limits = allowance_for careful_policy (demo_room \<lparr> rp_agents := [(''@a:x'', careful_agent)] \<rparr>) careful_agent"

definition careful_host :: "(string, string) Host" where
  "careful_host = (live_host demo_crypto) \<lparr> ho_policy := live_policy \<lparr> pe_toml := (\<lambda>_. Inr careful_policy) \<rparr> \<rparr>"

definition careful_site :: "(string, string) Site" where
  "careful_site = \<lparr> si_host = careful_host, si_print = sample_print, si_read = sample_read, si_queue_write = None,
     si_vars = (\<lambda>_. None), si_data_dir = ''/d'', si_audit_write = None, si_cache_print = (\<lambda>_. []), si_cache_write = None,
     si_tool = demo_tool \<rparr>"

definition demo_daemon :: Daemon where
  "demo_daemon = \<lparr> dm_client = \<lparr> cl_user_id = Some ''@b:x'', cl_resolve = Inr, cl_rooms = [(''!r:x'', live_room)] \<rparr>,
     dm_queue = Inr (sample_print (queue_to_json [])), dm_audit = (\<lambda>_. []), dm_controls = [], dm_inflight = [],
     dm_router = Some (demo_cache, demo_store), dm_effects = [] \<rparr>"

definition demo_meta :: "string \<Rightarrow> EventMeta" where
  "demo_meta sender = \<lparr> em_event_type = [], em_room_id = ''!r:x'', em_sender = sender, em_event_id = None, em_state_key = None \<rparr>"

definition demo_deciding :: "(string, string) DecideEnv" where
  "demo_deciding = \<lparr> de_crypto = demo_crypto, de_env = demo_hb_env, de_client = Inr (),
     de_key = Inr (live_key, key_id_for_verifying_key live_codec live_key), de_print = sample_print, de_read = sample_read,
     de_write = None \<rparr>"

lemma careful_host_simps [simp]:
  "ho_crypto careful_host = demo_crypto" "ho_codec careful_host = live_codec" "host_trust careful_host = host_trust (live_host demo_crypto)"
  "ho_key careful_host = Inr (live_key, key_id_for_verifying_key live_codec live_key)" "ho_env careful_host = demo_hb_env"
  "ho_device_verified careful_host u = None" "pe_rx (ho_policy careful_host) = demo_rx"
  by (simp_all add: careful_host_def host_trust_def live_host_def live_policy_def)

lemma careful_site_simps [simp]:
  "si_host careful_site = careful_host" "si_env careful_site = demo_hb_env" "si_queue_write careful_site = None"
  "si_print careful_site = sample_print" "si_read careful_site = sample_read"
  "si_cache_print careful_site = (\<lambda>_. [])" "si_cache_write careful_site = None"
  by (simp_all add: careful_site_def si_env_def)

lemma demo_meta_simps [simp]: "em_room_id (demo_meta u) = ''!r:x''" "em_sender (demo_meta u) = u"
  by (simp_all add: demo_meta_def)

lemma careful_now [simp]: "now_unix careful_site = 1000"
  by (simp add: now_unix_def demo_hb_env_def)

lemma careful_policy_resolved: "host_policy careful_host = careful_policy"
proof -
  have "validate demo_rx careful_policy = Inr ()" by code_simp
  then show ?thesis
    by (simp add: host_policy_def resolve_policy_for_enforcement_def resolve_policy_def careful_host_def live_policy_def
        default_path_def load_optional_def parse_def)
qed

lemma careful_allow:
  "evaluate_exec demo_rx careful_policy \<lparr> ec_room_id = ''!r:x'', ec_requesting_agent = ''@a:x'',
     ec_command = [''/bin/git'', ''status''], ec_cwd = ''/srv/project/sub'' \<rparr> = Allow careful_limits"
proof -
  let ?room = "demo_room \<lparr> rp_agents := [(''@a:x'', careful_agent)] \<rparr>"
  have "bm_get (rooms careful_policy) ''!r:x'' = Some ?room" "bm_get (rp_agents ?room) ''@a:x'' = Some careful_agent"
    "ap_allow_exec careful_agent" "rp_trusted ?room"
    by (simp_all add: careful_policy_def careful_agent_def demo_defs bm_get_def)
  moreover have "command_allowed ''/bin/git'' (ap_allow_commands careful_agent)"
    "cwd_allowed ''/srv/project/sub'' (ap_allow_cwd careful_agent)"
    "deny_patterns_clear demo_rx [''/bin/git'', ''status''] (ap_deny_args_regex careful_agent)"
    by code_simp+
  ultimately show ?thesis
    by (simp add: evaluate_exec_Allow careful_limits_def)
qed

lemma careful_limits_simps [simp]:
  "\<not> al_require_verified_device careful_limits" "\<not> al_require_sandbox careful_limits" "al_requires_approval careful_limits"
  by (simp_all add: careful_limits_def allowance_for_def careful_agent_def careful_policy_def demo_defs)

lemma careful_authorized:
  assumes "rq = (unsigned_exec_request (key_id_for_verifying_key live_codec live_key) ''inv_1'' ''req_1'' ''n1'' ''c'' ''e''
       live_opts) \<lparr> xr_signature := s \<rparr>" "sg_key_id s = key_id_for_verifying_key live_codec live_key"
    "exec_wf rq" "Signing.verify demo_crypto live_key (exec_request_to_json rq) = Inr ()" "rm_agents rm = rm_agents live_room"
  shows "authorize_live_exec careful_host rm (exec_request_to_json rq) rq ''!r:x'' (Some ''@a:x'') = Inr (rq, careful_limits)"
proof -
  have f: "xr_requesting_agent rq = ''a''" "xr_signature rq = s" "xr_command rq = [''/bin/git'', ''status'']"
    "xr_cwd rq = ''/srv/project/sub''" "xr_env rq = []"
    by (simp_all add: assms(1) unsigned_exec_request_def live_opts_def)
  have r: "read_agent_state rm ''a'' = Inr (Some (live_agent ''a'' ''@a:x''))"
    using live_requester(1) assms(5) by (simp add: read_agent_state_def)
  show ?thesis
    unfolding authorize_live_exec_ok [OF assms(3)] f
    using assms(2,4) r
    by (intro conjI refl exI [of _ "live_agent ''a'' ''@a:x''"] exI [of _ live_key])
      (simp_all add: live_verifying_key live_trusted careful_policy_resolved careful_allow first_disallowed_remote_override_def)
qed

lemma demo_decided:
  "\<exists>d. signed_decision demo_deciding ''req_1'' ''approved'' ''@b:x'' = Inr d"
proof -
  let ?c = "(approval_decision_for ''req_1'' ''approved'' ''@b:x'' (now_rfc3339 demo_hb_env)) \<lparr>
      dc_nonce := Some (en_nonce demo_hb_env),
      dc_expires_at := Some (approval_request_expiry (en_now demo_hb_env) APPROVAL_REQUEST_TTL) \<rparr>"
  have "decision_wf ?c" "no_float (decision_to_json ?c)"
    by (simp_all add: decision_wf_def approval_decision_for_def decision_to_json_def fresh_members_def opt_member_def)
  from sign_decision_exists [OF this, of demo_crypto live_key "key_id_for_verifying_key live_codec live_key"] show ?thesis
    by (simp add: signed_decision_def Let_def demo_deciding_def)
qed

lemma demo_expiry_parse:
  "parse_rfc3339_to_unix (approval_request_expiry (en_now demo_hb_env) APPROVAL_REQUEST_TTL) = Some 4600"
  by (simp add: approval_expiry_parse APPROVAL_REQUEST_TTL_def demo_hb_env_def)

lemma live_key_id_nonempty: "key_id_for_verifying_key live_codec live_key \<noteq> []"
  by (simp add: key_id_for_verifying_key_def KEY_ID_PREFIX_def)

lemma demo_decision_verified:
  assumes "signed_decision demo_deciding ''req_1'' ''approved'' ''@b:x'' = Inr d" "dm_client dm = cl" "cl_user_id cl = Some ''@b:x''"
  shows "verification_failure demo_crypto d ''@b:x'' (decision_context careful_site dm
      [live_agent ''a'' ''@a:x'', live_agent ''b'' ''@b:x''] ''!r:x'') = None"
    "dc_request_id d = ''req_1''" "decision_permits_spawn d" "dc_nonce d = Some ''n''"
    "dc_expires_at d = Some (approval_request_expiry (en_now demo_hb_env) APPROVAL_REQUEST_TTL)"
proof -
  have l: "signature_laws (de_crypto demo_deciding) (\<lambda>sk. sk)"
    "de_key demo_deciding = Inr (live_key, key_id_for_verifying_key live_codec live_key)" "de_env demo_deciding = demo_hb_env"
    by (simp_all add: demo_deciding_def demo_crypto_laws)
  note ok = signed_decision_ok [OF l(1,2) assms(1), unfolded l(3)]
  obtain s where d: "d = (approval_decision_for ''req_1'' ''approved'' ''@b:x'' (now_rfc3339 demo_hb_env)) \<lparr>
      dc_nonce := Some (en_nonce demo_hb_env),
      dc_expires_at := Some (approval_request_expiry (en_now demo_hb_env) APPROVAL_REQUEST_TTL), dc_signature := Some s \<rparr>"
    "sg_key_id s = key_id_for_verifying_key live_codec live_key"
    using ok(1) by blast
  have k: "bm_get (published_keys live_codec [live_agent ''a'' ''@a:x'', live_agent ''b'' ''@b:x''])
      (key_id_for_verifying_key live_codec live_key) = Some live_key"
    using live_key_id_nonempty by (simp add: published_keys_def live_verifying_key bm_get_insert) (simp add: bm_get_def)
  show "verification_failure demo_crypto d ''@b:x'' (decision_context careful_site dm
      [live_agent ''a'' ''@a:x'', live_agent ''b'' ''@b:x''] ''!r:x'') = None"
    using ok(3) k d live_trusted demo_expiry_parse assms(2,3)
    by (simp add: verification_failure_def decision_context_def user_id_or_empty_def Let_def)
      (simp add: demo_deciding_def)
  show "dc_request_id d = ''req_1''" "decision_permits_spawn d" "dc_nonce d = Some ''n''"
    "dc_expires_at d = Some (approval_request_expiry (en_now demo_hb_env) APPROVAL_REQUEST_TTL)"
    by (simp_all add: d(1) approval_decision_for_def decision_permits_spawn_def DECISION_APPROVED_def demo_hb_env_def)
qed

lemma demo_fresh_nonce:
  assumes "dc_nonce d = Some n" "dc_expires_at d = Some (approval_request_expiry (en_now demo_hb_env) APPROVAL_REQUEST_TTL)"
    "dm_router dm = Some (demo_cache, demo_store)"
  shows "fst (burn_decision_nonce careful_site d dm)"
  using assms by (simp add: burn_decision_nonce_def admit_decision_nonce_def admit_at_def demo_expiry_parse demo_cache_def
      bm_get_def persist_def Let_def evict_id case_prod_unfold)

theorem held_request_released_witness:
  "\<exists>rq d. let dm1 = handle_routed_event careful_site (demo_meta ''@a:x'') (REExecRequest rq) demo_daemon;
            dm2 = handle_routed_event careful_site (demo_meta ''@b:x'') (REApprovalDecision d) dm1
     in dm_effects dm1 = [] \<and> dm_effects dm2 = [Spawned ''!r:x'' rq careful_limits]"
proof -
  obtain s rq where rq: "rq = (unsigned_exec_request (key_id_for_verifying_key live_codec live_key) ''inv_1'' ''req_1'' ''n1''
        ''c'' ''e'' live_opts) \<lparr> xr_signature := s \<rparr>" "sg_key_id s = key_id_for_verifying_key live_codec live_key"
      "exec_wf rq" "Signing.verify demo_crypto live_key (exec_request_to_json rq) = Inr ()"
    using live_request by (elim exE conjE)
  obtain d where d: "signed_decision demo_deciding ''req_1'' ''approved'' ''@b:x'' = Inr d"
    using demo_decided by blast
  have f: "xr_invocation_id rq = ''inv_1''" "xr_request_id rq = ''req_1''" "xr_target_agent rq = ''b''"
    "xr_idempotency_key rq = ''exec:inv_1''"
    by (simp_all add: rq(1) unsigned_exec_request_def live_opts_def)
  have dm: "bm_get (cl_rooms (dm_client demo_daemon)) ''!r:x'' = Some live_room" "dm_effects demo_daemon = []"
    "is_local_target demo_daemon live_room ''b''" "live_exec_control demo_daemon ''inv_1'' = None"
    "dm_router demo_daemon = Some (demo_cache, demo_store)" "cl_user_id (dm_client demo_daemon) = Some ''@b:x''"
    using live_requester(2)
    by (simp_all add: demo_daemon_def bm_get_def is_local_target_def user_id_or_empty_def live_exec_control_def)
  have q: "queue_load sample_read (dm_queue demo_daemon) = Inr []"
    using sample_load [of "[]"] by (simp add: demo_daemon_def)
  define dm1 where "dm1 = handle_routed_event careful_site (demo_meta ''@a:x'') (REExecRequest rq) demo_daemon"
  have held: "dm1 = hold_exec careful_site (demo_meta ''@a:x'') rq careful_limits (approval_request_for rq careful_limits) demo_daemon"
    unfolding dm1_def handle_routed_event.simps
  proof (rule exec_held)
    show "authorize_live_exec (si_host careful_site) live_room (exec_request_to_json rq) rq (em_room_id (demo_meta ''@a:x''))
        (Some (em_sender (demo_meta ''@a:x''))) = Inr (rq, careful_limits)"
      using careful_authorized [OF rq refl] by (simp only: demo_meta_simps careful_site_simps)
  qed (simp_all only: demo_meta_simps careful_site_simps careful_host_simps dm f careful_limits_simps append.simps)
  obtain rm1 where r1: "bm_get (cl_rooms (dm_client dm1)) ''!r:x'' = Some rm1" "rm_agents rm1 = rm_agents live_room"
      "cl_user_id (dm_client dm1) = Some ''@b:x''" "dm_router dm1 = Some (demo_cache, demo_store)"
    unfolding held using dm(1,5,6)
    by (simp add: hold_exec_def on_room_def put_room_def bm_get_insert Let_def audit_exec_held_def
        emit_approval_request_def send_raw_def demo_hb_env_def)
  have a1: "read_all_agent_states rm1 = Inr [live_agent ''a'' ''@a:x'', live_agent ''b'' ''@b:x'']"
    using r1(2) demo_caller_room(2) by (simp add: read_all_agent_states_def)
  note v = demo_decision_verified [OF d refl r1(3)]
  have "dm_effects dm1 = dm_effects demo_daemon \<and>
    dm_effects (handle_routed_event careful_site (demo_meta ''@b:x'') (REApprovalDecision d) dm1) =
      dm_effects demo_daemon @ [Spawned (em_room_id (demo_meta ''@a:x'')) rq careful_limits] \<and>
    (\<exists>q'. queue_load (si_read careful_site) (dm_queue (handle_routed_event careful_site (demo_meta ''@b:x'')
        (REApprovalDecision d) dm1)) = Inr q' \<and>
      queue_get q' ''x'' = (if ''x'' = xr_request_id rq then None else queue_get [] ''x''))"
  proof (rule held_request_released [OF exec_wf_roundtrip [OF rq(3)]])
    show "bm_get (cl_rooms (dm_client demo_daemon)) (em_room_id (demo_meta ''@a:x'')) = Some live_room"
      "is_local_target demo_daemon live_room (xr_target_agent rq)" "live_exec_control demo_daemon (xr_invocation_id rq) = None"
      "xr_idempotency_key rq = ''exec:'' @ xr_invocation_id rq" "dc_request_id d = xr_request_id rq"
      by (simp_all only: demo_meta_simps dm f v append.simps)
    show "authorize_live_exec (si_host careful_site) live_room (exec_request_to_json rq) rq (em_room_id (demo_meta ''@a:x''))
        (Some (em_sender (demo_meta ''@a:x''))) = Inr (rq, careful_limits)"
      using careful_authorized [OF rq refl] by (simp only: demo_meta_simps careful_site_simps)
    show "authorize_live_exec (si_host careful_site) rm1 (exec_request_to_json rq) rq (em_room_id (demo_meta ''@a:x''))
        (Some (em_sender (demo_meta ''@a:x''))) = Inr (rq, careful_limits)"
      using careful_authorized [OF rq r1(2)] by (simp only: demo_meta_simps careful_site_simps)
    show "verification_failure (ho_crypto (si_host careful_site)) d (em_sender (demo_meta ''@b:x'')) (decision_context careful_site dm1
        [live_agent ''a'' ''@a:x'', live_agent ''b'' ''@b:x''] (em_room_id (demo_meta ''@a:x''))) = None"
      using v(1) by (simp only: demo_meta_simps careful_site_simps careful_host_simps)
    show "fst (burn_decision_nonce careful_site d dm1)" by (rule demo_fresh_nonce [OF v(4,5) r1(4)])
    show "bm_get (cl_rooms (dm_client dm1)) (em_room_id (demo_meta ''@a:x'')) = Some rm1"
      using r1(1) by (simp only: demo_meta_simps)
  qed (simp_all only: careful_site_simps careful_host_simps careful_limits_simps q a1 v(3) dm1_def demo_meta_simps sample_codec,
      simp_all add: queue_inv_def)
  then show ?thesis
    by (intro exI [of _ rq] exI [of _ d]) (simp only: Let_def dm1_def [symmetric] dm(2) demo_meta_simps append_Nil simp_thms)
qed

theorem decision_acts_once_witness:
  "\<exists>hold d. let dm = demo_daemon \<lparr> dm_queue := Inr (sample_print (queue_to_json [hold])) \<rparr>;
            dm1 = handle_routed_event careful_site (demo_meta ''@b:x'') (REApprovalDecision d) dm
     in dm_effects dm1 \<noteq> dm_effects dm \<and>
        dm_effects (handle_routed_event careful_site (demo_meta ''@b:x'') (REApprovalDecision d) dm1) = dm_effects dm1"
proof -
  obtain s rq where rq: "rq = (unsigned_exec_request (key_id_for_verifying_key live_codec live_key) ''inv_1'' ''req_1'' ''n1''
        ''c'' ''e'' live_opts) \<lparr> xr_signature := s \<rparr>" "sg_key_id s = key_id_for_verifying_key live_codec live_key"
      "exec_wf rq" "Signing.verify demo_crypto live_key (exec_request_to_json rq) = Inr ()"
    using live_request by (elim exE conjE)
  obtain d where d: "signed_decision demo_deciding ''req_1'' ''approved'' ''@b:x'' = Inr d"
    using demo_decided by blast
  define hold where "hold = \<lparr> pa_room_id = ''!r:x'', pa_request = approval_request_for rq careful_limits,
    pa_held_request = Some (HeldExec rq), pa_requester_user = Some ''@a:x'' \<rparr>"
  define dm where "dm = demo_daemon \<lparr> dm_queue := Inr (sample_print (queue_to_json [hold])) \<rparr>"
  have u: "cl_user_id (dm_client dm) = Some ''@b:x''" "bm_get (cl_rooms (dm_client dm)) ''!r:x'' = Some live_room"
    "dm_router dm = Some (demo_cache, demo_store)"
    by (simp_all add: dm_def demo_daemon_def bm_get_def)
  note v = demo_decision_verified [OF d refl u(1)]
  have "xr_request_id rq = ''req_1''" by (simp add: rq(1) unsigned_exec_request_def)
  then have h: "pa_request_id hold = ''req_1''" "pending_wf hold" "pa_held_request hold = Some (HeldExec rq)"
    "pa_requester_user hold = Some ''@a:x''"
    using rq(3) by (simp_all add: hold_def pa_request_id_def approval_request_for_def pending_wf_def fresh_members_def held_wf_def exec_wf_def)
  have q: "queue_load sample_read (dm_queue dm) = Inr [hold]" "queue_get [hold] ''req_1'' = Some hold"
    using sample_load [of "[hold]"] h(1,2) by (simp_all add: dm_def queue_get_def)
  obtain dmb where b: "burn_decision_nonce careful_site d dm = (True, dmb)"
    using demo_fresh_nonce [OF v(4,5) u(3)] by (cases "burn_decision_nonce careful_site d dm") auto
  have "handle_routed_event careful_site (demo_meta ''@b:x'') (REApprovalDecision d) dm =
      release_held_exec careful_site live_room ''!r:x'' rq (Some ''@a:x'')
        (queue_update careful_site (\<lambda>q. snd (queue_remove (dc_request_id d) q)) dmb)"
    using q v b u(2) h(3,4) demo_caller_room(2)
    by (simp add: handle_live_approval_decision_def Let_def)
  then have e: "dm_effects (handle_routed_event careful_site (demo_meta ''@b:x'') (REApprovalDecision d) dm) =
      dm_effects dm @ [Spawned ''!r:x'' rq careful_limits]"
    using careful_authorized [OF rq refl] burn_frame(1) [OF b]
    by (simp add: release_held_exec_def audit_exec_released_def)
  let ?none = "[] :: ((string, string) Site \<times> EventMeta \<times> RoutedEvent) list"
  have "dm_effects (handle_routed_event careful_site (demo_meta ''@b:x'') (REApprovalDecision d)
      (run_session ?none (handle_routed_event careful_site (demo_meta ''@b:x'') (REApprovalDecision d) dm))) =
    dm_effects (run_session ?none (handle_routed_event careful_site (demo_meta ''@b:x'') (REApprovalDecision d) dm))"
    by (rule decision_acts_once [where evs = "[]" and si = careful_site and meta = "demo_meta ''@b:x''", OF u(3) _ _ _ refl])
      (simp_all only: e list.simps append.simps sorted_simps, simp_all add: demo_cache_def)
  then show ?thesis
    using e by (intro exI [of _ hold] exI [of _ d]) (simp add: dm_def [symmetric] Let_def run_session_def)
qed

definition demo_cancel :: "Signature \<Rightarrow> ExecCancel" where
  "demo_cancel s = \<lparr> xc_invocation_id = ''inv_1'', xc_reason = ''stop'', xc_created_at = ''c'', xc_nonce = ''n9'', xc_signature = s, xc_extra = [] \<rparr>"

lemma demo_cancel_signed:
  "\<exists>s. sg_key_id s = key_id_for_verifying_key live_codec live_key \<and>
    Signing.verify demo_crypto live_key (exec_cancel_to_json (demo_cancel s)) = Inr ()"
proof -
  let ?k = "key_id_for_verifying_key live_codec live_key"
  obtain c where c: "build_signed_exec_cancel demo_crypto live_key ?k ''inv_1'' ''stop'' ''c'' ''n9'' = Inr c"
    using exec_cancel_signs [of demo_crypto live_key ?k] by metis
  then obtain s where s: "sg_key_id s = ?k" "c = exec_cancel_to_json (demo_cancel s)"
    by (auto simp: build_signed_exec_cancel_def exec_cancel_json_def sign_into_def sign_def and_then_eq_Inr
        exec_cancel_to_json_def demo_cancel_def SIGNATURE_FIELD_def) (metis Signature.select_convs(2))
  then show ?thesis
    using sign_into_verifies [OF demo_crypto_laws(1) c [unfolded build_signed_exec_cancel_def]] by blast
qed

theorem control_acts_once_witness:
  "\<exists>ev. let dm = demo_daemon \<lparr> dm_controls := [(''inv_1'', \<lparr> lx_requester_agent = ''a'', lx_resize = False,
             lx_seen_control_nonces = [] \<rparr>)] \<rparr>;
          dm1 = handle_routed_event careful_site (demo_meta ''@a:x'') ev dm
     in dm_effects dm1 = [CancelSent ''inv_1'' ''stop''] \<and> handle_routed_event careful_site (demo_meta ''@a:x'') ev dm1 = dm1"
proof -
  obtain s where s: "sg_key_id s = key_id_for_verifying_key live_codec live_key"
    "Signing.verify demo_crypto live_key (exec_cancel_to_json (demo_cancel s)) = Inr ()"
    using demo_cancel_signed by blast
  define dm where "dm = demo_daemon \<lparr> dm_controls := [(''inv_1'', \<lparr> lx_requester_agent = ''a'', lx_resize = False,
             lx_seen_control_nonces = [] \<rparr>)] \<rparr>"
  have r: "bm_get (cl_rooms (dm_client dm)) ''!r:x'' = Some live_room" "dm_effects dm = []"
    "live_exec_control dm ''inv_1'' = Some \<lparr> lx_requester_agent = ''a'', lx_resize = False, lx_seen_control_nonces = [] \<rparr>"
    by (simp_all add: dm_def demo_daemon_def bm_get_def live_exec_control_def)
  have a: "authorize_live_control careful_host live_room (exec_cancel_to_json (demo_cancel s))
      (key_id_for_verifying_key live_codec live_key) ''a'' = Inr ()"
    using s live_trusted
    by (simp add: authorize_live_control_def demo_caller_room authorize_control_from_states_def live_verifying_key ok_or_def map_err_def)
  have e: "dm_effects (handle_routed_event careful_site (demo_meta ''@a:x'') (REExecCancel (demo_cancel s)) dm) =
      [CancelSent ''inv_1'' ''stop'']"
    using r a s(1) by (simp add: handle_live_exec_cancel_def control_frame_def admit_control_nonce_def demo_cancel_def)
  let ?none = "[] :: ((string, string) Site \<times> EventMeta \<times> RoutedEvent) list"
  have "handle_routed_event careful_site (demo_meta ''@a:x'') (REExecCancel (demo_cancel s))
      (run_session ?none (handle_routed_event careful_site (demo_meta ''@a:x'') (REExecCancel (demo_cancel s)) dm)) =
    run_session ?none (handle_routed_event careful_site (demo_meta ''@a:x'') (REExecCancel (demo_cancel s)) dm)"
    by (rule control_acts_once [where evs = "[]" and ev = "REExecCancel (demo_cancel s)" and si = careful_site
          and meta = "demo_meta ''@a:x''", OF control_of.simps(2) control_of.simps(2) _ _ refl])
      (simp_all only: e r list.simps simp_thms list.pred_inject)
  then show ?thesis
    using e by (intro exI [of _ "REExecCancel (demo_cancel s)"]) (simp only: dm_def [symmetric] Let_def run_session_def fold_simps simp_thms)
qed

end
