(* ===== verification/Orchestrator.thy ===== *)
theory Orchestrator
  imports Scheduler Approval Audit_Log Exec_Auth
begin

text \<open>
  The task orchestrator, \<open>crates/mx-agent-daemon/src/task_orchestrator.rs\<close>: one runnable task is verified,
  put to the policy, held for approval, protected against replay, claimed, dispatched and finalized; tasks
  found executing after a restart are reconciled with their invocations. The traits \<open>TaskStore\<close> and
  \<open>TaskApprovalGate\<close> are records of operations; what an orchestrator changes while it runs is the record
  \<open>Pass\<close>, with the trace \<open>ps_runs\<close> of what was handed to the dispatcher. What it finds around it while one
  task is processed is the record \<open>Round\<close>: \<open>rd_dispatch\<close> is the dispatcher, \<open>rd_meanwhile\<close> what other
  writers do to the store while the action runs, \<open>rd_debug\<close> the quoting of \<open>{:?}\<close>.
\<close>

subsection \<open>Data\<close>

record TaskExecutionResult =
  xe_exit_code :: "int option"
  xe_summary :: string
  xe_artifact_mxc :: "string option"

definition is_success :: "TaskExecutionResult \<Rightarrow> bool" where
  "is_success r \<longleftrightarrow> xe_exit_code r = Some 0"

datatype TaskDispatchError = PolicyDenied string | DispatchFailed string

datatype TaskStoreError = StaleClaim string u64 u64 | StoreNotFound string | StoreOther string

datatype ApprovalDisposition = Approved | ApprovalDenied string | ApprovalPending string | ApprovalExpired string

datatype OrchestrationOutcome =
    OcNotAssigned string
  | OcNotRunnableState string string
  | OcBlocked string "string list"
  | OcMalformedAction string string
  | OcStaleClaim string
  | OcDenied string string
  | OcCompleted string string string
  | OcRecoveredStale string
  | OcReconciledInvocation string string
  | OcStillRunningInvocation string
  | OcStaleRemoteExecuting string string
  | OcAwaitingApproval string "string option"
  | OcStoreError string string

record Dispatch =
  dp_task :: TaskState
  dp_action :: TaskAction
  dp_invocation_id :: string
  dp_limits :: Allowance

record 's Pass =
  ps_store :: 's
  ps_replay :: "ReplayCache \<times> ReplayStore"
  ps_queue :: ApprovalQueue
  ps_last_nonce :: "string option"
  ps_audit :: "string list"
  ps_runs :: "Dispatch list"

record 's TaskStore =
  so_claim :: "UpdateTaskOptions \<Rightarrow> 's \<Rightarrow> (TaskStoreError, TaskState) result \<times> 's"
  so_finalize :: "UpdateTaskOptions \<Rightarrow> 's \<Rightarrow> (TaskStoreError, TaskState) result \<times> 's"

record ('sk, 'vk, 's) Round =
  rd_crypto :: "('sk, 'vk) crypto"
  rd_regex :: regex_engine
  rd_print :: "json \<Rightarrow> string"
  rd_debug :: "string \<Rightarrow> string"
  rd_serde_error :: string
  rd_now :: u64
  rd_end :: u64
  rd_invocation_id :: string
  rd_audit_write :: "io_kind option"
  rd_cache_print :: "StoredCache \<Rightarrow> string"
  rd_decision_write :: "io_kind option"
  rd_action_write :: "io_kind option"
  rd_forget_write :: "io_kind option"
  rd_dispatch :: "Dispatch \<Rightarrow> (TaskDispatchError, TaskExecutionResult) result"
  rd_meanwhile :: "'s \<Rightarrow> 's"

record ('sk, 'vk, 's) TaskApprovalGate =
  ga_evaluate :: "('sk, 'vk, 's) Round \<Rightarrow> TaskState \<Rightarrow> TaskAction \<Rightarrow> 's Pass \<Rightarrow> ApprovalDisposition \<times> 's Pass"
  ga_compensate_lost_claim :: "('sk, 'vk, 's) Round \<Rightarrow> 's Pass \<Rightarrow> 's Pass"

text \<open>\<open>to_audit_log\<close> and \<open>to_replay_cache\<close>: whether a log and a cache are attached. Their contents are in the
  pass, since the cache is shared with the approval gate.\<close>

record ('sk, 'vk, 's) TaskOrchestrator =
  to_agent_id :: string
  to_room_id :: "string option"
  to_policy :: "Policy option"
  to_audit_log :: bool
  to_trust_store :: "TrustStore option"
  to_verifying_keys :: "'vk bmap"
  to_replay_cache :: bool
  to_approval_gate :: "('sk, 'vk, 's) TaskApprovalGate option"

definition new_orchestrator :: "string \<Rightarrow> ('sk, 'vk, 's) TaskOrchestrator" where
  "new_orchestrator agent_id = \<lparr> to_agent_id = agent_id, to_room_id = None, to_policy = None, to_audit_log = False,
     to_trust_store = None, to_verifying_keys = [], to_replay_cache = False, to_approval_gate = None \<rparr>"

subsection \<open>Texts and results\<close>

fun format_store_error :: "(string \<Rightarrow> string) \<Rightarrow> TaskStoreError \<Rightarrow> string" where
  "format_store_error dbg (StaleClaim task_id expected current) =
     ''task '' @ dbg task_id @ '' update is stale: expected state_rev '' @ dec (unat expected) @
     '' but current is '' @ dec (unat current)"
| "format_store_error dbg (StoreNotFound task_id) = ''task '' @ dbg task_id @ '' was not found''"
| "format_store_error dbg (StoreOther reason) = reason"

fun action_error_text :: "('sk, 'vk, 's) Round \<Rightarrow> TaskActionError \<Rightarrow> string" where
  "action_error_text rd MissingAction = ''task has no action payload''"
| "action_error_text rd (InvalidAction task_id) =
     ''task '' @ rd_debug rd task_id @ '' has an invalid action payload: '' @ rd_serde_error rd"

fun deny_reason_text :: "(string \<Rightarrow> string) \<Rightarrow> DenyReason \<Rightarrow> string" where
  "deny_reason_text dbg UnknownRoom = ''no policy for requesting room''"
| "deny_reason_text dbg UntrustedRoom = ''room is not trusted for raw exec''"
| "deny_reason_text dbg UnknownAgent = ''no policy for requesting agent in this room''"
| "deny_reason_text dbg EmptyCommand = ''command argv is empty''"
| "deny_reason_text dbg ExecNotAllowed = ''raw exec is not permitted''"
| "deny_reason_text dbg (CommandNotAllowed command) = ''command '' @ dbg command @ '' is not allowlisted''"
| "deny_reason_text dbg (CwdNotAllowed cwd) = ''working directory '' @ dbg cwd @ '' is not allowlisted''"
| "deny_reason_text dbg (DeniedArguments pat) = ''arguments matched deny pattern '' @ dbg pat"
| "deny_reason_text dbg (ToolNotAllowed tool) = ''tool '' @ dbg tool @ '' is not allowlisted''"

definition dispatch_result ::
  "string \<Rightarrow> string \<Rightarrow> string \<Rightarrow> string \<Rightarrow> string \<Rightarrow> string option \<Rightarrow> TaskExecutionResult \<Rightarrow> json" where
  "dispatch_result now status completed_by invocation_id action reason output = into_value
     \<lparr> tr_status = status, tr_completed_by = completed_by, tr_completed_at = now,
       tr_invocation_id = Some invocation_id, tr_action = Some action, tr_reason = reason,
       tr_exit_code = xe_exit_code output, tr_summary = Some (xe_summary output),
       tr_artifact_mxc = xe_artifact_mxc output, tr_extra = [] \<rparr>"

definition failure_result ::
  "string \<Rightarrow> string \<Rightarrow> string option \<Rightarrow> string option \<Rightarrow> string \<Rightarrow> string option \<Rightarrow> json" where
  "failure_result now completed_by invocation_id action reason summary = into_value
     \<lparr> tr_status = STATE_FAILED, tr_completed_by = completed_by, tr_completed_at = now,
       tr_invocation_id = invocation_id, tr_action = action, tr_reason = Some reason,
       tr_exit_code = None, tr_summary = summary, tr_artifact_mxc = None, tr_extra = [] \<rparr>"

definition is_assigned :: "('sk, 'vk, 's) TaskOrchestrator \<Rightarrow> TaskState \<Rightarrow> bool" where
  "is_assigned orch task \<longleftrightarrow> tk_assigned_to task = to_agent_id orch"

definition runnable_tasks :: "('sk, 'vk, 's) TaskOrchestrator \<Rightarrow> TaskState list \<Rightarrow> TaskState list" where
  "runnable_tasks orch tasks =
     (let succeeded = succeeded_ids tasks
      in filter (\<lambda>task. unmet_dependencies task succeeded = [])
           (filter (\<lambda>task. is_runnable (tk_state task)) (filter (is_assigned orch) tasks)))"

definition evaluate_task_action ::
  "regex_engine \<Rightarrow> Policy \<Rightarrow> string \<Rightarrow> TaskState \<Rightarrow> TaskAction \<Rightarrow> Outcome" where
  "evaluate_task_action rx policy room_id task action = (case action of
       ToolAction tool _ _ \<Rightarrow> evaluate_call policy
         \<lparr> cc_room_id = room_id, cc_requesting_agent = tk_created_by task, cc_tool = tool \<rparr>
     | ExecAction command cwd _ _ _ _ \<Rightarrow> evaluate_exec rx policy
         \<lparr> ec_room_id = room_id, ec_requesting_agent = tk_created_by task, ec_command = command, ec_cwd = cwd \<rparr>)"

subsection \<open>The store and the replay cache of a pass\<close>

definition on_store :: "('s \<Rightarrow> 'a \<times> 's) \<Rightarrow> 's Pass \<Rightarrow> 'a \<times> 's Pass" where
  "on_store f ps = (case f (ps_store ps) of (r, s) \<Rightarrow> (r, ps \<lparr> ps_store := s \<rparr>))"

definition pass_admit ::
  "('sk, 'vk, 's) Round \<Rightarrow> io_kind option \<Rightarrow> string \<Rightarrow> string \<Rightarrow> 's Pass \<Rightarrow> (ReplayError, unit) result \<times> 's Pass" where
  "pass_admit rd wr nonce expires_at ps =
     (case admit_at (rd_cache_print rd) wr nonce expires_at (sint (rd_now rd)) (ps_replay ps) of
        (r, c) \<Rightarrow> (r, ps \<lparr> ps_replay := c \<rparr>))"

definition pass_forget :: "('sk, 'vk, 's) Round \<Rightarrow> string \<Rightarrow> 's Pass \<Rightarrow> 's Pass" where
  "pass_forget rd nonce ps =
     ps \<lparr> ps_replay := snd (forget (rd_cache_print rd) (rd_forget_write rd) nonce (ps_replay ps)) \<rparr>"

text \<open>The common body of the functions that block a task without running it.\<close>

definition finalize_blocked ::
  "('sk, 'vk, 's) TaskOrchestrator \<Rightarrow> ('sk, 'vk, 's) Round \<Rightarrow> 's TaskStore \<Rightarrow> TaskState \<Rightarrow> TaskAction \<Rightarrow> string
    \<Rightarrow> string \<Rightarrow> 's Pass \<Rightarrow> (OrchestrationOutcome, 'a) result \<times> 's Pass" where
  "finalize_blocked orch rd store task action reason summary ps =
     (let result = failure_result (unix_to_rfc3339 (rd_now rd)) (to_agent_id orch) (Some (rd_invocation_id rd))
            (Some (action_kind action)) reason (Some summary)
      in case on_store (so_finalize store (default_update \<lparr> ut_task_id := tk_task_id task,
             ut_state := Some STATE_BLOCKED, ut_result := Some result,
             ut_expected_state_rev := Some (tk_state_rev task) \<rparr>)) ps of
        (Inr finalized, ps') \<Rightarrow> (Inl (OcDenied (tk_task_id finalized) (rd_invocation_id rd)), ps')
      | (Inl err, ps') \<Rightarrow> (Inl (OcStoreError (tk_task_id task) (format_store_error (rd_debug rd) err)), ps'))"

definition block_unauthorized ::
  "('sk, 'vk, 's) TaskOrchestrator \<Rightarrow> ('sk, 'vk, 's) Round \<Rightarrow> 's TaskStore \<Rightarrow> TaskState \<Rightarrow> TaskAction \<Rightarrow> string
    \<Rightarrow> 's Pass \<Rightarrow> (OrchestrationOutcome, 'a) result \<times> 's Pass" where
  "block_unauthorized orch rd store task action reason =
     finalize_blocked orch rd store task action ''unauthorized'' (''task action authorization rejected: '' @ reason)"

definition block_policy_denied ::
  "('sk, 'vk, 's) TaskOrchestrator \<Rightarrow> ('sk, 'vk, 's) Round \<Rightarrow> 's TaskStore \<Rightarrow> TaskState \<Rightarrow> TaskAction \<Rightarrow> string
    \<Rightarrow> 's Pass \<Rightarrow> (OrchestrationOutcome, 'a) result \<times> 's Pass" where
  "block_policy_denied orch rd store task action reason =
     finalize_blocked orch rd store task action ''policy_denied'' reason"

definition block_approval_denied ::
  "('sk, 'vk, 's) TaskOrchestrator \<Rightarrow> ('sk, 'vk, 's) Round \<Rightarrow> 's TaskStore \<Rightarrow> TaskState \<Rightarrow> TaskAction \<Rightarrow> string
    \<Rightarrow> 's Pass \<Rightarrow> (OrchestrationOutcome, 'a) result \<times> 's Pass" where
  "block_approval_denied orch rd store task action reason =
     finalize_blocked orch rd store task action ''approval_denied'' (''task action approval denied: '' @ reason)"

definition block_approval_expired ::
  "('sk, 'vk, 's) TaskOrchestrator \<Rightarrow> ('sk, 'vk, 's) Round \<Rightarrow> 's TaskStore \<Rightarrow> TaskState \<Rightarrow> TaskAction
    \<Rightarrow> 's Pass \<Rightarrow> (OrchestrationOutcome, 'a) result \<times> 's Pass" where
  "block_approval_expired orch rd store task action =
     finalize_blocked orch rd store task action ''approval_expired'' ''approval window expired before a decision was made''"

subsection \<open>Authorization, policy, approval and replay\<close>

definition verify_task_action_authorization ::
  "('sk, 'vk, 's) TaskOrchestrator \<Rightarrow> ('sk, 'vk, 's) Round \<Rightarrow> 's TaskStore \<Rightarrow> TaskState \<Rightarrow> TaskAction
    \<Rightarrow> 's Pass \<Rightarrow> (OrchestrationOutcome, unit) result \<times> 's Pass" where
  "verify_task_action_authorization orch rd store task action ps =
     (if to_trust_store orch = None \<and> \<not> to_replay_cache orch then (Inr (), ps)
      else case authorization action of
        None \<Rightarrow> block_unauthorized orch rd store task action ''unsigned'' ps
      | Some auth \<Rightarrow>
         if au_target_agent auth \<noteq> to_agent_id orch
         then block_unauthorized orch rd store task action ''wrong_target'' ps
         else case to_trust_store orch of
           None \<Rightarrow> (Inr (), ps)
         | Some trust \<Rightarrow>
            if \<not> is_key_trusted trust (sg_key_id (au_signature auth))
            then block_unauthorized orch rd store task action ''untrusted_key'' ps
            else case bm_get (to_verifying_keys orch) (sg_key_id (au_signature auth)) of
              None \<Rightarrow> block_unauthorized orch rd store task action ''unresolved_key'' ps
            | Some verifying_key \<Rightarrow>
               (case verify_task_action_signature (rd_crypto rd) verifying_key (tk_task_id task) action auth of
                  Inr _ \<Rightarrow> (Inr (), ps)
                | Inl _ \<Rightarrow> block_unauthorized orch rd store task action ''invalid_signature'' ps))"

fun replay_reason :: "ReplayError \<Rightarrow> string" where
  "replay_reason Expired = ''expired''"
| "replay_reason Replayed = ''replayed''"
| "replay_reason MalformedTimestamp = ''malformed_expiry''"
| "replay_reason Corrupt = ''replay_cache_corrupt''"
| "replay_reason (ReplayIo _) = ''replay_cache_unavailable''"

definition admit_task_action_replay ::
  "('sk, 'vk, 's) TaskOrchestrator \<Rightarrow> ('sk, 'vk, 's) Round \<Rightarrow> 's TaskStore \<Rightarrow> TaskState \<Rightarrow> TaskAction
    \<Rightarrow> 's Pass \<Rightarrow> (OrchestrationOutcome, unit) result \<times> 's Pass" where
  "admit_task_action_replay orch rd store task action ps =
     (if \<not> to_replay_cache orch then (Inr (), ps)
      else case authorization action of
        None \<Rightarrow> block_unauthorized orch rd store task action ''unsigned'' ps
      | Some auth \<Rightarrow>
         (case pass_admit rd (rd_action_write rd) (au_nonce auth) (au_expires_at auth) ps of
            (Inr _, ps') \<Rightarrow> (Inr (), ps')
          | (Inl err, ps') \<Rightarrow> block_unauthorized orch rd store task action (replay_reason err) ps'))"

definition audit_policy_decision ::
  "('sk, 'vk, 's) TaskOrchestrator \<Rightarrow> ('sk, 'vk, 's) Round \<Rightarrow> string \<Rightarrow> TaskState \<Rightarrow> TaskAction \<Rightarrow> Outcome
    \<Rightarrow> 's Pass \<Rightarrow> 's Pass" where
  "audit_policy_decision orch rd room_id task action outcome ps =
     (if \<not> to_audit_log orch then ps
      else
        (let ts = unix_to_rfc3339 (rd_now rd);
             r = (case action of
               ToolAction tool _ _ \<Rightarrow> for_call ts room_id (tk_created_by task) (to_agent_id orch)
                 (Some (rd_invocation_id rd)) tool outcome
             | ExecAction command _ _ _ _ _ \<Rightarrow> for_exec ts room_id (tk_created_by task) (to_agent_id orch)
                 (Some (rd_invocation_id rd)) command outcome)
         in case rd_audit_write rd of
              None \<Rightarrow> ps \<lparr> ps_audit := ps_audit ps @ [to_json_line (rd_print rd) r] \<rparr>
            | Some _ \<Rightarrow> ps))"

definition authorize_task_action ::
  "('sk, 'vk, 's) TaskOrchestrator \<Rightarrow> ('sk, 'vk, 's) Round \<Rightarrow> 's TaskStore \<Rightarrow> TaskState \<Rightarrow> TaskAction
    \<Rightarrow> 's Pass \<Rightarrow> (OrchestrationOutcome, Allowance) result \<times> 's Pass" where
  "authorize_task_action orch rd store task action ps = (case to_policy orch of
       None \<Rightarrow> (Inr default_allowance, ps)
     | Some policy \<Rightarrow>
        (case to_room_id orch of
           None \<Rightarrow> block_policy_denied orch rd store task action ''policy_not_configured_for_room'' ps
         | Some room_id \<Rightarrow>
            (let outcome = evaluate_task_action (rd_regex rd) policy room_id task action;
                 ps = audit_policy_decision orch rd room_id task action outcome ps
             in case outcome of
                  Allow limits \<Rightarrow> (Inr limits, ps)
                | Deny reason \<Rightarrow> block_policy_denied orch rd store task action
                    (deny_reason_text (rd_debug rd) reason) ps)))"

definition resolve_approval ::
  "('sk, 'vk, 's) TaskOrchestrator \<Rightarrow> ('sk, 'vk, 's) Round \<Rightarrow> 's TaskStore \<Rightarrow> TaskState \<Rightarrow> TaskAction
    \<Rightarrow> 's Pass \<Rightarrow> (OrchestrationOutcome, unit) result \<times> 's Pass" where
  "resolve_approval orch rd store task action ps = (case to_approval_gate orch of
       None \<Rightarrow> (Inl (OcAwaitingApproval (tk_task_id task) None), ps)
     | Some gate \<Rightarrow>
        (case ga_evaluate gate rd task action ps of
           (Approved, ps') \<Rightarrow> (Inr (), ps')
         | (ApprovalDenied reason, ps') \<Rightarrow> block_approval_denied orch rd store task action reason ps'
         | (ApprovalPending request_id, ps') \<Rightarrow> (Inl (OcAwaitingApproval (tk_task_id task) (Some request_id)), ps')
         | (ApprovalExpired _, ps') \<Rightarrow> block_approval_expired orch rd store task action ps'))"

subsection \<open>Processing one task\<close>

definition claim_options :: "('sk, 'vk, 's) TaskOrchestrator \<Rightarrow> ('sk, 'vk, 's) Round \<Rightarrow> TaskState \<Rightarrow> UpdateTaskOptions" where
  "claim_options orch rd task = default_update \<lparr> ut_task_id := tk_task_id task, ut_state := Some STATE_EXECUTING,
     ut_assigned_to := Some (to_agent_id orch), ut_invocation_id := Some (rd_invocation_id rd),
     ut_expected_state_rev := Some (tk_state_rev task) \<rparr>"

text \<open>The branch of a lost claim: both nonces burned in this pass are given back.\<close>

definition compensate_stale_claim ::
  "('sk, 'vk, 's) TaskOrchestrator \<Rightarrow> ('sk, 'vk, 's) Round \<Rightarrow> TaskAction \<Rightarrow> Allowance \<Rightarrow> 's Pass \<Rightarrow> 's Pass" where
  "compensate_stale_claim orch rd action limits ps =
     (let ps = (case authorization action of
            Some auth \<Rightarrow> if to_replay_cache orch then pass_forget rd (au_nonce auth) ps else ps
          | None \<Rightarrow> ps)
      in if al_requires_approval limits then
           (case to_approval_gate orch of Some gate \<Rightarrow> ga_compensate_lost_claim gate rd ps | None \<Rightarrow> ps)
         else ps)"

text \<open>The terminal state and the result a dispatch leads to.\<close>

definition terminal_for ::
  "('sk, 'vk, 's) TaskOrchestrator \<Rightarrow> ('sk, 'vk, 's) Round \<Rightarrow> TaskAction \<Rightarrow> (TaskDispatchError, TaskExecutionResult) result
    \<Rightarrow> string \<times> json" where
  "terminal_for orch rd action dispatched =
     (let now = unix_to_rfc3339 (rd_end rd);
          failed = (\<lambda>why reason. (STATE_FAILED, failure_result now (to_agent_id orch) (Some (rd_invocation_id rd))
            (Some (action_kind action)) why (Some reason)))
      in case dispatched of
           Inr output \<Rightarrow>
             (let state = (if is_success output then STATE_SUCCEEDED else STATE_FAILED)
              in (state, dispatch_result now state (to_agent_id orch) (rd_invocation_id rd) (action_kind action)
                    (if state = STATE_FAILED then Some ''process_exit'' else None) output))
         | Inl (PolicyDenied reason) \<Rightarrow> failed ''policy_denied'' reason
         | Inl (DispatchFailed reason) \<Rightarrow> failed ''dispatch_failed'' reason)"

definition result_reason :: "TaskState \<Rightarrow> string option" where
  "result_reason task = (case tk_result task of
       Some (JObject ms) \<Rightarrow> (case map_of ms ''reason'' of Some (JString s) \<Rightarrow> Some s | _ \<Rightarrow> None)
     | _ \<Rightarrow> None)"

definition dispatch_claimed ::
  "('sk, 'vk, 's) TaskOrchestrator \<Rightarrow> ('sk, 'vk, 's) Round \<Rightarrow> 's TaskStore \<Rightarrow> TaskState \<Rightarrow> TaskState \<Rightarrow> TaskAction
    \<Rightarrow> Allowance \<Rightarrow> 's Pass \<Rightarrow> OrchestrationOutcome \<times> 's Pass" where
  "dispatch_claimed orch rd store task claimed action limits ps =
     (let run = \<lparr> dp_task = claimed, dp_action = action, dp_invocation_id = rd_invocation_id rd, dp_limits = limits \<rparr>;
          ps = ps \<lparr> ps_runs := ps_runs ps @ [run], ps_store := rd_meanwhile rd (ps_store ps) \<rparr>;
          (terminal, result) = terminal_for orch rd action (rd_dispatch rd run)
      in case on_store (so_finalize store (default_update \<lparr> ut_task_id := tk_task_id task, ut_state := Some terminal,
             ut_result := Some result, ut_expected_state_rev := Some (tk_state_rev claimed) \<rparr>)) ps of
        (Inr finalized, ps') \<Rightarrow>
          (if terminal = STATE_FAILED \<and> result_reason finalized = Some ''policy_denied''
           then OcDenied (tk_task_id finalized) (rd_invocation_id rd)
           else OcCompleted (tk_task_id finalized) (rd_invocation_id rd) (tk_state finalized), ps')
      | (Inl err, ps') \<Rightarrow> (OcStoreError (tk_task_id task) (format_store_error (rd_debug rd) err), ps'))"

definition claim_and_dispatch ::
  "('sk, 'vk, 's) TaskOrchestrator \<Rightarrow> ('sk, 'vk, 's) Round \<Rightarrow> 's TaskStore \<Rightarrow> TaskState \<Rightarrow> TaskAction \<Rightarrow> Allowance
    \<Rightarrow> 's Pass \<Rightarrow> OrchestrationOutcome \<times> 's Pass" where
  "claim_and_dispatch orch rd store task action limits ps =
     (case on_store (so_claim store (claim_options orch rd task)) ps of
        (Inr claimed, ps') \<Rightarrow> dispatch_claimed orch rd store task claimed action limits ps'
      | (Inl (StaleClaim _ _ _), ps') \<Rightarrow>
          (OcStaleClaim (tk_task_id task), compensate_stale_claim orch rd action limits ps')
      | (Inl err, ps') \<Rightarrow> (OcStoreError (tk_task_id task) (format_store_error (rd_debug rd) err), ps'))"

text \<open>Run the next step unless the one before ended with an outcome.\<close>

definition step_then ::
  "(OrchestrationOutcome, 'a) result \<times> 's Pass \<Rightarrow> ('a \<Rightarrow> 's Pass \<Rightarrow> OrchestrationOutcome \<times> 's Pass)
    \<Rightarrow> OrchestrationOutcome \<times> 's Pass" where
  "step_then r f = (case r of (Inl outcome, ps) \<Rightarrow> (outcome, ps) | (Inr x, ps) \<Rightarrow> f x ps)"

definition process_one ::
  "('sk, 'vk, 's) TaskOrchestrator \<Rightarrow> ('sk, 'vk, 's) Round \<Rightarrow> 's TaskStore \<Rightarrow> TaskState \<Rightarrow> TaskState list
    \<Rightarrow> 's Pass \<Rightarrow> OrchestrationOutcome \<times> 's Pass" where
  "process_one orch rd store task all_tasks ps =
     (if \<not> is_assigned orch task then (OcNotAssigned (tk_task_id task), ps)
      else if \<not> is_runnable (tk_state task) then (OcNotRunnableState (tk_task_id task) (tk_state task), ps)
      else
        (let waiting_on = unmet_dependencies task (succeeded_ids all_tasks)
         in if waiting_on \<noteq> [] then (OcBlocked (tk_task_id task) waiting_on, ps)
            else case action_from_task task of
              Inl err \<Rightarrow> (OcMalformedAction (tk_task_id task) (action_error_text rd err), ps)
            | Inr action \<Rightarrow>
               step_then (verify_task_action_authorization orch rd store task action ps) (\<lambda>_ ps.
               step_then (authorize_task_action orch rd store task action ps) (\<lambda>limits ps.
               step_then (if al_requires_approval limits then resolve_approval orch rd store task action ps
                          else (Inr (), ps)) (\<lambda>_ ps.
               step_then (admit_task_action_replay orch rd store task action ps) (\<lambda>_ ps.
               claim_and_dispatch orch rd store task action limits ps))))))"

subsection \<open>Recovery after a restart\<close>

definition recover_stale_executing ::
  "('sk, 'vk, 's) TaskOrchestrator \<Rightarrow> ('sk, 'vk, 's) Round \<Rightarrow> 's TaskStore \<Rightarrow> TaskState \<Rightarrow> string set
    \<Rightarrow> 's Pass \<Rightarrow> OrchestrationOutcome \<times> 's Pass" where
  "recover_stale_executing orch rd store task live_invocations ps =
     (if \<not> is_assigned orch task \<or> tk_state task \<noteq> STATE_EXECUTING
      then (OcNotRunnableState (tk_task_id task) (tk_state task), ps)
      else if (case tk_invocation_id task of Some i \<Rightarrow> i \<in> live_invocations | None \<Rightarrow> False)
      then (OcNotRunnableState (tk_task_id task) (tk_state task), ps)
      else
        (let result = failure_result (unix_to_rfc3339 (rd_now rd)) (to_agent_id orch) (tk_invocation_id task) None
               ''recovered_stale_invocation''
               (Some ''daemon restart found executing task without live local invocation'')
         in case on_store (so_finalize store (default_update \<lparr> ut_task_id := tk_task_id task,
                ut_state := Some STATE_FAILED, ut_result := Some result,
                ut_expected_state_rev := Some (tk_state_rev task) \<rparr>)) ps of
           (Inr finalized, ps') \<Rightarrow> (OcRecoveredStale (tk_task_id finalized), ps')
         | (Inl err, ps') \<Rightarrow> (OcStoreError (tk_task_id task) (format_store_error (rd_debug rd) err), ps')))"

definition reconcile_terminal_invocation ::
  "('sk, 'vk, 's) TaskOrchestrator \<Rightarrow> ('sk, 'vk, 's) Round \<Rightarrow> 's TaskStore \<Rightarrow> TaskState \<Rightarrow> InvocationState
    \<Rightarrow> 's Pass \<Rightarrow> OrchestrationOutcome \<times> 's Pass" where
  "reconcile_terminal_invocation orch rd store task invocation ps =
     (let state = unwrap_or (task_state_for_invocation (iv_state invocation)) STATE_FAILED;
          result = into_value (task_result_from_invocation invocation (to_agent_id orch) (unix_to_rfc3339 (rd_now rd)))
      in case on_store (so_finalize store (default_update \<lparr> ut_task_id := tk_task_id task,
             ut_state := Some state, ut_result := Some result,
             ut_expected_state_rev := Some (tk_state_rev task) \<rparr>)) ps of
        (Inr finalized, ps') \<Rightarrow> (OcReconciledInvocation (tk_task_id finalized) (tk_state finalized), ps')
      | (Inl err, ps') \<Rightarrow> (OcStoreError (tk_task_id task) (format_store_error (rd_debug rd) err), ps'))"

definition reconcile_one ::
  "('sk, 'vk, 's) TaskOrchestrator \<Rightarrow> ('sk, 'vk, 's) Round \<Rightarrow> 's TaskStore \<Rightarrow> string set \<Rightarrow> InvocationState bmap
    \<Rightarrow> TaskState \<Rightarrow> 's Pass \<Rightarrow> OrchestrationOutcome \<times> 's Pass" where
  "reconcile_one orch rd store live_invocations invocations task ps =
     (if \<not> is_assigned orch task then (OcStaleRemoteExecuting (tk_task_id task) (tk_assigned_to task), ps)
      else if (case tk_invocation_id task of Some i \<Rightarrow> i \<in> live_invocations | None \<Rightarrow> False)
      then (OcNotRunnableState (tk_task_id task) (tk_state task), ps)
      else case (case tk_invocation_id task of Some i \<Rightarrow> bm_get invocations i | None \<Rightarrow> None) of
        Some i \<Rightarrow>
          if inv_is_terminal (iv_state i) then reconcile_terminal_invocation orch rd store task i ps
          else (OcStillRunningInvocation (tk_task_id task), ps)
      | None \<Rightarrow> recover_stale_executing orch rd store task live_invocations ps)"

text \<open>A loop over tasks that collects one outcome each; the number of the iteration selects what the daemon
  finds around it then.\<close>

fun run_each :: "(nat \<Rightarrow> 'a \<Rightarrow> 's Pass \<Rightarrow> 'b \<times> 's Pass) \<Rightarrow> nat \<Rightarrow> 'a list \<Rightarrow> 's Pass \<Rightarrow> 'b list \<times> 's Pass" where
  "run_each f i [] ps = ([], ps)"
| "run_each f i (x # xs) ps = (case f i x ps of (r, ps') \<Rightarrow> (case run_each f (Suc i) xs ps' of (rs, ps'') \<Rightarrow> (r # rs, ps'')))"

definition reconcile_executing_tasks ::
  "('sk, 'vk, 's) TaskOrchestrator \<Rightarrow> (nat \<Rightarrow> ('sk, 'vk, 's) Round) \<Rightarrow> (nat \<Rightarrow> 's TaskStore) \<Rightarrow> TaskState list \<Rightarrow> string set
    \<Rightarrow> InvocationState bmap \<Rightarrow> 's Pass \<Rightarrow> OrchestrationOutcome list \<times> 's Pass" where
  "reconcile_executing_tasks orch rds stores tasks live_invocations invocations =
     run_each (\<lambda>i. reconcile_one orch (rds i) (stores i) live_invocations invocations) 0
       (filter (\<lambda>task. tk_state task = STATE_EXECUTING) tasks)"

definition recover_executing_tasks ::
  "('sk, 'vk, 's) TaskOrchestrator \<Rightarrow> (nat \<Rightarrow> ('sk, 'vk, 's) Round) \<Rightarrow> (nat \<Rightarrow> 's TaskStore) \<Rightarrow> TaskState list \<Rightarrow> string set
    \<Rightarrow> 's Pass \<Rightarrow> OrchestrationOutcome list \<times> 's Pass" where
  "recover_executing_tasks orch rds stores tasks live_invocations =
     reconcile_executing_tasks orch rds stores tasks live_invocations []"

subsection \<open>The approval gate over the queue\<close>

definition task_approval_request :: "TaskState \<Rightarrow> TaskAction \<Rightarrow> string \<Rightarrow> string \<Rightarrow> ApprovalRequest" where
  "task_approval_request task action target_agent expires_at =
     \<lparr> aq_request_id = ''approval:'' @ tk_task_id task, aq_invocation_id = [], aq_requester = tk_created_by task,
       aq_target = target_agent, aq_summary = ''Run '' @ action_kind action @ '' action for task '' @ tk_task_id task,
       aq_risk = ''medium'', aq_expires_at = expires_at, aq_extra = [] \<rparr>"

record QueueApprovalGate =
  qg_room_id :: string
  qg_target_agent :: string
  qg_expires_at :: string
  qg_now_unix :: int
  qg_replay_cache :: bool
  qg_resolve_decision :: "string \<Rightarrow> ApprovalDecision option"

definition gate_admit_decision_nonce ::
  "QueueApprovalGate \<Rightarrow> ('sk, 'vk, 's) Round \<Rightarrow> ApprovalDecision \<Rightarrow> 's Pass \<Rightarrow> bool \<times> 's Pass" where
  "gate_admit_decision_nonce g rd d ps =
     (if \<not> qg_replay_cache g then (True, ps)
      else case (dc_nonce d, dc_expires_at d) of
        (Some nonce, Some expires_at) \<Rightarrow>
          (case pass_admit rd (rd_decision_write rd) nonce expires_at ps of
             (Inr _, ps') \<Rightarrow> (True, ps' \<lparr> ps_last_nonce := Some nonce \<rparr>)
           | (Inl _, ps') \<Rightarrow> (False, ps'))
      | _ \<Rightarrow> (False, ps))"

definition gate_evaluate ::
  "QueueApprovalGate \<Rightarrow> ('sk, 'vk, 's) Round \<Rightarrow> TaskState \<Rightarrow> TaskAction \<Rightarrow> 's Pass \<Rightarrow> ApprovalDisposition \<times> 's Pass" where
  "gate_evaluate g rd task action ps =
     (let request = task_approval_request task action (qg_target_agent g) (qg_expires_at g);
          request_id = aq_request_id request;
          hold = (\<lambda>request ps. ps \<lparr> ps_queue := enqueue \<lparr> pa_room_id = qg_room_id g, pa_request = request,
            pa_held_request = None, pa_requester_user = None \<rparr> (ps_queue ps) \<rparr>);
          drop_entry = (\<lambda>ps. ps \<lparr> ps_queue := snd (queue_remove request_id (ps_queue ps)) \<rparr>)
      in case qg_resolve_decision g request_id of
           Some d \<Rightarrow>
             if decision_permits_spawn d then
               (case gate_admit_decision_nonce g rd d ps of
                  (False, ps') \<Rightarrow> (ApprovalPending request_id, hold request ps')
                | (True, ps') \<Rightarrow> (Approved, drop_entry ps'))
             else (ApprovalDenied ''approval denied by operator'', drop_entry ps)
         | None \<Rightarrow>
             (let deadline = (case queue_get (ps_queue ps) request_id of
                    Some pending \<Rightarrow> aq_expires_at (pa_request pending)
                  | None \<Rightarrow> aq_expires_at request)
              in if approval_request_expired deadline (qg_now_unix g) then (ApprovalExpired request_id, drop_entry ps)
                 else (ApprovalPending request_id, hold (request \<lparr> aq_expires_at := deadline \<rparr>) ps)))"

definition gate_compensate :: "QueueApprovalGate \<Rightarrow> ('sk, 'vk, 's) Round \<Rightarrow> 's Pass \<Rightarrow> 's Pass" where
  "gate_compensate g rd ps = (case ps_last_nonce ps of
       Some nonce \<Rightarrow>
         (let ps = ps \<lparr> ps_last_nonce := None \<rparr>
          in if qg_replay_cache g then pass_forget rd nonce ps else ps)
     | None \<Rightarrow> ps)"

definition queue_gate :: "QueueApprovalGate \<Rightarrow> ('sk, 'vk, 's) TaskApprovalGate" where
  "queue_gate g = \<lparr> ga_evaluate = gate_evaluate g, ga_compensate_lost_claim = gate_compensate g \<rparr>"

subsection \<open>Lemmas: steps that change the store only\<close>

lemma on_store_eq: "on_store f ps = (r, ps') \<longleftrightarrow> (\<exists>s. f (ps_store ps) = (r, s) \<and> ps' = ps \<lparr> ps_store := s \<rparr>)"
  by (auto simp: on_store_def split: prod.splits)

lemma finalize_blocked_eq:
  "finalize_blocked orch rd store task action reason summary ps = (r, ps') \<Longrightarrow>
   (\<exists>oc s. r = Inl oc \<and> ps' = ps \<lparr> ps_store := s \<rparr>)"
  by (auto simp: finalize_blocked_def on_store_eq Let_def split: prod.splits sum.splits)

lemma finalize_blocked_ends: "fst (finalize_blocked orch rd store task action reason summary ps) \<noteq> Inr x"
  using finalize_blocked_eq by (metis Inl_Inr_False prod.collapse)

lemmas blocks = block_unauthorized_def block_policy_denied_def block_approval_denied_def block_approval_expired_def

text \<open>What a signed action must show, and what the policy says of it.\<close>

definition signed_for_agent ::
  "('sk, 'vk, 's) TaskOrchestrator \<Rightarrow> ('sk, 'vk, 's) Round \<Rightarrow> TaskState \<Rightarrow> TaskAction \<Rightarrow> bool" where
  "signed_for_agent orch rd task action \<longleftrightarrow> (to_trust_store orch = None \<and> \<not> to_replay_cache orch) \<or>
     (case authorization action of None \<Rightarrow> False | Some auth \<Rightarrow>
        au_target_agent auth = to_agent_id orch \<and>
        (case to_trust_store orch of None \<Rightarrow> True | Some trust \<Rightarrow>
           is_key_trusted trust (sg_key_id (au_signature auth)) \<and>
           (case bm_get (to_verifying_keys orch) (sg_key_id (au_signature auth)) of None \<Rightarrow> False | Some key \<Rightarrow>
              verify_task_action_signature (rd_crypto rd) key (tk_task_id task) action auth = Inr ())))"

definition policy_allows ::
  "('sk, 'vk, 's) TaskOrchestrator \<Rightarrow> ('sk, 'vk, 's) Round \<Rightarrow> TaskState \<Rightarrow> TaskAction \<Rightarrow> Allowance \<Rightarrow> bool" where
  "policy_allows orch rd task action limits = (case to_policy orch of
       None \<Rightarrow> limits = default_allowance
     | Some policy \<Rightarrow> (case to_room_id orch of
          None \<Rightarrow> False
        | Some room_id \<Rightarrow> evaluate_task_action (rd_regex rd) policy room_id task action = Allow limits))"

text \<open>A step that touches neither the cache nor the queue and runs nothing.\<close>

definition quiet :: "'s Pass \<Rightarrow> 's Pass \<Rightarrow> bool" where
  "quiet ps ps' \<longleftrightarrow> ps_replay ps' = ps_replay ps \<and> ps_queue ps' = ps_queue ps \<and>
     ps_last_nonce ps' = ps_last_nonce ps \<and> ps_runs ps' = ps_runs ps"

lemma quiet_refl [simp]: "quiet ps ps"
  by (simp add: quiet_def)

lemma quiet_store [simp]: "quiet ps (ps \<lparr> ps_store := s \<rparr>)"
  by (simp add: quiet_def)

lemma finalize_blocked_quiet:
  "finalize_blocked orch rd store task action reason summary ps = (r, ps') \<Longrightarrow>
   quiet ps ps' \<and> isl r \<and> (\<forall>t. r \<noteq> Inl (OcStaleClaim t))"
  by (auto simp: finalize_blocked_def on_store_eq Let_def split: prod.splits sum.splits)

lemma verify_step:
  "verify_task_action_authorization orch rd store task action ps = (r, ps') \<Longrightarrow>
   (case r of Inr _ \<Rightarrow> signed_for_agent orch rd task action \<and> ps' = ps
    | Inl oc \<Rightarrow> \<not> signed_for_agent orch rd task action \<and> quiet ps ps' \<and> (\<forall>t. oc \<noteq> OcStaleClaim t))"
  by (auto simp: verify_task_action_authorization_def signed_for_agent_def blocks
      split: if_splits option.splits sum.splits dest!: finalize_blocked_quiet)

lemma verify_ok: "signed_for_agent orch rd task action \<Longrightarrow>
   verify_task_action_authorization orch rd store task action ps = (Inr (), ps)"
  using verify_step [of orch rd store task action ps]
  by (cases "verify_task_action_authorization orch rd store task action ps") (auto split: sum.splits)

lemma audit_quiet: "quiet ps (audit_policy_decision orch rd room_id task action outcome ps) \<and>
   ps_store (audit_policy_decision orch rd room_id task action outcome ps) = ps_store ps"
  by (simp add: audit_policy_decision_def Let_def quiet_def split: option.splits)

lemma policy_step:
  assumes "authorize_task_action orch rd store task action ps = (r, ps')"
  shows "quiet ps ps' \<and> (case r of
      Inr limits \<Rightarrow> policy_allows orch rd task action limits \<and> ps_store ps' = ps_store ps
    | Inl oc \<Rightarrow> (\<forall>limits. \<not> policy_allows orch rd task action limits) \<and> (\<forall>t. oc \<noteq> OcStaleClaim t))"
proof (cases "to_policy orch")
  case (Some policy)
  show ?thesis
  proof (cases "to_room_id orch")
    case None
    with assms Some show ?thesis
      by (auto simp: authorize_task_action_def policy_allows_def blocks dest!: finalize_blocked_quiet split: sum.splits)
  next
    case room: (Some room)
    let ?out = "evaluate_task_action (rd_regex rd) policy room task action"
    let ?ps = "audit_policy_decision orch rd room task action ?out ps"
    note q = audit_quiet [of ps orch rd room task action ?out]
    show ?thesis
    proof (cases ?out)
      case (Allow limits)
      with assms Some room q show ?thesis
        by (auto simp: authorize_task_action_def policy_allows_def Let_def)
    next
      case (Deny reason)
      with assms Some room have "finalize_blocked orch rd store task action ''policy_denied''
          (deny_reason_text (rd_debug rd) reason) ?ps = (r, ps')"
        by (simp add: authorize_task_action_def Let_def block_policy_denied_def)
      then have "quiet ?ps ps'" "isl r" "\<forall>t. r \<noteq> Inl (OcStaleClaim t)" by (auto dest: finalize_blocked_quiet)
      with q Deny Some room show ?thesis
        by (auto simp: policy_allows_def quiet_def isl_def)
    qed
  qed
qed (use assms in \<open>auto simp: authorize_task_action_def policy_allows_def\<close>)

lemma policy_ok:
  assumes "policy_allows orch rd task action limits"
  obtains ps' where "authorize_task_action orch rd store task action ps = (Inr limits, ps')" "quiet ps ps'"
    "ps_store ps' = ps_store ps"
proof -
  obtain r ps' where r: "authorize_task_action orch rd store task action ps = (r, ps')" by fastforce
  have "r = Inr limits"
    using policy_step [OF r] assms
    by (cases r) (auto simp: policy_allows_def split: option.splits)
  with r policy_step [OF r] that show thesis by auto
qed

subsection \<open>The interface of an approval gate\<close>

text \<open>What the orchestrator relies on: consulting the gate or giving a nonce back changes neither the store nor
  the log and runs nothing, and an approval is given only when the gate has recorded it in the cache.\<close>

locale approval_gate =
  fixes gate :: "('sk, 'vk, 's) TaskApprovalGate"
    and permits :: "TaskState \<Rightarrow> TaskAction \<Rightarrow> ApprovalDecision \<Rightarrow> bool"
  assumes evaluate_frame: "ga_evaluate gate rd task action ps = (d, ps') \<Longrightarrow>
      ps_store ps' = ps_store ps \<and> ps_audit ps' = ps_audit ps \<and> ps_runs ps' = ps_runs ps"
    and compensate_frame: "ps_store (ga_compensate_lost_claim gate rd ps) = ps_store ps \<and>
      ps_audit (ga_compensate_lost_claim gate rd ps) = ps_audit ps \<and>
      ps_runs (ga_compensate_lost_claim gate rd ps) = ps_runs ps"
    and approved: "ga_evaluate gate rd task action ps = (Approved, ps') \<Longrightarrow>
      \<exists>decision n x. permits task action decision \<and> dc_nonce decision = Some n \<and> dc_expires_at decision = Some x \<and>
        admit_at (rd_cache_print rd) (rd_decision_write rd) n x (sint (rd_now rd)) (ps_replay ps) = (Inr (), ps_replay ps') \<and>
        ps_last_nonce ps' = Some n"
    and undecided: "ga_evaluate gate rd task action ps = (d, ps') \<Longrightarrow> d \<noteq> Approved \<Longrightarrow>
      ps_replay ps' = ps_replay ps \<or>
      (\<exists>n x r. admit_at (rd_cache_print rd) (rd_decision_write rd) n x (sint (rd_now rd)) (ps_replay ps) = (r, ps_replay ps'))"
    and compensate: "ps_replay (ga_compensate_lost_claim gate rd ps) = (case ps_last_nonce ps of
        None \<Rightarrow> ps_replay ps
      | Some n \<Rightarrow> snd (forget (rd_cache_print rd) (rd_forget_write rd) n (ps_replay ps)))"
begin

lemma approval_step:
  assumes "to_approval_gate orch = Some gate" "resolve_approval orch rd store task action ps = (r, ps')"
  shows "ps_runs ps' = ps_runs ps \<and> (r = Inr () \<longrightarrow> ga_evaluate gate rd task action ps = (Approved, ps') \<and> ps_store ps' = ps_store ps)"
proof -
  obtain d ps1 where d: "ga_evaluate gate rd task action ps = (d, ps1)" by fastforce
  show ?thesis
    using assms evaluate_frame [OF d] finalize_blocked_quiet
    by (cases d) (auto simp: resolve_approval_def d blocks quiet_def dest!: finalize_blocked_quiet)
qed

end

subsection \<open>What processing one task does\<close>

lemma step_then_cases:
  assumes "step_then r f = (oc, ps')"
  obtains (ended) "r = (Inl oc, ps')" | (went) x ps1 where "r = (Inr x, ps1)" "f x ps1 = (oc, ps')"
  using assms by (auto simp: step_then_def split: prod.splits sum.splits)

lemma replay_step:
  assumes "admit_task_action_replay orch rd store task action ps = (r, ps')" "to_replay_cache orch"
  obtains (unsigned) "authorization action = None" "quiet ps ps'" "isl r"
  | (tried) auth r' where "authorization action = Some auth" "ps_runs ps' = ps_runs ps" "ps_last_nonce ps' = ps_last_nonce ps"
      "admit_at (rd_cache_print rd) (rd_action_write rd) (au_nonce auth) (au_expires_at auth) (sint (rd_now rd)) (ps_replay ps)
         = (r', ps_replay ps')"
      "r = Inr () \<longleftrightarrow> r' = Inr ()" "r = Inr () \<longrightarrow> ps_store ps' = ps_store ps"
proof (cases "authorization action")
  case None
  then show thesis
    using assms by (intro unsigned) (auto simp: admit_task_action_replay_def blocks dest!: finalize_blocked_quiet)
next
  case (Some auth)
  obtain r1 c where a: "admit_at (rd_cache_print rd) (rd_action_write rd) (au_nonce auth) (au_expires_at auth)
      (sint (rd_now rd)) (ps_replay ps) = (r1, c)" using prod.exhaust by blast
  show thesis
  proof (cases r1)
    case (Inr u)
    then show thesis
      using assms Some a by (intro tried [of auth r1]) (auto simp: admit_task_action_replay_def pass_admit_def)
  next
    case (Inl e)
    then have "quiet (ps \<lparr> ps_replay := c \<rparr>) ps'" "isl r"
      using assms Some a by (auto simp: admit_task_action_replay_def pass_admit_def blocks dest!: finalize_blocked_quiet)
    with Inl show thesis
      using Some a by (intro tried [of auth r1]) (auto simp: quiet_def isl_def)
  qed
qed

lemma dispatch_claimed_runs:
  "dispatch_claimed orch rd store task claimed action limits ps = (oc, ps') \<Longrightarrow>
   ps_replay ps' = ps_replay ps \<and>
   ps_runs ps' = ps_runs ps @ [\<lparr> dp_task = claimed, dp_action = action, dp_invocation_id = rd_invocation_id rd, dp_limits = limits \<rparr>]"
  by (auto simp: dispatch_claimed_def Let_def on_store_eq split: prod.splits sum.splits)

lemma dispatch_not_stale: "dispatch_claimed orch rd store task claimed action limits ps \<noteq> (OcStaleClaim t, ps')"
  by (simp add: dispatch_claimed_def Let_def split: prod.splits sum.splits)

lemma claim_step:
  assumes "claim_and_dispatch orch rd store task action limits ps = (oc, ps')"
  obtains (claimed) claimed s where "so_claim store (claim_options orch rd task) (ps_store ps) = (Inr claimed, s)"
      "dispatch_claimed orch rd store task claimed action limits (ps \<lparr> ps_store := s \<rparr>) = (oc, ps')"
  | (stale) s where "ps' = compensate_stale_claim orch rd action limits (ps \<lparr> ps_store := s \<rparr>)"
  | (broken) "quiet ps ps'" "\<forall>t. oc \<noteq> OcStaleClaim t"
  using assms by (auto simp: claim_and_dispatch_def on_store_eq split: prod.splits sum.splits TaskStoreError.splits)

lemma pass_forget_frame [simp]:
  "ps_store (pass_forget rd n ps) = ps_store ps" "ps_runs (pass_forget rd n ps) = ps_runs ps"
  "ps_audit (pass_forget rd n ps) = ps_audit ps" "ps_last_nonce (pass_forget rd n ps) = ps_last_nonce ps"
  by (simp_all add: pass_forget_def)

lemma process_one_cases:
  assumes "process_one orch rd store task all ps = (oc, ps')" "to_replay_cache orch"
  obtains (quiet) "quiet ps ps'" "\<forall>t. oc \<noteq> OcStaleClaim t"
  | (approval) ps1 limits action where "quiet ps ps1" "ps_store ps1 = ps_store ps" "resolve_approval orch rd store task action ps1 = (Inl oc, ps')"
      "policy_allows orch rd task action limits" "al_requires_approval limits"
  | (replay) ps1 ps2 limits action where "quiet ps ps1" "ps_store ps1 = ps_store ps"
      "is_assigned orch task" "is_runnable (tk_state task)" "unmet_dependencies task (succeeded_ids all) = []"
      "action_from_task task = Inr action" "signed_for_agent orch rd task action" "policy_allows orch rd task action limits"
      "if al_requires_approval limits then resolve_approval orch rd store task action ps1 = (Inr (), ps2) else ps2 = ps1"
      "step_then (admit_task_action_replay orch rd store task action ps2)
         (\<lambda>_ ps. claim_and_dispatch orch rd store task action limits ps) = (oc, ps')"
proof (cases "is_assigned orch task \<and> is_runnable (tk_state task) \<and> unmet_dependencies task (succeeded_ids all) = [] \<and>
    \<not> isl (action_from_task task)")
  case False
  then show thesis
    using assms(1) by (intro quiet) (auto simp: process_one_def Let_def split: if_splits sum.splits)
next
  case True
  then obtain action where act: "action_from_task task = Inr action" by (cases "action_from_task task") auto
  let ?approve = "\<lambda>limits ps. if al_requires_approval limits then resolve_approval orch rd store task action ps else (Inr (), ps)"
  have p: "step_then (verify_task_action_authorization orch rd store task action ps) (\<lambda>_ ps.
               step_then (authorize_task_action orch rd store task action ps) (\<lambda>limits ps.
               step_then (?approve limits ps) (\<lambda>_ ps.
               step_then (admit_task_action_replay orch rd store task action ps) (\<lambda>_ ps.
               claim_and_dispatch orch rd store task action limits ps)))) = (oc, ps')"
    using assms(1) True act by (simp add: process_one_def Let_def)
  show thesis
  proof (cases rule: step_then_cases [OF p])
    case 1
    then show thesis using verify_step [OF 1] by (intro quiet) auto
  next
    case (2 x ps0)
    have v: "signed_for_agent orch rd task action" "ps0 = ps" using verify_step [OF 2(1)] by auto
    show thesis
    proof (cases rule: step_then_cases [OF 2(2)])
      case 1
      then show thesis using policy_step [OF 1] v(2) by (intro quiet) simp_all
    next
      case p: (2 limits ps1)
      have q: "quiet ps ps1" "policy_allows orch rd task action limits" "ps_store ps1 = ps_store ps"
        using policy_step [OF p(1)] v(2) by auto
      show thesis
      proof (cases rule: step_then_cases [OF p(2)])
        case 1
        then have "al_requires_approval limits" "resolve_approval orch rd store task action ps1 = (Inl oc, ps')"
          by (auto split: if_splits)
        with q show thesis by (intro approval [of ps1 action limits]) auto
      next
        case a: (2 y ps2)
        then show thesis
          using q v act True by (intro replay [of ps1 action limits ps2]) (auto split: if_splits)
      qed
    qed
  qed
qed

subsection \<open>Nonces over a pass\<close>

text \<open>The request \<open>(n, e)\<close> stays spent over a step at \<open>now\<close> that adds at most \<open>k\<close> nonces.\<close>

definition keeps_spent :: "string \<Rightarrow> int \<Rightarrow> int \<Rightarrow> nat \<Rightarrow> ReplayCache \<times> ReplayStore \<Rightarrow> ReplayCache \<times> ReplayStore \<Rightarrow> bool" where
  "keeps_spent n e now k s s' \<longleftrightarrow> spent n e now (fst s') \<and> rc_capacity (fst s') = rc_capacity (fst s) \<and>
     length (rc_nonces (fst s')) \<le> length (rc_nonces (fst s)) + k"

lemma keeps_spent_trans:
  "keeps_spent n e now j s s' \<Longrightarrow> keeps_spent n e now k s' s'' \<Longrightarrow> keeps_spent n e now (j + k) s s''"
  by (simp add: keeps_spent_def)

lemma keeps_spent_mono: "keeps_spent n e now j s s' \<Longrightarrow> j \<le> k \<Longrightarrow> keeps_spent n e now k s s'"
  by (simp add: keeps_spent_def)

lemma admit_keeps:
  assumes "admit_at enc wr m x now s = (r, s')" "spent n e now (fst s)"
    and "length (rc_nonces (fst s)) < rc_capacity (fst s)"
  shows "keeps_spent n e now 1 s s'" "r = Inr () \<Longrightarrow> m \<noteq> n \<or> e \<le> now"
proof -
  obtain c st c' st' where s: "s = (c, st)" "s' = (c', st')" by (metis prod.exhaust)
  show "keeps_spent n e now 1 s s'"
    using spent_step [of n e now c now enc wr m x st r c' st'] admit_length [of enc wr m x now c st r c' st'] assms
    by (simp add: s keeps_spent_def)
  have "admit_at enc wr m x now (c, st) = (r, c', st')" using assms(1) by (simp add: s)
  then show "m \<noteq> n \<or> e \<le> now" if "r = Inr ()"
    by (cases rule: admit_at_cases) (use assms(2) that in \<open>force simp: s spent_def seen_def bm_get_None image_iff\<close>)+
qed

lemma forget_keeps:
  assumes "spent n e now (fst s)" "m \<noteq> n \<or> e \<le> now"
  shows "keeps_spent n e now 0 s (snd (forget enc wr m s))"
proof -
  obtain c st where s: "s = (c, st)" by (cases s)
  show ?thesis
    using assms by (auto simp: s keeps_spent_def forget_def Let_def spent_def bm_remove_def split: prod.splits)
qed

context approval_gate
begin

lemma compensate_keeps:
  assumes "to_approval_gate orch = Some gate" "spent n e now (fst (ps_replay ps))"
    and "\<And>auth. authorization action = Some auth \<Longrightarrow> au_nonce auth \<noteq> n \<or> e \<le> now"
    and "al_requires_approval limits \<Longrightarrow> case ps_last_nonce ps of None \<Rightarrow> True | Some m \<Rightarrow> m \<noteq> n \<or> e \<le> now"
  shows "keeps_spent n e now 0 (ps_replay ps) (ps_replay (compensate_stale_claim orch rd action limits ps)) \<and>
    ps_runs (compensate_stale_claim orch rd action limits ps) = ps_runs ps"
proof -
  let ?ps = "case authorization action of
      Some auth \<Rightarrow> if to_replay_cache orch then pass_forget rd (au_nonce auth) ps else ps | None \<Rightarrow> ps"
  have k: "keeps_spent n e now 0 (ps_replay ps) (ps_replay ?ps)"
    using assms(2,3) forget_keeps [OF assms(2)]
    by (auto simp: pass_forget_def keeps_spent_def split: option.splits)
  have f: "ps_last_nonce ?ps = ps_last_nonce ps" "ps_runs ?ps = ps_runs ps" by (simp_all split: option.splits)
  show ?thesis
  proof (cases "al_requires_approval limits")
    case True
    have "keeps_spent n e now 0 (ps_replay ?ps) (ps_replay (ga_compensate_lost_claim gate rd ?ps))"
      using k assms(4) [OF True] forget_keeps [of n e now "ps_replay ?ps"]
      by (auto simp: compensate f keeps_spent_def split: option.splits)
    then show ?thesis
      using keeps_spent_trans [OF k] compensate_frame [of rd ?ps] True assms(1) f
      by (simp add: compensate_stale_claim_def Let_def)
  next
    case False
    then show ?thesis using k f by (simp add: compensate_stale_claim_def Let_def)
  qed
qed

lemma approval_keeps:
  assumes "to_approval_gate orch = Some gate" "resolve_approval orch rd store task action ps = (r, ps')"
    and "spent n e (sint (rd_now rd)) (fst (ps_replay ps))" "length (rc_nonces (fst (ps_replay ps))) < rc_capacity (fst (ps_replay ps))"
  shows "keeps_spent n e (sint (rd_now rd)) 1 (ps_replay ps) (ps_replay ps') \<and>
    (r = Inr () \<longrightarrow> (case ps_last_nonce ps' of None \<Rightarrow> True | Some m \<Rightarrow> m \<noteq> n \<or> e \<le> sint (rd_now rd)))"
proof -
  obtain d ps1 where d: "ga_evaluate gate rd task action ps = (d, ps1)" using prod.exhaust by blast
  have k: "keeps_spent n e (sint (rd_now rd)) 1 (ps_replay ps) (ps_replay ps1)"
  proof (cases "ps_replay ps1 = ps_replay ps")
    case False
    then obtain m x r where "admit_at (rd_cache_print rd) (rd_decision_write rd) m x (sint (rd_now rd)) (ps_replay ps) = (r, ps_replay ps1)"
      using undecided [OF d] approved [of rd task action ps ps1] d by (cases "d = Approved") auto
    from admit_keeps(1) [OF this assms(3,4)] show ?thesis .
  qed (use assms(3) in \<open>simp add: keeps_spent_def\<close>)
  show ?thesis
  proof (cases "r = Inr ()")
    case True
    then have a: "ga_evaluate gate rd task action ps = (Approved, ps')" using approval_step [OF assms(1,2)] by simp
    obtain m x where m: "admit_at (rd_cache_print rd) (rd_decision_write rd) m x (sint (rd_now rd)) (ps_replay ps) = (Inr (), ps_replay ps')"
        "ps_last_nonce ps' = Some m"
      using approved [OF a] by blast
    have "m \<noteq> n \<or> e \<le> sint (rd_now rd)" using admit_keeps(2) [OF m(1) assms(3,4)] by simp
    with k d a m(2) show ?thesis by simp
  next
    case False
    then have "ps_replay ps' = ps_replay ps1"
      using assms(1,2) d
      by (cases d) (auto simp: resolve_approval_def blocks quiet_def dest!: finalize_blocked_quiet)
    with k False show ?thesis by simp
  qed
qed

lemma claim_keeps:
  assumes "to_approval_gate orch = Some gate" "claim_and_dispatch orch rd store task action limits ps = (oc, ps')"
    and "spent n e now (fst (ps_replay ps))"
    and "\<And>auth. authorization action = Some auth \<Longrightarrow> au_nonce auth \<noteq> n \<or> e \<le> now"
    and "al_requires_approval limits \<Longrightarrow> case ps_last_nonce ps of None \<Rightarrow> True | Some m \<Rightarrow> m \<noteq> n \<or> e \<le> now"
  shows "keeps_spent n e now 0 (ps_replay ps) (ps_replay ps')"
  using assms(2)
proof (cases rule: claim_step)
  case (claimed c s)
  then show ?thesis using dispatch_claimed_runs [OF claimed(2)] assms(3) by (simp add: keeps_spent_def)
next
  case (stale s)
  then show ?thesis
    using compensate_keeps [OF assms(1), where ps = "ps \<lparr> ps_store := s \<rparr>" and limits = limits and action = action and rd = rd and n = n and e = e and now = now]
      assms(3-5) by simp
next
  case broken
  then show ?thesis using assms(3) by (simp add: quiet_def keeps_spent_def)
qed

lemma process_one_keeps:
  assumes "to_approval_gate orch = Some gate" "to_replay_cache orch"
    and "process_one orch rd store task all ps = (oc, ps')"
    and "spent n e (sint (rd_now rd)) (fst (ps_replay ps))" "length (rc_nonces (fst (ps_replay ps))) + 2 \<le> rc_capacity (fst (ps_replay ps))"
  shows "keeps_spent n e (sint (rd_now rd)) 2 (ps_replay ps) (ps_replay ps')"
  using assms(3,2)
proof (cases rule: process_one_cases)
  case quiet
  then show ?thesis using assms(4) by (simp add: quiet_def keeps_spent_def)
next
  case (approval ps1 limits action)
  then have e: "ps_replay ps1 = ps_replay ps" by (simp add: quiet_def)
  show ?thesis
    using approval_keeps [OF assms(1) approval(3), of n e] assms(4,5) by (simp add: e keeps_spent_mono)
next
  case (replay ps1 ps2 limits action)
  let ?now = "sint (rd_now rd)"
  have e: "ps_replay ps1 = ps_replay ps" using replay(1) by (simp add: quiet_def)
  have k2: "keeps_spent n e ?now 1 (ps_replay ps) (ps_replay ps2) \<and>
    (al_requires_approval limits \<longrightarrow> (case ps_last_nonce ps2 of None \<Rightarrow> True | Some m \<Rightarrow> m \<noteq> n \<or> e \<le> ?now))"
  proof (cases "al_requires_approval limits")
    case True
    then show ?thesis
      using approval_keeps [OF assms(1), of rd store task action ps1 "Inr ()" ps2 n e] replay(9) assms(4,5) by (simp add: e)
  next
    case False
    then show ?thesis using replay(9) assms(4) by (simp add: e keeps_spent_def)
  qed
  have room: "spent n e ?now (fst (ps_replay ps2))" "length (rc_nonces (fst (ps_replay ps2))) < rc_capacity (fst (ps_replay ps2))"
    using k2 assms(5) by (auto simp: keeps_spent_def)
  obtain r ps3 where r: "admit_task_action_replay orch rd store task action ps2 = (r, ps3)" using prod.exhaust by blast
  have k3: "keeps_spent n e ?now 1 (ps_replay ps2) (ps_replay ps3) \<and> ps_last_nonce ps3 = ps_last_nonce ps2 \<and>
    (r = Inr () \<longrightarrow> (\<forall>auth. authorization action = Some auth \<longrightarrow> au_nonce auth \<noteq> n \<or> e \<le> ?now))"
    using r assms(2)
  proof (cases rule: replay_step)
    case unsigned
    then show ?thesis using room by (auto simp: quiet_def keeps_spent_def)
  next
    case (tried auth r')
    then show ?thesis using admit_keeps [OF tried(4) room] by auto
  qed
  have k23: "keeps_spent n e ?now 2 (ps_replay ps) (ps_replay ps3)"
    using keeps_spent_trans [OF conjunct1 [OF k2] conjunct1 [OF k3]] by (simp add: numeral_2_eq_2)
  show ?thesis
  proof (cases r)
    case (Inl o1)
    then show ?thesis using replay(10) r k23 by (simp add: step_then_def)
  next
    case (Inr u)
    then have c: "claim_and_dispatch orch rd store task action limits ps3 = (oc, ps')"
      using replay(10) r by (simp add: step_then_def)
    have "keeps_spent n e ?now 0 (ps_replay ps3) (ps_replay ps')"
      using k2 k3 Inr by (intro claim_keeps [OF assms(1) c]) (auto simp: keeps_spent_def)
    from keeps_spent_trans [OF k23 this] show ?thesis by simp
  qed
qed

end


subsection \<open>What is handed to the dispatcher\<close>

definition run_authorized ::
  "('sk, 'vk, 's) TaskOrchestrator \<Rightarrow> ('sk, 'vk, 's) Round \<Rightarrow> TaskState \<Rightarrow> TaskState list \<Rightarrow> Dispatch \<Rightarrow> bool" where
  "run_authorized orch rd task tasks run \<longleftrightarrow>
     is_assigned orch task \<and> is_runnable (tk_state task) \<and> list_all (\<lambda>d. d \<in> succeeded_ids tasks) (tk_depends_on task) \<and>
     action_from_task task = Inr (dp_action run) \<and> signed_for_agent orch rd task (dp_action run) \<and>
     policy_allows orch rd task (dp_action run) (dp_limits run) \<and> dp_invocation_id run = rd_invocation_id rd"

text \<open>A nonce that the cache admits in the round.\<close>

definition fresh_nonce ::
  "('sk, 'vk, 's) Round \<Rightarrow> io_kind option \<Rightarrow> string \<Rightarrow> string \<Rightarrow> ReplayCache \<times> ReplayStore \<Rightarrow> ReplayCache \<times> ReplayStore \<Rightarrow> bool" where
  "fresh_nonce rd wr n x s s' \<longleftrightarrow> admit_at (rd_cache_print rd) wr n x (sint (rd_now rd)) s = (Inr (), s')"

definition unexpired :: "int \<Rightarrow> ReplayCache \<times> ReplayStore \<Rightarrow> (string \<times> int) set" where
  "unexpired now s = {kv \<in> set (rc_nonces (fst s)). now < snd kv}"

lemma fresh_nonce_entries:
  assumes "fresh_nonce rd wr n x s s'" "length (rc_nonces (fst s)) < rc_capacity (fst s)"
  shows "\<exists>e. sint (rd_now rd) < e \<and> n \<notin> fst ` set (rc_nonces (fst s)) \<and> rc_capacity (fst s') = rc_capacity (fst s) \<and>
    rc_nonces (fst s') = (n, e) # filter (\<lambda>(_, e). e > sint (rd_now rd)) (rc_nonces (fst s))"
proof -
  have a: "admit_at (rd_cache_print rd) wr n x (sint (rd_now rd)) (fst s, snd s) = (Inr (), fst s', snd s')"
    using assms(1) by (simp add: fresh_nonce_def)
  have "length (filter (\<lambda>(_, e). e > sint (rd_now rd)) (rc_nonces (fst s))) < rc_capacity (fst s)"
    using assms(2) le_less_trans length_filter_le by blast
  from a this show ?thesis
    by (cases rule: admit_at_cases) (auto simp: seen_def bm_get_None evict_id)
qed

lemma forget_entries: "set (rc_nonces (fst (snd (forget enc wr n s)))) = {kv \<in> set (rc_nonces (fst s)). fst kv \<noteq> n}"
  by (cases s) (force simp: forget_def Let_def bm_remove_def bm_get_None split: prod.splits)

text \<open>Admitting a nonce and forgetting it leaves the unexpired entries.\<close>

lemma give_back:
  assumes "fresh_nonce rd wr n x s s'" "length (rc_nonces (fst s)) < rc_capacity (fst s)"
  shows "set (rc_nonces (fst (snd (forget enc wr' n s')))) = unexpired (sint (rd_now rd)) s"
  using fresh_nonce_entries [OF assms] by (force simp: forget_entries unexpired_def)

lemma no_dependency_left: "unmet_dependencies task done = [] \<longleftrightarrow> list_all (\<lambda>d. d \<in> done) (tk_depends_on task)"
  by (auto simp: unmet_dependencies_def filter_empty_conv list_all_iff)

context approval_gate
begin

lemma approval_released:
  assumes "to_approval_gate orch = Some gate"
    and "if al_requires_approval limits then resolve_approval orch rd store task action ps = (Inr (), ps') else ps' = ps"
  shows "ps_store ps' = ps_store ps \<and> ps_runs ps' = ps_runs ps \<and>
    (if al_requires_approval limits
     then \<exists>d n x. permits task action d \<and> dc_nonce d = Some n \<and> dc_expires_at d = Some x \<and>
       fresh_nonce rd (rd_decision_write rd) n x (ps_replay ps) (ps_replay ps')
     else ps_replay ps' = ps_replay ps)"
proof (cases "al_requires_approval limits")
  case True
  with assms have a: "ga_evaluate gate rd task action ps = (Approved, ps')" and f: "ps_store ps' = ps_store ps" "ps_runs ps' = ps_runs ps"
    using approval_step [OF assms(1)] by simp_all
  then show ?thesis using True approved [OF a] unfolding fresh_nonce_def by auto
qed (use assms in simp)

lemma process_one_run:
  assumes "to_approval_gate orch = Some gate" "to_replay_cache orch"
    and "process_one orch rd store task tasks ps = (oc, ps')"
  obtains (none) "ps_runs ps' = ps_runs ps"
  | (run) run auth c s where "ps_runs ps' = ps_runs ps @ [run]" "run_authorized orch rd task tasks run"
      "if al_requires_approval (dp_limits run)
       then \<exists>d n x. permits task (dp_action run) d \<and> dc_nonce d = Some n \<and> dc_expires_at d = Some x \<and>
         fresh_nonce rd (rd_decision_write rd) n x (ps_replay ps) c
       else c = ps_replay ps"
      "authorization (dp_action run) = Some auth"
      "fresh_nonce rd (rd_action_write rd) (au_nonce auth) (au_expires_at auth) c (ps_replay ps')"
      "so_claim store (claim_options orch rd task) (ps_store ps) = (Inr (dp_task run), s)"
  using assms(3,2)
proof (cases rule: process_one_cases)
  case quiet
  then show thesis using none by (simp add: quiet_def)
next
  case (approval ps1 limits action)
  then show thesis
    using none approval_step [OF assms(1) approval(3)] by (simp add: quiet_def)
next
  case (replay ps1 ps2 limits action)
  note rel = approval_released [OF assms(1) replay(9)]
  have ps1: "ps_replay ps1 = ps_replay ps" "ps_runs ps1 = ps_runs ps" using replay(1) by (simp_all add: quiet_def)
  obtain r ps3 where r: "admit_task_action_replay orch rd store task action ps2 = (r, ps3)" using prod.exhaust by blast
  have r3: "ps_runs ps3 = ps_runs ps2"
    using r assms(2) by (cases rule: replay_step) (simp_all add: quiet_def)
  show thesis
  proof (cases r)
    case (Inl o1)
    then show thesis using none replay(10) r r3 rel ps1 by (simp add: step_then_def)
  next
    case (Inr u)
    have ok: "\<exists>auth. authorization action = Some auth \<and> ps_store ps3 = ps_store ps2 \<and>
        fresh_nonce rd (rd_action_write rd) (au_nonce auth) (au_expires_at auth) (ps_replay ps2) (ps_replay ps3)"
      using r assms(2) by (cases rule: replay_step) (use Inr in \<open>auto simp: fresh_nonce_def\<close>)
    then obtain auth where auth: "authorization action = Some auth" "ps_store ps3 = ps_store ps2"
        "fresh_nonce rd (rd_action_write rd) (au_nonce auth) (au_expires_at auth) (ps_replay ps2) (ps_replay ps3)"
      by blast
    have "claim_and_dispatch orch rd store task action limits ps3 = (oc, ps')"
      using replay(10) r Inr by (simp add: step_then_def)
    then show thesis
    proof (cases rule: claim_step)
      case (claimed claimed s)
      let ?run = "\<lparr> dp_task = claimed, dp_action = action, dp_invocation_id = rd_invocation_id rd, dp_limits = limits \<rparr>"
      note d = dispatch_claimed_runs [OF claimed(2)]
      show thesis
      proof (rule run [of ?run "ps_replay ps2" auth s])
        show "ps_runs ps' = ps_runs ps @ [?run]" using d r3 rel ps1 by simp
        show "run_authorized orch rd task tasks ?run"
          using replay by (simp add: run_authorized_def no_dependency_left)
        show "fresh_nonce rd (rd_action_write rd) (au_nonce auth) (au_expires_at auth) (ps_replay ps2) (ps_replay ps')"
          using auth(3) d by simp
        show "so_claim store (claim_options orch rd task) (ps_store ps) = (Inr (dp_task ?run), s)"
          using claimed(1) auth(2) rel replay(2) by simp
        show "if al_requires_approval (dp_limits ?run)
          then \<exists>d n x. permits task (dp_action ?run) d \<and> dc_nonce d = Some n \<and> dc_expires_at d = Some x \<and>
            fresh_nonce rd (rd_decision_write rd) n x (ps_replay ps) (ps_replay ps2)
          else ps_replay ps2 = ps_replay ps"
          using conjunct2 [OF conjunct2 [OF rel]] unfolding ps1 by (simp only: Dispatch.select_convs)
      qed (simp add: auth(1))
    next
      case (stale s)
      have "ps_runs ps' = ps_runs ps3"
        using compensate_frame assms(1) by (simp add: stale compensate_stale_claim_def Let_def split: option.splits)
      then show thesis using none r3 rel ps1 by simp
    next
      case broken
      then show thesis using none r3 rel ps1 by (simp add: quiet_def)
    qed
  qed
qed

text \<open>A lost claim gives back what the pass took from the cache.\<close>

lemma lost_claim_cache:
  assumes "to_approval_gate orch = Some gate" "to_replay_cache orch"
    and "process_one orch rd store task tasks ps = (OcStaleClaim t, ps')"
    and "length (rc_nonces (fst (ps_replay ps))) + 2 \<le> rc_capacity (fst (ps_replay ps))"
  shows "set (rc_nonces (fst (ps_replay ps'))) = unexpired (sint (rd_now rd)) (ps_replay ps) \<and> ps_runs ps' = ps_runs ps"
  using assms(3,2)
proof (cases rule: process_one_cases)
  case (approval ps1 limits action)
  then show ?thesis
    using assms(1) finalize_blocked_quiet
    by (auto simp: resolve_approval_def blocks dest!: finalize_blocked_quiet split: prod.splits ApprovalDisposition.splits)
next
  case (replay ps1 ps2 limits action)
  let ?now = "sint (rd_now rd)"
  note rel = approval_released [OF assms(1) replay(9)]
  have ps1: "ps_replay ps1 = ps_replay ps" "ps_runs ps1 = ps_runs ps" using replay(1) by (simp_all add: quiet_def)
  obtain r ps3 where r: "admit_task_action_replay orch rd store task action ps2 = (r, ps3)" using prod.exhaust by blast
  have "r = Inr ()"
  proof (cases r)
    case (Inl o1)
    then have "o1 = OcStaleClaim t" using replay(10) r by (simp add: step_then_def)
    with r Inl show ?thesis
      by (auto simp: admit_task_action_replay_def blocks dest!: finalize_blocked_quiet split: if_splits option.splits prod.splits sum.splits)
  qed simp
  have "\<exists>auth. authorization action = Some auth \<and> ps_last_nonce ps3 = ps_last_nonce ps2 \<and> ps_runs ps3 = ps_runs ps2 \<and>
      fresh_nonce rd (rd_action_write rd) (au_nonce auth) (au_expires_at auth) (ps_replay ps2) (ps_replay ps3)"
    using r assms(2) by (cases rule: replay_step) (use \<open>r = Inr ()\<close> in \<open>auto simp: fresh_nonce_def\<close>)
  then obtain auth where auth: "authorization action = Some auth" "ps_last_nonce ps3 = ps_last_nonce ps2" "ps_runs ps3 = ps_runs ps2"
      "fresh_nonce rd (rd_action_write rd) (au_nonce auth) (au_expires_at auth) (ps_replay ps2) (ps_replay ps3)"
    by blast
  have c: "claim_and_dispatch orch rd store task action limits ps3 = (OcStaleClaim t, ps')"
    using replay(10) r \<open>r = Inr ()\<close> by (simp add: step_then_def)
  then obtain s where s: "ps' = compensate_stale_claim orch rd action limits (ps3 \<lparr> ps_store := s \<rparr>)"
    by (cases rule: claim_step) (auto simp: dispatch_not_stale)
  let ?f = "pass_forget rd (au_nonce auth) (ps3 \<lparr> ps_store := s \<rparr>)"
  have ps': "ps' = (if al_requires_approval limits then ga_compensate_lost_claim gate rd ?f else ?f)"
    using auth(1) assms(1,2) by (simp add: s compensate_stale_claim_def Let_def)
  have f: "ps_replay ?f = snd (forget (rd_cache_print rd) (rd_forget_write rd) (au_nonce auth) (ps_replay ps3))"
    by (simp add: pass_forget_def)
  show ?thesis
  proof (cases "al_requires_approval limits")
    case False
    then have "ps_replay ps2 = ps_replay ps" using rel ps1 by simp
    with False give_back [OF auth(4) _, where enc = "rd_cache_print rd" and wr' = "rd_forget_write rd"] assms(4) f ps' auth(3) rel ps1
    show ?thesis by simp
  next
    case True
    have "\<exists>dn x. fresh_nonce rd (rd_decision_write rd) dn x (ps_replay ps) (ps_replay ps2) \<and> ps_last_nonce ps2 = Some dn"
    proof -
      have "ga_evaluate gate rd task action ps1 = (Approved, ps2)"
        using replay(9) True approval_step [OF assms(1)] by simp
      from approved [OF this] show ?thesis unfolding fresh_nonce_def ps1 by blast
    qed
    then obtain dn x where d: "fresh_nonce rd (rd_decision_write rd) dn x (ps_replay ps) (ps_replay ps2)" "ps_last_nonce ps2 = Some dn"
      by blast
    obtain e where e: "?now < e" "dn \<notin> fst ` set (rc_nonces (fst (ps_replay ps)))"
        "rc_capacity (fst (ps_replay ps2)) = rc_capacity (fst (ps_replay ps))"
        "rc_nonces (fst (ps_replay ps2)) = (dn, e) # filter (\<lambda>(_, e). e > ?now) (rc_nonces (fst (ps_replay ps)))"
      using fresh_nonce_entries [OF d(1)] assms(4) by auto
    have l2: "length (rc_nonces (fst (ps_replay ps2))) < rc_capacity (fst (ps_replay ps2))"
      using assms(4) length_filter_le [of "\<lambda>(_, e). e > ?now" "rc_nonces (fst (ps_replay ps))"] unfolding e(3,4) list.size by linarith
    have "ps_replay ps' = snd (forget (rd_cache_print rd) (rd_forget_write rd) dn (ps_replay ?f))"
      using True compensate [of rd ?f] d(2) auth(2) by (simp add: ps')
    then have "set (rc_nonces (fst (ps_replay ps'))) = {kv \<in> set (rc_nonces (fst (ps_replay ?f))). fst kv \<noteq> dn}"
      by (simp add: forget_entries)
    also have "set (rc_nonces (fst (ps_replay ?f))) = unexpired ?now (ps_replay ps2)"
      unfolding f by (rule give_back [OF auth(4) l2])
    also have "{kv \<in> unexpired ?now (ps_replay ps2). fst kv \<noteq> dn} = unexpired ?now (ps_replay ps)"
      using e(1,2) by (force simp: unexpired_def e(4))
    finally show ?thesis
      using True ps' compensate_frame [of rd ?f] auth(3) rel ps1 by simp
  qed
qed simp

text \<open>An action whose nonce is spent is not run.\<close>

lemma spent_not_run:
  assumes "to_approval_gate orch = Some gate" "to_replay_cache orch"
    and "process_one orch rd store task tasks ps = (oc, ps')"
    and "spent n e (sint (rd_now rd)) (fst (ps_replay ps))" "length (rc_nonces (fst (ps_replay ps))) + 2 \<le> rc_capacity (fst (ps_replay ps))"
    and "action_from_task task = Inr action" "authorization action = Some auth" "au_nonce auth = n"
      "parse_rfc3339_to_unix (au_expires_at auth) = Some e"
  shows "ps_runs ps' = ps_runs ps"
  using assms(1-3)
proof (cases rule: process_one_run)
  case (run run auth' c s)
  have a: "dp_action run = action" "auth' = auth"
    using run(2,4) assms(6,7) by (simp_all add: run_authorized_def)
  have "spent n e (sint (rd_now rd)) (fst c)"
  proof (cases "al_requires_approval (dp_limits run)")
    case True
    then obtain m x where "fresh_nonce rd (rd_decision_write rd) m x (ps_replay ps) c" using run(3) by auto
    then have "keeps_spent n e (sint (rd_now rd)) 1 (ps_replay ps) c"
      using assms(4,5) by (intro admit_keeps(1)) (auto simp: fresh_nonce_def)
    then show ?thesis by (simp add: keeps_spent_def)
  qed (use run(3) assms(4) in simp)
  moreover have "admit_at (rd_cache_print rd) (rd_action_write rd) n (au_expires_at auth) (sint (rd_now rd)) (fst c, snd c) =
      (Inr (), fst (ps_replay ps'), snd (ps_replay ps'))"
    using run(5) assms(8) by (simp add: a fresh_nonce_def)
  ultimately show ?thesis using spent_denied assms(9) by blast
qed

end

text \<open>Without an approval to wait for, an authorized task with a fresh nonce gets to the claim.\<close>

lemma process_one_proceeds:
  assumes "run_authorized orch rd task tasks run" "\<not> al_requires_approval (dp_limits run)" "to_replay_cache orch"
    and "authorization (dp_action run) = Some auth"
    and "fresh_nonce rd (rd_action_write rd) (au_nonce auth) (au_expires_at auth) (ps_replay ps) c"
  obtains ps2 where "process_one orch rd store task tasks ps = claim_and_dispatch orch rd store task (dp_action run) (dp_limits run) ps2"
    "ps_store ps2 = ps_store ps" "ps_runs ps2 = ps_runs ps" "ps_replay ps2 = c" "ps_queue ps2 = ps_queue ps"
proof -
  have a: "is_assigned orch task" "is_runnable (tk_state task)" "unmet_dependencies task (succeeded_ids tasks) = []"
      "action_from_task task = Inr (dp_action run)" "signed_for_agent orch rd task (dp_action run)"
      "policy_allows orch rd task (dp_action run) (dp_limits run)"
    using assms(1) by (simp_all add: run_authorized_def no_dependency_left)
  obtain ps1 where p: "authorize_task_action orch rd store task (dp_action run) ps = (Inr (dp_limits run), ps1)" "quiet ps ps1"
      "ps_store ps1 = ps_store ps"
    by (rule policy_ok [OF a(6)])
  have "admit_task_action_replay orch rd store task (dp_action run) ps1 = (Inr (), ps1 \<lparr> ps_replay := c \<rparr>)"
    using assms(3-5) p(2) by (simp add: admit_task_action_replay_def pass_admit_def fresh_nonce_def quiet_def)
  then have "process_one orch rd store task tasks ps =
      claim_and_dispatch orch rd store task (dp_action run) (dp_limits run) (ps1 \<lparr> ps_replay := c \<rparr>)"
    using a p(1) assms(2) by (simp add: process_one_def Let_def verify_ok step_then_def)
  then show thesis using p(2,3) by (intro that [of "ps1 \<lparr> ps_replay := c \<rparr>"]) (simp_all add: quiet_def)
qed

subsection \<open>The queue as a gate\<close>

lemma queue_gate_frame:
  "gate_evaluate g rd task action ps = (d, ps') \<Longrightarrow>
   ps_store ps' = ps_store ps \<and> ps_audit ps' = ps_audit ps \<and> ps_runs ps' = ps_runs ps"
  by (auto simp: gate_evaluate_def Let_def gate_admit_decision_nonce_def pass_admit_def
      split: option.splits if_splits prod.splits sum.splits)

interpretation qg: approval_gate "queue_gate (g \<lparr> qg_replay_cache := True \<rparr>)"
  "\<lambda>task action d. qg_resolve_decision g (''approval:'' @ tk_task_id task) = Some d \<and> decision_permits_spawn d" for g
proof
  fix rd :: "('a, 'b, 'c) Round" and task action and ps ps' :: "'c Pass" and d
  let ?g = "g \<lparr> qg_replay_cache := True \<rparr>"
  show "ps_store ps' = ps_store ps \<and> ps_audit ps' = ps_audit ps \<and> ps_runs ps' = ps_runs ps"
    if "ga_evaluate (queue_gate ?g) rd task action ps = (d, ps')"
    using that by (intro queue_gate_frame) (simp add: queue_gate_def)
  show "ps_store (ga_compensate_lost_claim (queue_gate ?g) rd ps) = ps_store ps \<and>
      ps_audit (ga_compensate_lost_claim (queue_gate ?g) rd ps) = ps_audit ps \<and>
      ps_runs (ga_compensate_lost_claim (queue_gate ?g) rd ps) = ps_runs ps"
    by (simp add: queue_gate_def gate_compensate_def Let_def split: option.splits)
  show "\<exists>decision n x. (qg_resolve_decision g (''approval:'' @ tk_task_id task) = Some decision \<and> decision_permits_spawn decision) \<and>
        dc_nonce decision = Some n \<and> dc_expires_at decision = Some x \<and>
        admit_at (rd_cache_print rd) (rd_decision_write rd) n x (sint (rd_now rd)) (ps_replay ps) = (Inr (), ps_replay ps') \<and>
        ps_last_nonce ps' = Some n"
    if "ga_evaluate (queue_gate ?g) rd task action ps = (Approved, ps')"
    using that
    by (auto simp: queue_gate_def gate_evaluate_def Let_def gate_admit_decision_nonce_def pass_admit_def task_approval_request_def
        split: option.splits if_splits prod.splits sum.splits)
  show "ps_replay ps' = ps_replay ps \<or>
      (\<exists>n x r. admit_at (rd_cache_print rd) (rd_decision_write rd) n x (sint (rd_now rd)) (ps_replay ps) = (r, ps_replay ps'))"
    if "ga_evaluate (queue_gate ?g) rd task action ps = (d, ps')" "d \<noteq> Approved"
    using that
    by (auto simp: queue_gate_def gate_evaluate_def Let_def gate_admit_decision_nonce_def pass_admit_def task_approval_request_def
        split: option.splits if_splits prod.splits sum.splits)
  show "ps_replay (ga_compensate_lost_claim (queue_gate ?g) rd ps) = (case ps_last_nonce ps of
        None \<Rightarrow> ps_replay ps
      | Some n \<Rightarrow> snd (forget (rd_cache_print rd) (rd_forget_write rd) n (ps_replay ps)))"
    by (simp add: queue_gate_def gate_compensate_def Let_def pass_forget_def split: option.splits)
qed

end
