(* ===== verification/Task_Dispatch.thy ===== *)
theory Task_Dispatch
  imports Orchestrator Live_Handlers
begin

text \<open>
  The dispatchers that run an authorized task action: in process (\<open>crates/mx-agent-daemon/src/task_dispatch.rs\<close>),
  through the signed Matrix transport (\<open>task_dispatch_matrix.rs\<close>), and the one that routes by the kind of the
  action (\<open>RoutingDispatcher\<close> of \<open>scheduler_loop.rs\<close>). What they start is a parameter: the runner of tools,
  the runner of commands, and the calls that start a remote call or command. A dispatcher is a function of the
  hand-over record \<open>Dispatch\<close> of the orchestrator.
\<close>

type_synonym dispatcher = "Dispatch \<Rightarrow> (TaskDispatchError, TaskExecutionResult) result"

subsection \<open>In process\<close>

record ToolResult =
  tl_exit_code :: int
  tl_summary :: string

text \<open>An error of the runner of tools is the text of the error.\<close>

type_synonym task_tool_runner = "string \<Rightarrow> json \<Rightarrow> Allowance \<Rightarrow> string \<Rightarrow> (string, ToolResult) result"

definition tool_dispatch :: "(string \<Rightarrow> string) \<Rightarrow> string option \<Rightarrow> task_tool_runner \<Rightarrow> dispatcher" where
  "tool_dispatch dbg current_dir run_tool d = (case dp_action d of
       ToolAction tool args _ \<Rightarrow>
         (case run_tool tool args (dp_limits d) (unwrap_or current_dir ''.'') of
            Inr result \<Rightarrow> Inr \<lparr> xe_exit_code = Some (tl_exit_code result), xe_summary = tl_summary result, xe_artifact_mxc = None \<rparr>
          | Inl err \<Rightarrow> Inl (DispatchFailed (''tool '' @ dbg tool @ '' could not be invoked: '' @ err)))
     | ExecAction _ _ _ _ _ _ \<Rightarrow> Inl (DispatchFailed ''exec action cannot run through the tool dispatcher''))"

record ExecRunRequest =
  er_command :: "string list"
  er_cwd :: string
  er_env :: "string bmap"
  er_timeout_ms :: "u64 option"
  er_sandbox :: Backend
  er_network :: Network
  er_read_only_paths :: "string list"
  er_writable_paths :: "string list"
  er_env_allowlist :: "string list"
  er_container_runtime :: Runtime
  er_container_image :: "string option"
  er_resources :: ResourceLimits
  er_seccomp :: SeccompMode
  er_run_uid :: "u32 option"
  er_run_gid :: "u32 option"

text \<open>\<open>ids\<close> is the user and group of the daemon process.\<close>

definition container_run_identity :: "u32 \<times> u32 \<Rightarrow> Backend \<Rightarrow> u32 option \<times> u32 option" where
  "container_run_identity ids backend =
     (if backend = BackendContainer then (Some (fst ids), Some (snd ids)) else (None, None))"

definition signed_dec :: "int \<Rightarrow> string" where
  "signed_dec i = (if i < 0 then CHR ''-'' # dec (nat (- i)) else dec (nat i))"

definition exec_result_from_output :: "RunOutput \<Rightarrow> string option \<Rightarrow> TaskExecutionResult" where
  "exec_result_from_output output artifact_mxc =
     \<lparr> xe_exit_code = (case rn_exit_code output of Some code \<Rightarrow> Some code | None \<Rightarrow> Some (128 + unwrap_or (rn_signal output) 0)),
       xe_summary =
         (if rn_timed_out output then ''exec command timed out''
          else case rn_exit_code output of
            Some code \<Rightarrow> ''exec command exited with code '' @ signed_dec code
          | None \<Rightarrow> (case rn_signal output of
              Some signal \<Rightarrow> ''exec command terminated by signal '' @ signed_dec signal
            | None \<Rightarrow> ''exec command finished'')),
       xe_artifact_mxc = artifact_mxc \<rparr>"

definition exec_dispatch :: "u32 \<times> u32 \<Rightarrow> (ExecRunRequest \<Rightarrow> (string, RunOutput) result) \<Rightarrow> dispatcher" where
  "exec_dispatch ids run_command d = (let limits = dp_limits d in case dp_action d of
       ExecAction command cwd env timeout_ms _ _ \<Rightarrow>
         if isl (check_sandbox_floor limits)
         then Inl (PolicyDenied ''execution.require_sandbox is set but the resolved sandbox backend is none'')
         else
           (let backend = sandbox_backend (al_sandbox limits);
                identity = container_run_identity ids backend;
                request = \<lparr> er_command = command, er_cwd = cwd, er_env = env, er_timeout_ms = timeout_ms,
                  er_sandbox = backend, er_network = network_for (al_network limits),
                  er_read_only_paths = al_read_only_paths limits, er_writable_paths = al_writable_paths limits,
                  er_env_allowlist = al_env_allowlist limits,
                  er_container_runtime = container_runtime_for (al_sandbox limits),
                  er_container_image = al_container_image limits, er_resources = resource_limits_for limits,
                  er_seccomp = seccomp_for (al_seccomp limits), er_run_uid = fst identity, er_run_gid = snd identity \<rparr>
            in case run_command request of
                 Inr output \<Rightarrow> Inr (exec_result_from_output output None)
               | Inl err \<Rightarrow> Inl (DispatchFailed (''exec command could not be run: '' @ err)))
     | ToolAction _ _ _ \<Rightarrow> Inl (DispatchFailed ''tool action cannot run through the exec dispatcher''))"

definition routing_dispatch :: "dispatcher \<Rightarrow> dispatcher \<Rightarrow> dispatcher" where
  "routing_dispatch tool exec d = (case dp_action d of
       ToolAction _ _ _ \<Rightarrow> tool d
     | ExecAction _ _ _ _ _ _ \<Rightarrow> exec d)"

subsection \<open>Over Matrix\<close>

record CallStartParams =
  cp_room :: "string option"
  cp_agent :: "string option"
  cp_tool :: string
  cp_input :: json
  cp_invocation_id :: "string option"

record CallStartResult =
  cs_invocation_id :: string
  cs_request_id :: string
  cs_outcome :: CallOutcome

datatype ExecFrame = ChunkFrame StreamChunk | ArtifactFrame StreamArtifact | FinishedFrame ExecFinished

datatype ExecErrorKind = EkNotFound | EkEmptyCommand | EkSpawn | EkRemote | EkTimeout

datatype ExecOutcome = ExecOk "ExecFrame list" | ExecFailed ExecErrorKind string

record ExecStartParams =
  xp_room :: "string option"
  xp_agent :: "string option"
  xp_command :: "string list"
  xp_cwd :: "string option"
  xp_stdin :: "string option"
  xp_stream :: bool
  xp_pty :: bool
  xp_task :: "string option"
  xp_strict_stream :: bool
  xp_invocation_id :: "string option"
  xp_env :: "string bmap"
  xp_timeout_ms :: "u64 option"

record ExecStartResult =
  xs_invocation_id :: string
  xs_request_id :: string
  xs_outcome :: ExecOutcome

definition map_call_outcome :: "CallStartResult \<Rightarrow> (TaskDispatchError, TaskExecutionResult) result" where
  "map_call_outcome result = (case cs_outcome result of
       CallOk exit_code summary \<Rightarrow> Inr \<lparr> xe_exit_code = Some exit_code,
         xe_summary = summary @ '' (remote call '' @ cs_invocation_id result @ '')'', xe_artifact_mxc = None \<rparr>
     | CallFailed _ message \<Rightarrow> Inl (DispatchFailed (''remote call failed: '' @ message)))"

text \<open>The loop over the frames: the first artifact with a content address and the last finished frame.\<close>

fun scan_frame :: "ExecFrame \<Rightarrow> string option \<times> ExecFinished option \<Rightarrow> string option \<times> ExecFinished option" where
  "scan_frame (ArtifactFrame a) (mxc, fin) =
     (if sa_mxc_uri a \<noteq> [] then (Some (unwrap_or mxc (sa_mxc_uri a)), fin) else (mxc, fin))"
| "scan_frame (FinishedFrame f) (mxc, fin) = (mxc, Some f)"
| "scan_frame (ChunkFrame _) (mxc, fin) = (mxc, fin)"

definition map_exec_outcome :: "ExecStartResult \<Rightarrow> (TaskDispatchError, TaskExecutionResult) result" where
  "map_exec_outcome result = (case xs_outcome result of
       ExecFailed _ message \<Rightarrow> Inl (DispatchFailed (''remote exec failed: '' @ message))
     | ExecOk frames \<Rightarrow>
        (case fold scan_frame frames (None, None) of
           (artifact_mxc, Some finished) \<Rightarrow>
             (let summary = ''remote exec '' @ xs_invocation_id result @
                (case xf_exit_code finished of
                   Some code \<Rightarrow> '' exited with code '' @ signed_dec code
                 | None \<Rightarrow> (case xf_signal finished of
                     Some signal \<Rightarrow> '' terminated by signal '' @ signal
                   | None \<Rightarrow> '' finished''))
              in Inr \<lparr> xe_exit_code = xf_exit_code finished, xe_summary = summary, xe_artifact_mxc = artifact_mxc \<rparr>)
         | (_, None) \<Rightarrow>
             Inl (DispatchFailed (''remote exec '' @ xs_invocation_id result @ '' produced no terminal frame''))))"

definition matrix_call_dispatch :: "string \<Rightarrow> (CallStartParams \<Rightarrow> CallStartResult) \<Rightarrow> dispatcher" where
  "matrix_call_dispatch room run_call d = (case dp_action d of
       ToolAction tool args _ \<Rightarrow> map_call_outcome (run_call \<lparr> cp_room = Some room,
         cp_agent = Some (tk_assigned_to (dp_task d)), cp_tool = tool, cp_input = args,
         cp_invocation_id = Some (dp_invocation_id d) \<rparr>)
     | ExecAction _ _ _ _ _ _ \<Rightarrow> Inl (DispatchFailed ''exec action cannot run through the Matrix call dispatcher''))"

definition matrix_exec_dispatch :: "string \<Rightarrow> (ExecStartParams \<Rightarrow> ExecStartResult) \<Rightarrow> dispatcher" where
  "matrix_exec_dispatch room run_exec d = (case dp_action d of
       ExecAction command cwd env timeout_ms stream _ \<Rightarrow> map_exec_outcome (run_exec \<lparr> xp_room = Some room,
         xp_agent = Some (tk_assigned_to (dp_task d)), xp_command = command, xp_cwd = Some cwd, xp_stdin = None,
         xp_stream = stream, xp_pty = False, xp_task = Some (tk_task_id (dp_task d)), xp_strict_stream = False,
         xp_invocation_id = Some (dp_invocation_id d), xp_env = env, xp_timeout_ms = timeout_ms \<rparr>)
     | ToolAction _ _ _ \<Rightarrow> Inl (DispatchFailed ''tool action cannot run through the Matrix exec dispatcher''))"

subsection \<open>Lemmas\<close>

lemma filter_head: "filter P xs = y # ys \<Longrightarrow> P y"
  by (auto simp: filter_eq_Cons_iff)

lemma scan_frames:
  "fold scan_frame frames (mxc, fin) =
   (or_opt mxc (case filter (\<lambda>f. case f of ArtifactFrame a \<Rightarrow> sa_mxc_uri a \<noteq> [] | _ \<Rightarrow> False) frames of
       ArtifactFrame a # _ \<Rightarrow> Some (sa_mxc_uri a) | _ \<Rightarrow> None),
    case filter (\<lambda>f. case f of FinishedFrame _ \<Rightarrow> True | _ \<Rightarrow> False) (List.rev frames) of
       FinishedFrame f # _ \<Rightarrow> Some f | _ \<Rightarrow> fin)"
proof (induction frames arbitrary: mxc fin)
  case Nil
  then show ?case by (cases mxc) (simp_all add: or_opt_def)
next
  case (Cons f fs)
  let ?fins = "filter (\<lambda>f. case f of FinishedFrame _ \<Rightarrow> True | _ \<Rightarrow> False) (List.rev fs)"
  have fins: "?fins = [] \<or> (\<exists>x xs. ?fins = FinishedFrame x # xs)"
  proof (cases ?fins)
    case (Cons y ys)
    then have "\<exists>x. y = FinishedFrame x" by (cases y) (auto dest: filter_head)
    with Cons show ?thesis by blast
  qed simp
  show ?case
    using Cons.IH fins by (cases f) (auto simp: or_opt_def unwrap_or_def split: option.splits)
qed

text \<open>Whatever a command writes, its output takes no part in what is recorded of it.\<close>

lemma result_ignores_output:
  "exec_result_from_output (out \<lparr> rn_stdout := a, rn_stderr := b \<rparr>) mxc = exec_result_from_output out mxc"
  by (cases "rn_exit_code out") (simp_all add: exec_result_from_output_def)

text \<open>A command dispatch starts at most the command of the action, confined as the allowance says, and nothing
  where the sandbox floor is not met.\<close>

lemma exec_dispatch_floor:
  "check_sandbox_floor (dp_limits d) = Inl () \<Longrightarrow>
   exec_dispatch ids run d = exec_dispatch ids run' d"
  by (simp add: exec_dispatch_def Let_def split: TaskAction.splits)

lemma exec_dispatch_success:
  assumes "dp_action d = ExecAction command cwd env t s auth" "check_sandbox_floor (dp_limits d) = Inr ()"
    and "\<And>rq. er_command rq = command \<Longrightarrow> er_cwd rq = cwd \<Longrightarrow> run rq = Inr out"
  shows "(case exec_dispatch ids run d of Inr r \<Rightarrow> is_success r \<longleftrightarrow>
      rn_exit_code out = Some 0 \<or> (rn_exit_code out = None \<and> rn_signal out = Some (- 128)) | Inl _ \<Rightarrow> False)"
  using assms
  by (auto simp: exec_dispatch_def Let_def is_success_def exec_result_from_output_def unwrap_or_def split: option.splits)

end
