(* ===== verification/Scheduler_Tick.thy ===== *)
theory Scheduler_Tick
  imports Task_Dispatch
begin

text \<open>
  The scheduler loop, \<open>crates/mx-agent-daemon/src/scheduler_loop.rs\<close>: the store over the task events of a
  room, the tick that reconciles executing tasks and processes the runnable ones, the configuration of the
  orchestrator and the gate for a local agent, a pass over the joined rooms and an iteration of the loop. The
  number of an iteration inside a tick selects what the daemon finds around it then (clock, fresh ids, outcomes
  of writes, the result of a dispatch, the answers of the homeserver to the claim and to the final write).
\<close>

subsection \<open>The store over a room\<close>

text \<open>\<open>other_text\<close> is the message of an error of the Matrix client.\<close>

definition workspace_to_store_error :: "(WorkspaceError \<Rightarrow> string) \<Rightarrow> WorkspaceError \<Rightarrow> TaskStoreError" where
  "workspace_to_store_error other_text err = (case err of
       StaleTaskUpdate task_id expected current \<Rightarrow> StaleClaim task_id expected current
     | TaskNotFound task_id \<Rightarrow> StoreNotFound task_id
     | _ \<Rightarrow> StoreOther (other_text err))"

text \<open>The room and the states this pass has written, by task id.\<close>

type_synonym matrix_store = "Room \<times> (TaskState \<times> string option) bmap"

text \<open>The closure given to the store: a task that the room shows as finished is left alone, the state written
  last in this pass goes before the one read from the room.\<close>

definition scheduler_update ::
  "Env \<Rightarrow> UpdateTaskOptions \<Rightarrow> matrix_store \<Rightarrow> (WorkspaceError, TaskState) result \<times> matrix_store" where
  "scheduler_update env options s = (case s of (rm, write_cache) \<Rightarrow>
     let stale = (case read_task_state rm (ut_task_id options) of
           Inr (Some (latest, _)) \<Rightarrow>
             if is_terminal (tk_state latest)
             then Some (StaleTaskUpdate (ut_task_id options)
               (unwrap_or (ut_expected_state_rev options) (tk_state_rev latest)) (tk_state_rev latest))
             else None
         | _ \<Rightarrow> None)
     in case stale of
       Some err \<Rightarrow> (Inl err, s)
     | None \<Rightarrow>
        (case (case bm_get write_cache (ut_task_id options) of
             Some found \<Rightarrow> Inr found
           | None \<Rightarrow> and_then (read_task_state rm (ut_task_id options)) (\<lambda>v. ok_or v (TaskNotFound (ut_task_id options)))) of
           Inl err \<Rightarrow> (Inl err, s)
         | Inr (current, event_id) \<Rightarrow>
            (case apply_and_publish_task env current event_id options rm of
               (Inl err, rm') \<Rightarrow> (Inl err, (rm', write_cache))
             | (Inr (updated, _), rm') \<Rightarrow>
                (Inr updated, (rm', bm_insert (tk_task_id updated) (updated, None) write_cache)))))"

definition store_apply ::
  "(WorkspaceError \<Rightarrow> string) \<Rightarrow> string \<Rightarrow> Env \<Rightarrow> UpdateTaskOptions \<Rightarrow> matrix_store
    \<Rightarrow> (TaskStoreError, TaskState) result \<times> matrix_store" where
  "store_apply other_text room env options s =
     (case scheduler_update env (options \<lparr> ut_room := room \<rparr>) s of
        (r, s') \<Rightarrow> (map_err (workspace_to_store_error other_text) r, s'))"

definition matrix_task_store :: "(WorkspaceError \<Rightarrow> string) \<Rightarrow> string \<Rightarrow> Env \<times> Env \<Rightarrow> matrix_store TaskStore" where
  "matrix_task_store other_text room envs =
     \<lparr> so_claim = store_apply other_text room (fst envs), so_finalize = store_apply other_text room (snd envs) \<rparr>"

subsection \<open>The tick\<close>

fun claimed_invocation_id :: "OrchestrationOutcome \<Rightarrow> string option" where
  "claimed_invocation_id (OcCompleted _ invocation_id _) = Some invocation_id"
| "claimed_invocation_id (OcDenied _ invocation_id) = Some invocation_id"
| "claimed_invocation_id _ = None"

fun is_awaiting :: "OrchestrationOutcome \<Rightarrow> bool" where
  "is_awaiting (OcAwaitingApproval _ _) = True"
| "is_awaiting _ = False"

record 's Tick =
  tc_claimed :: "string set"
  tc_attempted :: "(string \<times> u64) set"
  tc_pass :: "'s Pass"

text \<open>The body of the loop over the runnable ids.\<close>

definition attempt_task ::
  "('sk, 'vk, 's) TaskOrchestrator \<Rightarrow> ('sk, 'vk, 's) Round \<Rightarrow> 's TaskStore \<Rightarrow> TaskState list \<Rightarrow> string \<Rightarrow> 's Tick
    \<Rightarrow> OrchestrationOutcome list \<times> 's Tick" where
  "attempt_task orch rd store snapshot task_id tick = (case find (\<lambda>t. tk_task_id t = task_id) snapshot of
       None \<Rightarrow> ([], tick)
     | Some task \<Rightarrow>
        (let key = (tk_task_id task, tk_state_rev task)
         in if key \<in> tc_attempted tick then ([], tick)
            else case process_one orch rd store task snapshot (tc_pass tick) of
              (outcome, ps) \<Rightarrow>
                ([outcome], \<lparr> tc_claimed = (case claimed_invocation_id outcome of
                     Some i \<Rightarrow> insert i (tc_claimed tick) | None \<Rightarrow> tc_claimed tick),
                   tc_attempted = (if is_awaiting outcome then tc_attempted tick else insert key (tc_attempted tick)),
                   tc_pass = ps \<rparr>)))"

fun attempt_all ::
  "('sk, 'vk, 's) TaskOrchestrator \<Rightarrow> (nat \<Rightarrow> ('sk, 'vk, 's) Round) \<Rightarrow> (nat \<Rightarrow> 's TaskStore) \<Rightarrow> TaskState list \<Rightarrow> nat
    \<Rightarrow> string list \<Rightarrow> 's Tick \<Rightarrow> OrchestrationOutcome list \<times> 's Tick" where
  "attempt_all orch rds stores snapshot i [] tick = ([], tick)"
| "attempt_all orch rds stores snapshot i (task_id # ids) tick =
     (case attempt_task orch (rds i) (stores i) snapshot task_id tick of (os, tick') \<Rightarrow>
      case attempt_all orch rds stores snapshot (Suc i) ids tick' of (os', tick'') \<Rightarrow> (os @ os', tick''))"

definition run_scheduler_tick ::
  "TaskScheduler \<Rightarrow> ('sk, 'vk, 's) TaskOrchestrator \<Rightarrow> (nat \<Rightarrow> ('sk, 'vk, 's) Round) \<Rightarrow> (nat \<Rightarrow> 's TaskStore) \<Rightarrow> TaskState list
    \<Rightarrow> InvocationState bmap \<Rightarrow> 's Tick \<Rightarrow> OrchestrationOutcome list \<times> 's Tick" where
  "run_scheduler_tick scheduler orch rds stores snapshot invocations tick =
     (let executing = filter (\<lambda>task. tk_state task = STATE_EXECUTING) snapshot
      in case reconcile_executing_tasks orch rds stores snapshot (tc_claimed tick) invocations (tc_pass tick) of
        (outcomes, ps) \<Rightarrow>
          (case attempt_all orch rds stores snapshot (length executing)
              (map tk_task_id (runnable scheduler snapshot (of_nat (length executing)))) (tick \<lparr> tc_pass := ps \<rparr>) of
             (outcomes', tick') \<Rightarrow> (outcomes @ outcomes', tick')))"

subsection \<open>The pass of an agent\<close>

definition build_scheduler_orchestrator ::
  "string \<Rightarrow> string \<Rightarrow> Policy \<Rightarrow> TrustStore \<Rightarrow> 'vk bmap \<Rightarrow> ('sk, 'vk, 's) TaskOrchestrator" where
  "build_scheduler_orchestrator agent_id room_id policy trust verifying_keys =
     (new_orchestrator agent_id) \<lparr> to_room_id := Some room_id, to_policy := Some policy, to_trust_store := Some trust,
       to_audit_log := True, to_replay_cache := True,
       to_verifying_keys := fold (\<lambda>(k, v). bm_insert k v) verifying_keys [] \<rparr>"

record 'vk PassContext =
  px_room_id :: string
  px_policy :: Policy
  px_trust :: TrustStore
  px_verifying_keys :: "'vk bmap"
  px_decisions :: "ApprovalDecision bmap"
  px_expires_at :: string
  px_now_unix :: int

text \<open>The gate shares the replay cache of the orchestrator, which always has one.\<close>

definition scheduler_gate :: "'vk PassContext \<Rightarrow> string \<Rightarrow> QueueApprovalGate" where
  "scheduler_gate px agent_id = \<lparr> qg_room_id = px_room_id px, qg_target_agent = agent_id,
     qg_expires_at = px_expires_at px, qg_now_unix = px_now_unix px, qg_replay_cache = True,
     qg_resolve_decision = bm_get (px_decisions px) \<rparr>"

definition pass_orchestrator :: "'vk PassContext \<Rightarrow> string \<Rightarrow> ('sk, 'vk, 's) TaskOrchestrator" where
  "pass_orchestrator px agent_id =
     (build_scheduler_orchestrator agent_id (px_room_id px) (px_policy px) (px_trust px) (px_verifying_keys px))
       \<lparr> to_approval_gate := Some (queue_gate (scheduler_gate px agent_id)) \<rparr>"

text \<open>What is around a pass: the rounds of the tick, the homeserver, the decoder of the cache file, whether a corrupt
  file can be moved aside, and the clock when the cache is loaded.\<close>

record ('sk, 'vk) PassSite =
  pv_rounds :: "nat \<Rightarrow> ('sk, 'vk, matrix_store) Round"
  pv_envs :: "nat \<Rightarrow> Env \<times> Env"
  pv_error_text :: "WorkspaceError \<Rightarrow> string"
  pv_cache_read :: "string \<Rightarrow> StoredCache option"
  pv_quarantine :: bool
  pv_load_now :: int

definition load_pass_replay_cache :: "('sk, 'vk) PassSite \<Rightarrow> ReplayStore \<Rightarrow> ReplayCache option \<times> ReplayStore" where
  "load_pass_replay_cache pv st =
     (case load_with_capacity (pv_cache_read pv) (pv_quarantine pv) DEFAULT_CAPACITY (pv_load_now pv) st of
        (Inr cache, st') \<Rightarrow> (Some cache, st')
      | (Inl _, st') \<Rightarrow> (None, st'))"

record AgentPass =
  gp_room :: Room
  gp_replay :: ReplayStore
  gp_queue :: ApprovalQueue
  gp_audit :: "string list"
  gp_claimed :: "string set"
  gp_attempted :: "(string \<times> u64) set"
  gp_runs :: "Dispatch list"

definition scheduler_pass_for_agent ::
  "('sk, 'vk) PassSite \<Rightarrow> 'vk PassContext \<Rightarrow> AgentState \<Rightarrow> TaskState list \<Rightarrow> AgentPass \<Rightarrow> OrchestrationOutcome list \<times> AgentPass" where
  "scheduler_pass_for_agent pv px agent snapshot gp = (case load_pass_replay_cache pv (gp_replay gp) of
       (None, st) \<Rightarrow> ([], gp \<lparr> gp_replay := st \<rparr>)
     | (Some cache, st) \<Rightarrow>
        (let invocations = (case read_all_invocation_states (gp_room gp) of
               Inr states \<Rightarrow> fold (\<lambda>i. bm_insert (iv_invocation_id i) i) states []
             | Inl _ \<Rightarrow> [])
         in case run_scheduler_tick (new_scheduler (ag_agent_id agent) (al_max_invocations (ag_load agent)))
              (pass_orchestrator px (ag_agent_id agent)) (pv_rounds pv)
              (\<lambda>i. matrix_task_store (pv_error_text pv) (px_room_id px) (pv_envs pv i)) snapshot invocations
              \<lparr> tc_claimed = gp_claimed gp, tc_attempted = gp_attempted gp,
                tc_pass = \<lparr> ps_store = (gp_room gp, []), ps_replay = (cache, st), ps_queue = gp_queue gp,
                  ps_last_nonce = None, ps_audit = gp_audit gp, ps_runs = gp_runs gp \<rparr> \<rparr> of
           (outcomes, tick) \<Rightarrow>
             (let ps = tc_pass tick
              in (outcomes, \<lparr> gp_room = fst (ps_store ps), gp_replay = snd (ps_replay ps), gp_queue = ps_queue ps,
                   gp_audit = ps_audit ps, gp_claimed = tc_claimed tick, gp_attempted = tc_attempted tick,
                   gp_runs = ps_runs ps \<rparr>))))"

subsection \<open>The pass over the rooms and the loop\<close>

record SchedulerState =
  ss_daemon :: Daemon
  ss_replay :: ReplayStore
  ss_claimed :: "string set"
  ss_attempted :: "(string \<times> u64) set"
  ss_runs :: "Dispatch list"

definition audit_path :: "('sk, 'vk) Site \<Rightarrow> string" where
  "audit_path si = (case audit_default_path (si_vars si) of Some p \<Rightarrow> p | None \<Rightarrow> path_join (si_data_dir si) AUDIT_FILE_NAME)"

text \<open>For one room: what is around the pass of each of its local agents, and the answer of the homeserver to the
  scan of the timeline for decisions.\<close>

record ('sk, 'vk) RoomSite =
  rs_agents :: "nat \<Rightarrow> ('sk, 'vk) PassSite"
  rs_messages :: "(WorkspaceError, members list) result"

fun agent_passes ::
  "(nat \<Rightarrow> ('sk, 'vk) PassSite) \<Rightarrow> 'vk PassContext \<Rightarrow> TaskState list \<Rightarrow> nat \<Rightarrow> AgentState list \<Rightarrow> AgentPass \<Rightarrow> AgentPass" where
  "agent_passes pvs px snapshot i [] gp = gp"
| "agent_passes pvs px snapshot i (agent # agents) gp =
     agent_passes pvs px snapshot (Suc i) agents (snd (scheduler_pass_for_agent (pvs i) px agent snapshot gp))"

definition scheduler_pass_room ::
  "('sk, 'vk) Site \<Rightarrow> Policy \<Rightarrow> TrustStore \<Rightarrow> string \<Rightarrow> ('sk, 'vk) RoomSite \<Rightarrow> string \<Rightarrow> ApprovalQueue \<times> SchedulerState
    \<Rightarrow> ApprovalQueue \<times> SchedulerState" where
  "scheduler_pass_room si policy trust expires_at rs room_id = (\<lambda>(queue, ss).
     let dm = ss_daemon ss; local_user = user_id_or_empty (dm_client dm)
     in case bm_get (cl_rooms (dm_client dm)) room_id of
       None \<Rightarrow> (queue, ss)
     | Some rm \<Rightarrow>
        (case read_all_agent_states rm of
           Inl _ \<Rightarrow> (queue, ss)
         | Inr agents \<Rightarrow>
            (let owned = filter (\<lambda>a. ag_matrix_user_id a = local_user) agents;
                 keys = published_keys (ho_codec (si_host si)) agents
             in if owned = [] then (queue, ss)
                else case read_tasks \<lparr> lt_room = room_id, lt_state = None, lt_assigned_to = None \<rparr> rm of
                  Inl _ \<Rightarrow> (queue, ss)
                | Inr snapshot \<Rightarrow>
                   (let candidate = list_ex (\<lambda>t. (tk_state t = STATE_PENDING \<or> tk_state t = STATE_ASSIGNED) \<and>
                          tk_assigned_to t \<in> set (map ag_agent_id owned)) snapshot;
                        ctx = \<lparr> dv_local_user = local_user, dv_approvers = room_approvers policy room_id,
                          dv_verifying_keys = keys, dv_trust = trust, dv_now_unix = now_unix si \<rparr>;
                        decisions = (if candidate then
                            (case read_verified_approval_decisions (ho_crypto (si_host si)) ctx (rs_messages rs) of
                               Inr found \<Rightarrow> found | Inl _ \<Rightarrow> [])
                          else []);
                        px = \<lparr> px_room_id = room_id, px_policy = policy, px_trust = trust, px_verifying_keys = keys,
                          px_decisions = decisions, px_expires_at = expires_at, px_now_unix = now_unix si \<rparr>;
                        gp = agent_passes (rs_agents rs) px snapshot 0 owned
                          \<lparr> gp_room = rm, gp_replay = ss_replay ss, gp_queue = queue,
                            gp_audit = dm_audit dm (audit_path si), gp_claimed = ss_claimed ss,
                            gp_attempted = ss_attempted ss, gp_runs = ss_runs ss \<rparr>;
                        dm = dm \<lparr> dm_client := put_room room_id (gp_room gp) (dm_client dm),
                          dm_audit := (dm_audit dm) (audit_path si := gp_audit gp) \<rparr>
                    in case sweep_expired_live_holds si room_id (gp_queue gp, dm) of
                         (queue', dm') \<Rightarrow> (queue', \<lparr> ss_daemon = dm', ss_replay = gp_replay gp,
                            ss_claimed = gp_claimed gp, ss_attempted = gp_attempted gp, ss_runs = gp_runs gp \<rparr>)))))"

text \<open>\<open>joined\<close> is the order in which the client lists the joined rooms.\<close>

definition scheduler_pass ::
  "('sk, 'vk) Site \<Rightarrow> (string \<Rightarrow> ('sk, 'vk) RoomSite) \<Rightarrow> string list \<Rightarrow> SchedulerState \<Rightarrow> SchedulerState" where
  "scheduler_pass si rss joined ss =
     (if user_id_or_empty (dm_client (ss_daemon ss)) = [] then ss
      else
        (let policy = host_policy (si_host si);
             trust = host_trust (si_host si);
             before = queue_or_default si (dm_queue (ss_daemon ss));
             expires_at = approval_request_expiry (en_now (si_env si)) APPROVAL_REQUEST_TTL
         in case fold (\<lambda>room_id. scheduler_pass_room si policy trust expires_at (rss room_id) room_id) joined (before, ss) of
              (queue, ss') \<Rightarrow>
                if queue = before then ss'
                else ss' \<lparr> ss_daemon := (ss_daemon ss') \<lparr> dm_queue :=
                       snd (queue_save (si_print si) (si_queue_write si) queue (dm_queue (ss_daemon ss'))) \<rparr> \<rparr>))"

definition MAX_ATTEMPTED_TRACKED :: nat where "MAX_ATTEMPTED_TRACKED = 50000"

definition scheduler_iteration ::
  "('sk, 'vk) Site \<Rightarrow> (string \<Rightarrow> ('sk, 'vk) RoomSite) \<Rightarrow> string list \<Rightarrow> SchedulerState \<Rightarrow> SchedulerState" where
  "scheduler_iteration si rss joined ss =
     (let ss = (if card (ss_attempted ss) > MAX_ATTEMPTED_TRACKED then ss \<lparr> ss_attempted := {} \<rparr> else ss);
          ss = (if card (ss_claimed ss) > MAX_ATTEMPTED_TRACKED then ss \<lparr> ss_claimed := {} \<rparr> else ss)
      in scheduler_pass si rss joined ss)"

subsection \<open>Lemmas\<close>

lemma pass_orchestrator_simps [simp]:
  "to_agent_id (pass_orchestrator px a) = a" "to_room_id (pass_orchestrator px a) = Some (px_room_id px)"
  "to_policy (pass_orchestrator px a) = Some (px_policy px)" "to_trust_store (pass_orchestrator px a) = Some (px_trust px)"
  "to_audit_log (pass_orchestrator px a)" "to_replay_cache (pass_orchestrator px a)"
  "to_verifying_keys (pass_orchestrator px a) = fold (\<lambda>(k, v). bm_insert k v) (px_verifying_keys px) []"
  by (simp_all add: pass_orchestrator_def build_scheduler_orchestrator_def new_orchestrator_def)

text \<open>The gate of a pass is the queue with the shared cache.\<close>

lemma pass_gate: "to_approval_gate (pass_orchestrator px a) = Some (queue_gate ((scheduler_gate px a) \<lparr> qg_replay_cache := True \<rparr>))"
  by (simp add: pass_orchestrator_def scheduler_gate_def)

lemmas pass_one_run [consumes 1, case_names none run] = qg.process_one_run [OF pass_gate pass_orchestrator_simps(6)]
lemmas pass_one_keeps = qg.process_one_keeps [OF pass_gate pass_orchestrator_simps(6)]
lemmas pass_spent_not_run = qg.spent_not_run [OF pass_gate pass_orchestrator_simps(6)]

lemma reconcile_quiet: "reconcile_one orch rd store live invocations task ps = (oc, ps') \<Longrightarrow> quiet ps ps'"
  by (auto simp: reconcile_one_def recover_stale_executing_def reconcile_terminal_invocation_def Let_def on_store_eq
      split: if_splits option.splits prod.splits sum.splits)

lemma run_each_quiet:
  assumes "\<And>i x ps r ps'. f i x ps = (r, ps') \<Longrightarrow> quiet ps ps'" "run_each f i xs ps = (rs, ps')"
  shows "quiet ps ps'"
  using assms(2)
proof (induction xs arbitrary: i ps rs)
  case (Cons x xs)
  obtain r ps1 where r: "f i x ps = (r, ps1)" by (cases "f i x ps")
  obtain rs' where "run_each f (Suc i) xs ps1 = (rs', ps')"
    using Cons.prems r by (auto split: prod.splits)
  from Cons.IH [OF this] assms(1) [OF r] show ?case by (simp add: quiet_def)
qed simp

lemma reconcile_all_quiet: "reconcile_executing_tasks orch rds stores tasks live invocations ps = (os, ps') \<Longrightarrow> quiet ps ps'"
  unfolding reconcile_executing_tasks_def by (rule run_each_quiet) (rule reconcile_quiet)

text \<open>What entitles a run of a task for an agent.\<close>

definition run_entitled ::
  "('sk, 'vk, 's) Round \<Rightarrow> 'vk PassContext \<Rightarrow> string \<Rightarrow> TaskState list \<Rightarrow> TaskState \<Rightarrow> Dispatch \<Rightarrow> bool" where
  "run_entitled rd px agent_id snapshot task run \<longleftrightarrow> (case authorization (dp_action run) of
       None \<Rightarrow> False
     | Some auth \<Rightarrow>
        task \<in> set snapshot \<and> tk_assigned_to task = agent_id \<and> is_runnable (tk_state task) \<and>
        list_all (\<lambda>d. d \<in> succeeded_ids snapshot) (tk_depends_on task) \<and> action_from_task task = Inr (dp_action run) \<and>
        au_target_agent auth = agent_id \<and> is_key_trusted (px_trust px) (sg_key_id (au_signature auth)) \<and>
        (case bm_get (fold (\<lambda>(k, v). bm_insert k v) (px_verifying_keys px) []) (sg_key_id (au_signature auth)) of
           None \<Rightarrow> False
         | Some key \<Rightarrow> verify_task_action_signature (rd_crypto rd) key (tk_task_id task) (dp_action run) auth = Inr ()) \<and>
        evaluate_task_action (rd_regex rd) (px_policy px) (px_room_id px) task (dp_action run) = Allow (dp_limits run) \<and>
        (if al_requires_approval (dp_limits run)
         then (case bm_get (px_decisions px) (''approval:'' @ tk_task_id task) of
             None \<Rightarrow> False | Some d \<Rightarrow> decision_permits_spawn d)
         else True))"

text \<open>The record with which the task was claimed.\<close>

definition run_claimed :: "string \<Rightarrow> TaskState \<Rightarrow> Dispatch \<Rightarrow> bool" where
  "run_claimed agent_id task run \<longleftrightarrow> tk_state (dp_task run) = STATE_EXECUTING \<and> tk_assigned_to (dp_task run) = agent_id \<and>
     tk_invocation_id (dp_task run) = Some (dp_invocation_id run) \<and> tk_state_rev (dp_task run) = tk_state_rev task + 1"

lemma authorized_entitled:
  assumes "run_authorized (pass_orchestrator px a) rd task snapshot run" "task \<in> set snapshot"
    and "if al_requires_approval (dp_limits run)
       then \<exists>d n x. (qg_resolve_decision (scheduler_gate px a) (''approval:'' @ tk_task_id task) = Some d \<and> decision_permits_spawn d) \<and>
         dc_nonce d = Some n \<and> dc_expires_at d = Some x \<and> fresh_nonce rd wr n x s c
       else c = s"
    and "authorization (dp_action run) = Some auth"
  shows "run_entitled rd px a snapshot task run"
  using assms
  by (auto simp: run_entitled_def run_authorized_def is_assigned_def signed_for_agent_def policy_allows_def scheduler_gate_def
      split: option.splits)

lemma scheduler_update_ok:
  assumes "scheduler_update env options s = (Inr updated, s')"
  obtains current prev where "update_guard current options = Inr ()"
    "updated = apply_update options (now_rfc3339 env) prev current"
proof -
  obtain rm cache where s: "s = (rm, cache)" by (cases s)
  show thesis
    using assms that
    by (auto simp: scheduler_update_def s Let_def apply_and_publish_task_def publish_task_state_def apply_update_def
        split: option.splits sum.splits prod.splits if_splits)
qed

lemma matrix_claim:
  assumes "so_claim (matrix_task_store other_text room envs) (claim_options (pass_orchestrator px a) rd task) s = (Inr claimed, s')"
  shows "tk_state claimed = STATE_EXECUTING \<and> tk_assigned_to claimed = a \<and> tk_invocation_id claimed = Some (rd_invocation_id rd) \<and>
    tk_state_rev claimed = tk_state_rev task + 1"
proof -
  let ?o = "(claim_options (pass_orchestrator px a) rd task) \<lparr> ut_room := room \<rparr>"
  have "scheduler_update (fst envs) ?o s = (Inr claimed, s')"
    using assms by (auto simp: matrix_task_store_def store_apply_def map_err_def split: prod.splits sum.splits)
  then obtain current prev where "update_guard current ?o = Inr ()"
      "claimed = apply_update ?o (now_rfc3339 (fst envs)) prev current"
    by (rule scheduler_update_ok)
  moreover from this have "tk_state_rev current = tk_state_rev task"
    by (auto simp: update_guard_def check_not_stale_def claim_options_def and_then_eq_Inr split: if_splits)
  ultimately show ?thesis
    by (simp add: apply_update_def claim_options_def unwrap_or_def or_opt_def default_update_def)
qed

text \<open>The runs of a tick.\<close>

definition extends_runs :: "(Dispatch \<Rightarrow> bool) \<Rightarrow> Dispatch list \<Rightarrow> Dispatch list \<Rightarrow> nat \<Rightarrow> bool" where
  "extends_runs P before after k \<longleftrightarrow> (\<exists>runs. after = before @ runs \<and> list_all P runs \<and> length runs \<le> k)"

lemma extends_runs_trans:
  "extends_runs P a b j \<Longrightarrow> extends_runs P b c k \<Longrightarrow> extends_runs P a c (j + k)"
  by (fastforce simp: extends_runs_def)

lemma extends_runs_mono: "extends_runs P a b j \<Longrightarrow> (\<And>r. P r \<Longrightarrow> Q r) \<Longrightarrow> j \<le> k \<Longrightarrow> extends_runs Q a b k"
  by (fastforce simp: extends_runs_def list_all_iff)

lemma attempt_runs:
  assumes "attempt_task (pass_orchestrator px a) rd (matrix_task_store other_text room envs) snapshot task_id tick = (os, tick')"
  shows "extends_runs (\<lambda>run. \<exists>task. run_entitled rd px a snapshot task run \<and> run_claimed a task run)
    (ps_runs (tc_pass tick)) (ps_runs (tc_pass tick')) 1"
proof (cases "find (\<lambda>t. tk_task_id t = task_id) snapshot")
  case None
  then show ?thesis using assms by (auto simp: attempt_task_def extends_runs_def)
next
  case (Some task)
  have "task \<in> set snapshot" using Some by (auto simp: find_Some_iff)
  show ?thesis
  proof (cases "(tk_task_id task, tk_state_rev task) \<in> tc_attempted tick")
    case True
    then show ?thesis using assms Some by (auto simp: attempt_task_def Let_def extends_runs_def)
  next
    case False
    let ?orch = "pass_orchestrator px a"
    obtain oc ps where p: "process_one ?orch rd (matrix_task_store other_text room envs) task snapshot (tc_pass tick) = (oc, ps)"
      using prod.exhaust by blast
    have t: "tc_pass tick' = ps" using assms Some False p by (auto simp: attempt_task_def Let_def)
    show ?thesis
      using p
    proof (cases rule: pass_one_run)
      case none
      then show ?thesis by (auto simp: t extends_runs_def)
    next
      case (run run auth c s)
      have "run_entitled rd px a snapshot task run" by (rule authorized_entitled [OF run(2) \<open>task \<in> set snapshot\<close> run(3,4)])
      moreover have "run_claimed a task run"
        using matrix_claim [OF run(6)] run(2) by (simp add: run_claimed_def run_authorized_def)
      ultimately show ?thesis using run(1) by (auto simp: t extends_runs_def)
    qed
  qed
qed

lemma attempt_all_runs:
  assumes "attempt_all (pass_orchestrator px a) rds (\<lambda>i. matrix_task_store other_text room (envs i)) snapshot i ids tick = (os, tick')"
  shows "extends_runs (\<lambda>run. \<exists>j task. run_entitled (rds j) px a snapshot task run \<and> run_claimed a task run)
    (ps_runs (tc_pass tick)) (ps_runs (tc_pass tick')) (length ids)"
  using assms
proof (induction ids arbitrary: i tick os)
  case Nil
  then show ?case by (auto simp: extends_runs_def)
next
  case (Cons task_id ids)
  let ?orch = "pass_orchestrator px a"
  obtain os1 t1 where a: "attempt_task ?orch (rds i) (matrix_task_store other_text room (envs i)) snapshot task_id tick = (os1, t1)"
    using prod.exhaust by blast
  obtain os2 where b: "attempt_all ?orch rds (\<lambda>i. matrix_task_store other_text room (envs i)) snapshot (Suc i) ids t1 = (os2, tick')"
    using Cons.prems a by (auto split: prod.splits)
  have "extends_runs (\<lambda>run. \<exists>j task. run_entitled (rds j) px a snapshot task run \<and> run_claimed a task run)
      (ps_runs (tc_pass tick)) (ps_runs (tc_pass t1)) 1"
    using attempt_runs [OF a] by (rule extends_runs_mono) auto
  from extends_runs_trans [OF this Cons.IH [OF b]] show ?case by simp
qed

lemma tick_runs:
  assumes "run_scheduler_tick scheduler (pass_orchestrator px a) rds (\<lambda>i. matrix_task_store other_text room (envs i)) snapshot invocations tick
     = (os, tick')"
  shows "extends_runs (\<lambda>run. \<exists>j task. run_entitled (rds j) px a snapshot task run \<and> run_claimed a task run)
    (ps_runs (tc_pass tick)) (ps_runs (tc_pass tick'))
    (length (runnable scheduler snapshot (of_nat (length (filter (\<lambda>t. tk_state t = STATE_EXECUTING) snapshot)))))"
proof -
  let ?orch = "pass_orchestrator px a"
  obtain os1 ps where r: "reconcile_executing_tasks ?orch rds (\<lambda>i. matrix_task_store other_text room (envs i)) snapshot
      (tc_claimed tick) invocations (tc_pass tick) = (os1, ps)"
    using prod.exhaust by blast
  have q: "ps_runs ps = ps_runs (tc_pass tick)" using reconcile_all_quiet [OF r] by (simp add: quiet_def)
  obtain os2 where "attempt_all ?orch rds (\<lambda>i. matrix_task_store other_text room (envs i)) snapshot
      (length (filter (\<lambda>t. tk_state t = STATE_EXECUTING) snapshot))
      (map tk_task_id (runnable scheduler snapshot (of_nat (length (filter (\<lambda>t. tk_state t = STATE_EXECUTING) snapshot)))))
      (tick \<lparr> tc_pass := ps \<rparr>) = (os2, tick')"
    using assms r by (auto simp: run_scheduler_tick_def Let_def split: prod.splits)
  from attempt_all_runs [OF this] show ?thesis by (simp add: q)
qed

subsection \<open>Properties\<close>

lemma pass_runs:
  assumes "scheduler_pass_for_agent pv px agent snapshot gp = (os, gp')"
  shows "extends_runs (\<lambda>run. \<exists>i task. run_entitled (pv_rounds pv i) px (ag_agent_id agent) snapshot task run \<and>
      run_claimed (ag_agent_id agent) task run) (gp_runs gp) (gp_runs gp')
    (length (runnable (new_scheduler (ag_agent_id agent) (al_max_invocations (ag_load agent))) snapshot
       (of_nat (length (filter (\<lambda>t. tk_state t = STATE_EXECUTING) snapshot)))))"
proof -
  obtain cache st where c: "load_pass_replay_cache pv (gp_replay gp) = (cache, st)" using prod.exhaust by blast
  show ?thesis
  proof (cases cache)
    case None
    then show ?thesis using assms c by (auto simp: scheduler_pass_for_agent_def extends_runs_def)
  next
    case (Some cc)
    let ?tick = "\<lparr> tc_claimed = gp_claimed gp, tc_attempted = gp_attempted gp,
      tc_pass = \<lparr> ps_store = (gp_room gp, []), ps_replay = (cc, st), ps_queue = gp_queue gp,
        ps_last_nonce = None, ps_audit = gp_audit gp, ps_runs = gp_runs gp \<rparr> \<rparr>"
    obtain invocations tick' where t: "run_scheduler_tick (new_scheduler (ag_agent_id agent) (al_max_invocations (ag_load agent)))
        (pass_orchestrator px (ag_agent_id agent)) (pv_rounds pv)
        (\<lambda>i. matrix_task_store (pv_error_text pv) (px_room_id px) (pv_envs pv i)) snapshot invocations ?tick = (os, tick')"
      "gp_runs gp' = ps_runs (tc_pass tick')"
      using assms c Some by (auto simp: scheduler_pass_for_agent_def Let_def split: prod.splits)
    from tick_runs [OF t(1)] show ?thesis by (simp add: t(2))
  qed
qed

text \<open>C4. The scheduler runs entitled work only. Whatever the pass of a local agent hands to a dispatcher is the
  action of a task of the snapshot that is assigned to the agent, pending, with all dependencies succeeded; the
  action is signed for this agent and task by a key that is published and locally trusted, allowed by the policy
  for the creator of the task in this room, and approved where the policy asks for an approval; and the task was
  claimed before, as executing, at the revision of the snapshot, with the invocation that runs. If the replay
  cache cannot be loaded nothing runs.\<close>

theorem scheduled_runs_entitled:
  "\<exists>runs. gp_runs (snd (scheduler_pass_for_agent pv px agent snapshot gp)) = gp_runs gp @ runs \<and>
     list_all (\<lambda>run. \<exists>i task. run_entitled (pv_rounds pv i) px (ag_agent_id agent) snapshot task run \<and>
       run_claimed (ag_agent_id agent) task run) runs \<and>
     ((fst (load_pass_replay_cache pv (gp_replay gp)) = None) \<le> (runs = []))"
proof -
  obtain os gp' where p: "scheduler_pass_for_agent pv px agent snapshot gp = (os, gp')" using prod.exhaust by blast
  obtain runs where r: "gp_runs gp' = gp_runs gp @ runs"
      "list_all (\<lambda>run. \<exists>i task. run_entitled (pv_rounds pv i) px (ag_agent_id agent) snapshot task run \<and>
         run_claimed (ag_agent_id agent) task run) runs"
    using pass_runs [OF p] by (auto simp: extends_runs_def)
  moreover have "runs = []" if "fst (load_pass_replay_cache pv (gp_replay gp)) = None"
    using p r(1) that by (auto simp: scheduler_pass_for_agent_def split: prod.splits)
  ultimately show ?thesis by (auto simp: p)
qed

text \<open>C31. The load of an agent is bounded. With one record per task id in the snapshot, a pass starts at most as
  many actions as the agent's capacity leaves over the tasks that are executing.\<close>

theorem scheduler_pass_bounded:
  assumes "distinct (map tk_task_id snapshot)" "length snapshot < 2 ^ 32"
  shows "length (gp_runs (snd (scheduler_pass_for_agent pv px agent snapshot gp))) \<le> length (gp_runs gp) +
    (unat (al_max_invocations (ag_load agent)) - length (filter (\<lambda>t. tk_state t = STATE_EXECUTING) snapshot))"
proof -
  let ?n = "length (filter (\<lambda>t. tk_state t = STATE_EXECUTING) snapshot)"
  let ?s = "new_scheduler (ag_agent_id agent) (al_max_invocations (ag_load agent))"
  obtain os gp' where p: "scheduler_pass_for_agent pv px agent snapshot gp = (os, gp')" using prod.exhaust by blast
  have "?n < 2 ^ 32" using assms(2) length_filter_le le_less_trans by blast
  then have n: "unat (of_nat ?n :: u32) = ?n" by (simp add: unat_of_nat)
  have "length (runnable ?s snapshot (of_nat ?n)) \<le> unat (sc_max_invocations ?s) - unat (of_nat ?n :: u32)"
    using runnable_exact [OF assms(1) refl] by blast
  then show ?thesis
    using pass_runs [OF p] unfolding n by (auto simp: extends_runs_def p new_scheduler_def)
qed

text \<open>Steps of one or several passes that share a cache.\<close>

type_synonym ('sk, 'vk, 's) pass_step =
  "'vk PassContext \<times> string \<times> ('sk, 'vk, 's) Round \<times> 's TaskStore \<times> TaskState \<times> TaskState list"

definition step_time :: "('sk, 'vk, 's) pass_step \<Rightarrow> int" where
  "step_time x = (case x of (_, _, rd, _) \<Rightarrow> sint (rd_now rd))"

definition run_step :: "('sk, 'vk, 's) pass_step \<Rightarrow> 's Pass \<Rightarrow> 's Pass" where
  "run_step x ps = (case x of (px, a, rd, store, task, tasks) \<Rightarrow>
     snd (process_one (pass_orchestrator px a) rd store task tasks ps))"

definition step_nonce :: "('sk, 'vk, 's) pass_step \<Rightarrow> (string \<times> string) option" where
  "step_nonce x = (case x of (_, _, _, _, task, _) \<Rightarrow>
     (case action_from_task task of Inr action \<Rightarrow> map_option (\<lambda>auth. (au_nonce auth, au_expires_at auth)) (authorization action)
      | Inl _ \<Rightarrow> None))"

lemma run_step_spent:
  assumes "spent n e t (fst (ps_replay ps))" "t \<le> step_time x"
    and "length (rc_nonces (fst (ps_replay ps))) + 2 \<le> rc_capacity (fst (ps_replay ps))"
  shows "keeps_spent n e (step_time x) 2 (ps_replay ps) (ps_replay (run_step x ps))"
proof -
  obtain px a rd store task tasks where x: "x = (px, a, rd, store, task, tasks)" by (cases x)
  obtain oc ps' where p: "process_one (pass_orchestrator px a) rd store task tasks ps = (oc, ps')" using prod.exhaust by blast
  have "spent n e (sint (rd_now rd)) (fst (ps_replay ps))" using assms(1,2) by (auto simp: x step_time_def spent_def)
  from pass_one_keeps [OF p this assms(3)] show ?thesis by (simp add: x run_step_def step_time_def p)
qed

lemma run_steps_spent:
  assumes "spent n e t (fst (ps_replay ps))" "sorted (t # map step_time xs @ [u])"
    and "length (rc_nonces (fst (ps_replay ps))) + 2 * length xs \<le> k" "k \<le> rc_capacity (fst (ps_replay ps))"
  shows "spent n e u (fst (ps_replay (fold run_step xs ps))) \<and> rc_capacity (fst (ps_replay (fold run_step xs ps))) = rc_capacity (fst (ps_replay ps)) \<and>
    length (rc_nonces (fst (ps_replay (fold run_step xs ps)))) \<le> k"
  using assms
proof (induction xs arbitrary: t ps)
  case Nil
  then show ?case by (auto simp: spent_def)
next
  case (Cons x xs)
  have k: "keeps_spent n e (step_time x) 2 (ps_replay ps) (ps_replay (run_step x ps))"
    using Cons.prems by (intro run_step_spent [of n e t]) auto
  then have "spent n e (step_time x) (fst (ps_replay (run_step x ps)))" by (simp add: keeps_spent_def)
  from Cons.IH [OF this] k Cons.prems show ?case by (simp add: keeps_spent_def)
qed

lemma run_step_records:
  assumes "ps_runs (run_step x ps) \<noteq> ps_runs ps" "step_nonce x = Some (n, y)"
    and "length (rc_nonces (fst (ps_replay ps))) + 2 \<le> rc_capacity (fst (ps_replay ps))"
  obtains e where "parse_rfc3339_to_unix y = Some e" "spent n e (step_time x) (fst (ps_replay (run_step x ps)))"
    "length (rc_nonces (fst (ps_replay (run_step x ps)))) \<le> length (rc_nonces (fst (ps_replay ps))) + 2"
    "rc_capacity (fst (ps_replay (run_step x ps))) = rc_capacity (fst (ps_replay ps))"
proof -
  obtain px a rd store task tasks where x: "x = (px, a, rd, store, task, tasks)" by (cases x)
  obtain oc ps' where p: "process_one (pass_orchestrator px a) rd store task tasks ps = (oc, ps')" using prod.exhaust by blast
  have ps': "run_step x ps = ps'" by (simp add: x run_step_def p)
  have t: "step_time x = sint (rd_now rd)" by (simp add: x step_time_def)
  show thesis
    using p
  proof (cases rule: pass_one_run)
    case none
    then show thesis using assms(1) ps' by simp
  next
    case (run run auth c s)
    have ny: "au_nonce auth = n" "au_expires_at auth = y"
      using assms(2) run(2,4) by (auto simp: x step_nonce_def run_authorized_def)
    have lc: "length (rc_nonces (fst c)) \<le> length (rc_nonces (fst (ps_replay ps))) + 1 \<and> rc_capacity (fst c) = rc_capacity (fst (ps_replay ps))"
    proof (cases "al_requires_approval (dp_limits run)")
      case True
      then obtain m z where "fresh_nonce rd (rd_decision_write rd) m z (ps_replay ps) c" using run(3) by auto
      from fresh_nonce_entries [OF this] assms(3) show ?thesis by (auto simp: le_SucI)
    qed (use run(3) in simp)
    have a: "admit_at (rd_cache_print rd) (rd_action_write rd) n y (sint (rd_now rd)) (fst c, snd c) = (Inr (), fst (ps_replay ps'), snd (ps_replay ps'))"
      using run(5) by (simp add: fresh_nonce_def ny)
    obtain e where e: "parse_rfc3339_to_unix y = Some e" "spent n e (sint (rd_now rd)) (fst (ps_replay ps'))"
      using admitted_spent [OF a] by blast
    have "length (rc_nonces (fst (ps_replay ps'))) \<le> Suc (length (rc_nonces (fst c))) \<and> rc_capacity (fst (ps_replay ps')) = rc_capacity (fst c)"
      using admit_length [OF a] lc assms(3) by simp
    then show thesis using e lc by (intro that [of e, unfolded ps' t]) simp_all
  qed
qed



subsection \<open>Claim, run and final write\<close>

lemma scheduler_update_step:
  assumes "ut_task_id options = k" "en_state env TASK_STATE_TYPE k = Inr e" "update_guard cur options = Inr ()"
    and "read_task_state rm k = Inr (Some (latest, ev0))" "\<not> is_terminal (tk_state latest)"
    and "bm_get cache k = Some (cur, ev) \<or> bm_get cache k = None \<and> (cur, ev) = (latest, ev0)"
    and "st = apply_update options (now_rfc3339 env) ev cur"
  shows "scheduler_update env options (rm, cache) =
    (Inr st, (rm \<lparr> rm_tasks := bm_insert k (Parsed st, Some e) (rm_tasks rm) \<rparr>, bm_insert (tk_task_id st) (st, None) cache))"
  using assms
  by (auto simp: scheduler_update_def Let_def apply_and_publish_task_def publish_task_state_def and_then_def ok_or_def)

lemma read_written [simp]:
  "read_task_state (rm \<lparr> rm_tasks := bm_insert k (Parsed st, ev) ts \<rparr>) k' =
   (if k' = k then Inr (Some (st, ev)) else read_task_state (rm \<lparr> rm_tasks := ts \<rparr>) k')"
  by (simp add: read_task_state_def bm_get_insert)

lemma read_same_tasks [simp]: "read_task_state (rm \<lparr> rm_tasks := rm_tasks rm \<rparr>) k = read_task_state rm k"
  by (simp add: read_task_state_def)

lemma executing_guard:
  assumes "tk_state cur = STATE_EXECUTING" "state = STATE_SUCCEEDED \<or> state = STATE_FAILED \<or> state = STATE_CANCELLED"
    and "ut_state options = Some state" "ut_expected_state_rev options = Some (tk_state_rev cur)"
  shows "update_guard cur options = Inr ()"
  using assms
  by (auto simp: update_guard_def check_not_stale_def check_transition_def check_known_state_def is_known_state_def
      KNOWN_STATES_def can_transition_def task_states and_then_def)

lemma runnable_guard:
  assumes "is_runnable (tk_state task)"
  shows "update_guard task ((claim_options orch rd task) \<lparr> ut_room := room \<rparr>) = Inr ()"
  using assms
  by (auto simp: update_guard_def check_not_stale_def check_transition_def check_known_state_def is_known_state_def
      KNOWN_STATES_def can_transition_def is_runnable_def claim_options_def task_states and_then_def)

lemma executing_not_terminal: "\<not> is_terminal STATE_EXECUTING" "\<not> is_terminal STATE_PENDING" "\<not> is_terminal STATE_ASSIGNED"
  by (simp_all add: is_terminal_def task_states)

text \<open>The state a result of the dispatcher leads to.\<close>

definition finished_state :: "(TaskDispatchError, TaskExecutionResult) result \<Rightarrow> string" where
  "finished_state r = (case r of Inr out \<Rightarrow> if is_success out then STATE_SUCCEEDED else STATE_FAILED | Inl _ \<Rightarrow> STATE_FAILED)"

lemma terminal_for_state: "fst (terminal_for orch rd action r) = finished_state r"
  by (simp add: terminal_for_def finished_state_def Let_def split: sum.splits TaskDispatchError.splits)

lemma claim_and_dispatch_room:
  assumes "read_task_state rm (tk_task_id task) = Inr (Some (task, ev))" "is_runnable (tk_state task)"
    and "bm_get cache (tk_task_id task) = None"
    and "en_state (fst envs) TASK_STATE_TYPE (tk_task_id task) = Inr e1" "en_state (snd envs) TASK_STATE_TYPE (tk_task_id task) = Inr e2"
    and "rd_meanwhile rd = id" "ps_store ps = (rm, cache)"
    and "claimed = apply_update ((claim_options orch rd task) \<lparr> ut_room := room \<rparr>) (now_rfc3339 (fst envs)) ev task"
    and "run = \<lparr> dp_task = claimed, dp_action = action, dp_invocation_id = rd_invocation_id rd, dp_limits = limits \<rparr>"
  shows "\<exists>st rm'. ps_store (snd (claim_and_dispatch orch rd (matrix_task_store other_text room envs) task action limits ps)) = rm' \<and>
    ps_runs (snd (claim_and_dispatch orch rd (matrix_task_store other_text room envs) task action limits ps)) = ps_runs ps @ [run] \<and>
    read_task_state (fst rm') (tk_task_id task) = Inr (Some (st, Some e2)) \<and>
    tk_state st = finished_state (rd_dispatch rd run) \<and> tk_state_rev st = tk_state_rev task + 2 \<and>
    tk_invocation_id st = Some (rd_invocation_id rd) \<and> tk_result st \<noteq> None \<and>
    (k \<noteq> tk_task_id task \<longrightarrow> read_task_state (fst rm') k = read_task_state rm k)"
proof -
  let ?t = "tk_task_id task"
  let ?store = "matrix_task_store other_text room envs"
  let ?o = "(claim_options orch rd task) \<lparr> ut_room := room \<rparr>"
  let ?rm1 = "rm \<lparr> rm_tasks := bm_insert ?t (Parsed claimed, Some e1) (rm_tasks rm) \<rparr>"
  let ?cache1 = "bm_insert ?t (claimed, None) cache"
  have nt: "\<not> is_terminal (tk_state task)"
    using assms(2) by (auto simp: is_runnable_def is_terminal_def task_states)
  have cl: "tk_task_id claimed = ?t" "tk_state claimed = STATE_EXECUTING" "tk_state_rev claimed = tk_state_rev task + 1"
      "tk_invocation_id claimed = Some (rd_invocation_id rd)"
    by (simp_all add: assms(8) apply_update_def claim_options_def default_update_def unwrap_or_def or_opt_def)
  have "scheduler_update (fst envs) ?o (rm, cache) = (Inr claimed, (?rm1, bm_insert (tk_task_id claimed) (claimed, None) cache))"
    by (rule scheduler_update_step [OF _ assms(4) runnable_guard [OF assms(2)] assms(1) nt])
      (simp_all add: assms(3,8) claim_options_def)
  then have c: "so_claim ?store (claim_options orch rd task) (rm, cache) = (Inr claimed, (?rm1, ?cache1))"
    by (simp add: matrix_task_store_def store_apply_def map_err_def cl)
  obtain terminal result where tr: "terminal_for orch rd action (rd_dispatch rd run) = (terminal, result)" using prod.exhaust by blast
  have fin: "terminal = finished_state (rd_dispatch rd run)" using terminal_for_state [of orch rd action "rd_dispatch rd run"] tr by simp
  let ?f = "default_update \<lparr> ut_task_id := ?t, ut_state := Some terminal, ut_result := Some result,
    ut_expected_state_rev := Some (tk_state_rev claimed) \<rparr>"
  let ?st = "apply_update (?f \<lparr> ut_room := room \<rparr>) (now_rfc3339 (snd envs)) None claimed"
  let ?rm2 = "?rm1 \<lparr> rm_tasks := bm_insert ?t (Parsed ?st, Some e2) (rm_tasks ?rm1) \<rparr>"
  have g: "update_guard claimed (?f \<lparr> ut_room := room \<rparr>) = Inr ()"
    by (rule executing_guard [OF cl(2), of terminal]) (auto simp: fin finished_state_def default_update_def split: sum.splits)
  have st: "tk_task_id ?st = ?t" "tk_state ?st = terminal" "tk_state_rev ?st = tk_state_rev task + 2"
      "tk_invocation_id ?st = Some (rd_invocation_id rd)" "tk_result ?st = Some result"
    by (simp_all add: apply_update_def default_update_def unwrap_or_def or_opt_def cl add.assoc)
  have "scheduler_update (snd envs) (?f \<lparr> ut_room := room \<rparr>) (?rm1, ?cache1) = (Inr ?st, (?rm2, bm_insert (tk_task_id ?st) (?st, None) ?cache1))"
    by (rule scheduler_update_step [OF _ assms(5) g, of _ claimed "Some e1"])
      (simp_all add: default_update_def bm_get_insert cl executing_not_terminal)
  then have f: "so_finalize ?store ?f (?rm1, ?cache1) = (Inr ?st, (?rm2, bm_insert ?t (?st, None) ?cache1))"
    by (simp add: matrix_task_store_def store_apply_def map_err_def st cl)
  have d: "claim_and_dispatch orch rd ?store task action limits ps =
      dispatch_claimed orch rd ?store task claimed action limits (ps \<lparr> ps_store := (?rm1, ?cache1) \<rparr>)"
    by (simp add: claim_and_dispatch_def on_store_def assms(7) c)
  have "snd (dispatch_claimed orch rd ?store task claimed action limits (ps \<lparr> ps_store := (?rm1, ?cache1) \<rparr>)) =
      ps \<lparr> ps_store := (?rm2, bm_insert ?t (?st, None) ?cache1), ps_runs := ps_runs ps @ [run] \<rparr>"
    by (simp add: dispatch_claimed_def Let_def assms(9) [symmetric] assms(6) tr on_store_def f)
  then show ?thesis
    unfolding d using st fin by (intro exI [of _ ?st] exI [of _ "(?rm2, bm_insert ?t (?st, None) ?cache1)"]) simp
qed

lemma entitled_authorized:
  assumes "run_entitled rd px a snapshot task run" "dp_invocation_id run = rd_invocation_id rd"
  shows "run_authorized (pass_orchestrator px a) rd task snapshot run"
  using assms
  by (auto simp: run_entitled_def run_authorized_def is_assigned_def signed_for_agent_def policy_allows_def split: option.splits)

text \<open>C9. Authorized tasks finish. A task of the room that is entitled to run, needs no approval and has a fresh
  nonce is claimed, handed to the dispatcher once, and ends in the room as succeeded or failed according to what
  the dispatcher reports, two revisions on, with the invocation and a result; no other task changes. The
  homeserver is taken to accept both writes, and nobody else to write the task meanwhile.\<close>

theorem authorized_task_finishes:
  assumes "run_entitled rd px a snapshot task run" "\<not> al_requires_approval (dp_limits run)"
    and "authorization (dp_action run) = Some auth"
    and "fresh_nonce rd (rd_action_write rd) (au_nonce auth) (au_expires_at auth) (ps_replay ps) c"
    and "read_task_state rm (tk_task_id task) = Inr (Some (task, ev))" "bm_get cache (tk_task_id task) = None"
      "ps_store ps = (rm, cache)" "rd_meanwhile rd = id"
    and "en_state (fst envs) TASK_STATE_TYPE (tk_task_id task) = Inr e" "en_state (snd envs) TASK_STATE_TYPE (tk_task_id task) = Inr e'"
    and "dp_task run = apply_update ((claim_options (pass_orchestrator px a) rd task) \<lparr> ut_room := room \<rparr>) (now_rfc3339 (fst envs)) ev task"
      "dp_invocation_id run = rd_invocation_id rd"
    and "ps' = snd (process_one (pass_orchestrator px a) rd (matrix_task_store other_text room envs) task snapshot ps)"
  shows "ps_runs ps' = ps_runs ps @ [run] \<and>
    (\<exists>st. read_task_state (fst (ps_store ps')) (tk_task_id task) = Inr (Some (st, Some e')) \<and>
       tk_state st = finished_state (rd_dispatch rd run) \<and> tk_state_rev st = tk_state_rev task + 2 \<and>
       tk_invocation_id st = Some (rd_invocation_id rd) \<and> tk_result st \<noteq> None) \<and>
    (if k = tk_task_id task then True else read_task_state (fst (ps_store ps')) k = read_task_state rm k)"
proof -
  let ?orch = "pass_orchestrator px a"
  let ?store = "matrix_task_store other_text room envs"
  obtain ps2 where p: "process_one ?orch rd ?store task snapshot ps = claim_and_dispatch ?orch rd ?store task (dp_action run) (dp_limits run) ps2"
      "ps_store ps2 = ps_store ps" "ps_runs ps2 = ps_runs ps"
    using process_one_proceeds [OF entitled_authorized [OF assms(1,12)] assms(2) pass_orchestrator_simps(6) assms(3,4)] by metis
  have r: "is_runnable (tk_state task)" using assms(1) by (auto simp: run_entitled_def split: option.splits)
  have run: "run = \<lparr> dp_task = dp_task run, dp_action = dp_action run, dp_invocation_id = rd_invocation_id rd, dp_limits = dp_limits run \<rparr>"
    using assms(12) by simp
  obtain st where c: "ps_runs (snd (claim_and_dispatch ?orch rd ?store task (dp_action run) (dp_limits run) ps2)) = ps_runs ps2 @ [run]"
      "read_task_state (fst (ps_store (snd (claim_and_dispatch ?orch rd ?store task (dp_action run) (dp_limits run) ps2)))) (tk_task_id task) = Inr (Some (st, Some e'))"
      "tk_state st = finished_state (rd_dispatch rd run)" "tk_state_rev st = tk_state_rev task + 2"
      "tk_invocation_id st = Some (rd_invocation_id rd)" "tk_result st \<noteq> None"
      "k \<noteq> tk_task_id task \<longrightarrow> read_task_state (fst (ps_store (snd (claim_and_dispatch ?orch rd ?store task (dp_action run) (dp_limits run) ps2)))) k = read_task_state rm k"
    using claim_and_dispatch_room [OF assms(5) r assms(6,9,10,8) _ assms(11) run] p(2) assms(7) by metis
  from c show ?thesis by (auto simp: assms(13) p)
qed

text \<open>Executing tasks that recovery leaves alone: those of other agents, those this run has claimed, and those whose
  invocation still runs.\<close>

definition left_executing :: "string \<Rightarrow> string set \<Rightarrow> InvocationState bmap \<Rightarrow> TaskState \<Rightarrow> bool" where
  "left_executing a live invocations task \<longleftrightarrow> tk_assigned_to task \<noteq> a \<or>
     (case tk_invocation_id task of
        None \<Rightarrow> False
      | Some i \<Rightarrow> i \<in> live \<or> (case bm_get invocations i of Some iv \<Rightarrow> \<not> inv_is_terminal (iv_state iv) | None \<Rightarrow> False))"

definition recovered_state :: "InvocationState bmap \<Rightarrow> TaskState \<Rightarrow> string" where
  "recovered_state invocations task = (case tk_invocation_id task of
       None \<Rightarrow> STATE_FAILED
     | Some i \<Rightarrow> (case bm_get invocations i of Some iv \<Rightarrow> iv_state iv | None \<Rightarrow> STATE_FAILED))"

lemma reconcile_left:
  assumes "tk_state task = STATE_EXECUTING" "left_executing a live invocations task"
  shows "snd (reconcile_one (pass_orchestrator px a) rd store live invocations task ps) = ps"
  using assms by (auto simp: left_executing_def reconcile_one_def is_assigned_def split: option.splits)

lemma finalize_executing:
  assumes "read_task_state rm k = Inr (Some (task, ev))" "tk_task_id task = k" "tk_state task = STATE_EXECUTING"
    and "bm_get cache k = None" "en_state (snd envs) TASK_STATE_TYPE k = Inr e"
    and "state = STATE_SUCCEEDED \<or> state = STATE_FAILED \<or> state = STATE_CANCELLED"
  obtains st where "so_finalize (matrix_task_store other_text room envs) (default_update \<lparr> ut_task_id := k, ut_state := Some state,
      ut_result := Some result, ut_expected_state_rev := Some (tk_state_rev task) \<rparr>) (rm, cache) =
      (Inr st, (rm \<lparr> rm_tasks := bm_insert k (Parsed st, Some e) (rm_tasks rm) \<rparr>, bm_insert k (st, None) cache))"
    "tk_state st = state" "tk_state_rev st = tk_state_rev task + 1" "tk_result st = Some result"
proof -
  let ?f = "default_update \<lparr> ut_task_id := k, ut_state := Some state,
      ut_result := Some result, ut_expected_state_rev := Some (tk_state_rev task) \<rparr>"
  let ?st = "apply_update (?f \<lparr> ut_room := room \<rparr>) (now_rfc3339 (snd envs)) ev task"
  have st: "tk_task_id ?st = k" "tk_state ?st = state" "tk_state_rev ?st = tk_state_rev task + 1" "tk_result ?st = Some result"
    by (simp_all add: apply_update_def default_update_def unwrap_or_def or_opt_def assms(2))
  have g: "update_guard task (?f \<lparr> ut_room := room \<rparr>) = Inr ()"
    by (rule executing_guard [OF assms(3,6)]) (simp_all add: default_update_def)
  have "scheduler_update (snd envs) (?f \<lparr> ut_room := room \<rparr>) (rm, cache) =
      (Inr ?st, (rm \<lparr> rm_tasks := bm_insert k (Parsed ?st, Some e) (rm_tasks rm) \<rparr>, bm_insert (tk_task_id ?st) (?st, None) cache))"
    by (rule scheduler_update_step [OF _ assms(5) g assms(1)])
      (simp_all add: default_update_def assms(3,4) executing_not_terminal)
  then have "so_finalize (matrix_task_store other_text room envs) ?f (rm, cache) =
      (Inr ?st, (rm \<lparr> rm_tasks := bm_insert k (Parsed ?st, Some e) (rm_tasks rm) \<rparr>, bm_insert k (?st, None) cache))"
    unfolding st(1) by (simp add: matrix_task_store_def store_apply_def map_err_def)
  then show thesis using that st by blast
qed

lemma inv_terminal_states: "inv_is_terminal s \<Longrightarrow> task_state_for_invocation s = Some s \<and>
   (s = STATE_SUCCEEDED \<or> s = STATE_FAILED \<or> s = STATE_CANCELLED)"
  by (auto simp: inv_is_terminal_def task_state_for_invocation_def inv_states task_states)

text \<open>C25. Recovery of executing tasks. After a restart nothing is run again. A task of another agent, of an
  invocation that this run has claimed, or of one that still runs is left as it is. Any other executing task of
  the agent is finished: in the state of its invocation when that has ended, as failed when there is none; one
  revision on, and no other task changes.\<close>

theorem executing_task_recovered:
  assumes "read_task_state rm (tk_task_id task) = Inr (Some (task, ev))" "tk_state task = STATE_EXECUTING"
    and "bm_get cache (tk_task_id task) = None" "ps_store ps = (rm, cache)"
    and "en_state (snd envs) TASK_STATE_TYPE (tk_task_id task) = Inr e"
    and "ps' = snd (reconcile_one (pass_orchestrator px a) rd (matrix_task_store other_text room envs) live invocations task ps)"
  shows "ps_runs ps' = ps_runs ps \<and> ps_replay ps' = ps_replay ps \<and>
    (if left_executing a live invocations task then ps' = ps
     else (\<exists>st. read_task_state (fst (ps_store ps')) (tk_task_id task) = Inr (Some (st, Some e)) \<and>
       tk_state st = recovered_state invocations task \<and> tk_state_rev st = tk_state_rev task + 1 \<and> tk_result st \<noteq> None)) \<and>
    (if k = tk_task_id task then True else read_task_state (fst (ps_store ps')) k = read_task_state rm k)"
proof (cases "left_executing a live invocations task")
  case True
  then show ?thesis by (simp add: reconcile_left [OF assms(2) True] assms(4,6))
next
  case False
  let ?orch = "pass_orchestrator px a"
  have as: "tk_assigned_to task = a" "(case tk_invocation_id task of Some i \<Rightarrow> i \<in> live | None \<Rightarrow> False) = False"
    using False by (auto simp: left_executing_def split: option.splits)
  have "\<exists>st result. tk_state st = recovered_state invocations task \<and> tk_state_rev st = tk_state_rev task + 1 \<and> tk_result st = Some result \<and>
      ps' = ps \<lparr> ps_store := (rm \<lparr> rm_tasks := bm_insert (tk_task_id task) (Parsed st, Some e) (rm_tasks rm) \<rparr>, bm_insert (tk_task_id task) (st, None) cache) \<rparr>"
  proof (cases "case tk_invocation_id task of Some i \<Rightarrow> bm_get invocations i | None \<Rightarrow> None")
    case None
    then have rs: "recovered_state invocations task = STATE_FAILED"
      by (auto simp: recovered_state_def split: option.splits)
    let ?result = "failure_result (unix_to_rfc3339 (rd_now rd)) a (tk_invocation_id task) None ''recovered_stale_invocation''
      (Some ''daemon restart found executing task without live local invocation'')"
    obtain st where "so_finalize (matrix_task_store other_text room envs) (default_update \<lparr> ut_task_id := tk_task_id task, ut_state := Some STATE_FAILED,
        ut_result := Some ?result, ut_expected_state_rev := Some (tk_state_rev task) \<rparr>) (rm, cache) =
        (Inr st, (rm \<lparr> rm_tasks := bm_insert (tk_task_id task) (Parsed st, Some e) (rm_tasks rm) \<rparr>, bm_insert (tk_task_id task) (st, None) cache))"
        "tk_state st = STATE_FAILED" "tk_state_rev st = tk_state_rev task + 1" "tk_result st = Some ?result"
      by (rule finalize_executing [OF assms(1) refl assms(2,3,5), of STATE_FAILED]) auto
    then show ?thesis
      using None as assms(2,4,6) rs
      by (intro exI [of _ st] exI [of _ ?result])
        (simp add: reconcile_one_def recover_stale_executing_def is_assigned_def on_store_def Let_def)
  next
    case (Some iv)
    then have t: "inv_is_terminal (iv_state iv)"
      using False by (auto simp: left_executing_def split: option.splits)
    have rs: "recovered_state invocations task = iv_state iv"
      using Some by (auto simp: recovered_state_def split: option.splits)
    let ?result = "into_value (task_result_from_invocation iv a (unix_to_rfc3339 (rd_now rd)))"
    obtain st where "so_finalize (matrix_task_store other_text room envs) (default_update \<lparr> ut_task_id := tk_task_id task, ut_state := Some (iv_state iv),
        ut_result := Some ?result, ut_expected_state_rev := Some (tk_state_rev task) \<rparr>) (rm, cache) =
        (Inr st, (rm \<lparr> rm_tasks := bm_insert (tk_task_id task) (Parsed st, Some e) (rm_tasks rm) \<rparr>, bm_insert (tk_task_id task) (st, None) cache))"
        "tk_state st = iv_state iv" "tk_state_rev st = tk_state_rev task + 1" "tk_result st = Some ?result"
      by (rule finalize_executing [OF assms(1) refl assms(2,3,5), of "iv_state iv"]) (use inv_terminal_states [OF t] in auto)
    then show ?thesis
      using Some as assms(4,6) rs t inv_terminal_states [OF t]
      by (intro exI [of _ st] exI [of _ ?result])
        (simp add: reconcile_one_def reconcile_terminal_invocation_def is_assigned_def on_store_def Let_def unwrap_or_def)
  qed
  then show ?thesis using False by auto
qed

subsection \<open>A signed task\<close>

definition sched_auth :: TaskActionAuthorization where
  "sched_auth = demo_auth \<lparr> au_target_agent := ''b'', au_nonce := ''n1'', au_expires_at := ''2026-06-02T12:05:00Z'' \<rparr>"

definition sched_action :: TaskAction where
  "sched_action = ExecAction [''/bin/git'', ''status''] ''/srv/project/sub'' [] None False (Some sched_auth)"

definition sched_task :: TaskState where
  "sched_task = demo_room_task \<lparr> tk_state := ''pending'', tk_assigned_to := ''b'', tk_created_by := ''@a:x'',
     tk_action := Some sched_action \<rparr>"

definition sched_room :: Room where
  "sched_room = demo_pending_room \<lparr> rm_tasks := [(''t1'', (Parsed sched_task, Some ''$1''))] \<rparr>"

definition sched_px :: "string PassContext" where
  "sched_px = \<lparr> px_room_id = ''!r:x'', px_policy = demo_policy,
     px_trust = [\<lparr> te_agent_id = ''a'', te_key_id = ''kid'', te_fingerprint = [], te_status = Trusted, te_room = None,
       te_trusted_by = None, te_created_at = 0, te_revoked_at = None \<rparr>],
     px_verifying_keys = [(''kid'', ''vk'')], px_decisions = [], px_expires_at = ''e'', px_now_unix = 100 \<rparr>"

definition sched_round :: "(string, string, matrix_store) Round" where
  "sched_round = \<lparr> rd_crypto = demo_crypto \<lparr> cr_verify := (\<lambda>_ _ _. True) \<rparr>, rd_regex = demo_rx, rd_print = (\<lambda>_. []),
     rd_debug = (\<lambda>s. s), rd_serde_error = [], rd_now = 100, rd_end = 101, rd_invocation_id = ''inv_1'', rd_audit_write = None,
     rd_cache_print = (\<lambda>_. []), rd_decision_write = None, rd_action_write = None, rd_forget_write = None,
     rd_dispatch = (\<lambda>_. Inr \<lparr> xe_exit_code = Some 0, xe_summary = [], xe_artifact_mxc = None \<rparr>), rd_meanwhile = id \<rparr>"

definition sched_pass :: "Room \<Rightarrow> matrix_store Pass" where
  "sched_pass rm = \<lparr> ps_store = (rm, []), ps_replay = (demo_cache \<lparr> rc_capacity := 10 \<rparr>, demo_store), ps_queue = [], ps_last_nonce = None,
     ps_audit = [], ps_runs = [] \<rparr>"

abbreviation sched_store :: "matrix_store TaskStore" where
  "sched_store \<equiv> matrix_task_store (\<lambda>_. []) ''!r:x'' (demo_env, demo_env)"

definition sched_run :: Dispatch where
  "sched_run = \<lparr> dp_task = apply_update ((claim_options (pass_orchestrator sched_px ''b'' :: (string, string, matrix_store) TaskOrchestrator)
       sched_round sched_task) \<lparr> ut_room := ''!r:x'' \<rparr>) (now_rfc3339 demo_env) (Some ''$1'') sched_task,
     dp_action = sched_action, dp_invocation_id = ''inv_1'', dp_limits = live_limits \<rparr>"

lemmas sched_defs = sched_round_def sched_px_def sched_task_def demo_room_task_def sched_action_def sched_auth_def demo_auth_def

lemma sched_entitled: "run_entitled sched_round sched_px ''b'' [sched_task] sched_task sched_run"
proof -
  have "action_wf sched_action" "action_floatless sched_action"
    by (simp_all add: sched_action_def bm_wf_def action_floatless_def action_json_no_float)
  then obtain bs where "action_bytes (rd_crypto sched_round) ''t1'' sched_action sched_auth = Inr bs"
    using action_bytes_total by blast
  then have v: "verify_task_action_signature (rd_crypto sched_round) ''vk'' ''t1'' sched_action sched_auth = Inr ()"
    unfolding verify_task_action_iff
    by (auto simp: verify_signature_def sched_round_def sched_auth_def demo_auth_def demo_crypto_def ALG_ED25519_def)
  have a: "evaluate_task_action (rd_regex sched_round) (px_policy sched_px) ''!r:x'' sched_task sched_action = Allow live_limits"
    using live_allow by (simp add: evaluate_task_action_def sched_defs)
  have t: "is_runnable (tk_state sched_task)" "is_key_trusted (px_trust sched_px) ''kid''"
      "bm_get (fold (\<lambda>(k, v). bm_insert k v) (px_verifying_keys sched_px) []) ''kid'' = Some ''vk''"
      "action_from_task sched_task = Inr sched_action" "authorization sched_action = Some sched_auth"
    by (simp_all add: sched_px_def sched_task_def is_runnable_def task_states is_key_trusted_def entry_is_trusted_def action_from_task_def
        sched_action_def authorization_def bm_get_def)
  have f: "tk_task_id sched_task = ''t1''" "tk_assigned_to sched_task = ''b''" "tk_depends_on sched_task = []"
      "px_room_id sched_px = ''!r:x''" "sg_key_id (au_signature sched_auth) = ''kid''" "au_target_agent sched_auth = ''b''"
    by (simp_all add: sched_defs)
  show ?thesis using v a t f by (simp add: run_entitled_def sched_run_def)
qed

lemma sched_fresh: "fresh_nonce sched_round (rd_action_write sched_round) (au_nonce sched_auth) (au_expires_at sched_auth)
    (ps_replay (sched_pass rm)) (\<lparr> rc_capacity = 10, rc_nonces = [(''n1'', 1780401900)] \<rparr>,
      \<lparr> rs_file = Inr [], rs_quarantine = None \<rparr>)"
  by (simp add: fresh_nonce_def sched_round_def sched_auth_def sched_pass_def demo_cache_def demo_store_def admit_at_def demo_expiry
      bm_get_def persist_def Let_def prune_expired_def evict.simps)

lemma sched_simps [simp]:
  "authorization sched_action = Some sched_auth" "dp_action sched_run = sched_action" "dp_limits sched_run = live_limits"
  "dp_invocation_id sched_run = rd_invocation_id sched_round" "rd_meanwhile sched_round = id" "tk_task_id sched_task = ''t1''"
  "ps_store (sched_pass rm) = (rm, [])" "tk_state sched_task = ''pending''" "tk_state_rev sched_task = 3" "ps_runs (sched_pass rm) = []"
  "rd_invocation_id sched_round = ''inv_1''"
  by (simp_all add: sched_defs sched_run_def sched_pass_def authorization_def)

lemma sched_read: "read_task_state sched_room ''t1'' = Inr (Some (sched_task, Some ''$1''))"
  by (simp add: read_task_state_def sched_room_def bm_get_def)

theorem authorized_task_finishes_witness:
  "\<exists>st. read_task_state (fst (ps_store (snd (process_one (pass_orchestrator sched_px ''b'') sched_round sched_store sched_task
       [sched_task] (sched_pass sched_room))))) ''t1'' = Inr (Some (st, Some ''$2'')) \<and>
     tk_state st = ''succeeded'' \<and> tk_state_rev st = 5"
proof -
  have "finished_state (rd_dispatch sched_round sched_run) = ''succeeded''"
    by (simp add: finished_state_def sched_round_def is_success_def task_states)
  then show ?thesis
    using authorized_task_finishes [where ps = "sched_pass sched_room" and envs = "(demo_env, demo_env)" and room = "''!r:x''"
        and other_text = "\<lambda>_. []" and e = "''$2''" and e' = "''$2''" and rm = sched_room and ev = "Some ''$1''" and cache = "[]",
        OF sched_entitled _ _ sched_fresh _ _ _ _ _ _ _ _ refl] sched_read
    by (auto simp: sched_run_def demo_env_def bm_get_def)
qed

lemma sched_env: "en_state demo_env a b = Inr ''$2''"
  by (simp add: demo_env_def)

lemma sched_runs: "ps_runs (run_step (sched_px, ''b'', sched_round, sched_store, sched_task, [sched_task]) (sched_pass sched_room)) \<noteq> []"
proof -
  obtain ps2 where p: "process_one (pass_orchestrator sched_px ''b'') sched_round sched_store sched_task [sched_task] (sched_pass sched_room) =
      claim_and_dispatch (pass_orchestrator sched_px ''b'') sched_round sched_store sched_task sched_action live_limits ps2"
      "ps_store ps2 = (sched_room, [])"
    using process_one_proceeds [OF entitled_authorized [OF sched_entitled] _ pass_orchestrator_simps(6) _ sched_fresh] by (metis sched_simps live_limits_simps)
  show ?thesis
    using claim_and_dispatch_room [where orch = "pass_orchestrator sched_px ''b''" and other_text = "\<lambda>_. []" and room = "''!r:x''"
        and action = sched_action and limits = live_limits and task = sched_task and envs = "(demo_env, demo_env)" and rd = sched_round
        and ?e1.0 = "''$2''" and ?e2.0 = "''$2''" and k = "[]", OF _ _ _ _ _ _ p(2) refl refl] sched_read
    by (auto simp: run_step_def p(1) sched_env is_runnable_def task_states bm_get_def)
qed


theorem scheduler_pass_bounded_witness:
  "length (gp_runs (snd (scheduler_pass_for_agent
     \<lparr> pv_rounds = (\<lambda>_. sched_round), pv_envs = (\<lambda>_. (demo_env, demo_env)), pv_error_text = (\<lambda>_. []), pv_cache_read = (\<lambda>_. None),
       pv_quarantine = True, pv_load_now = 100 \<rparr> sched_px (live_agent ''b'' ''@b:x'') [sched_task]
     \<lparr> gp_room = sched_room, gp_replay = demo_store, gp_queue = [], gp_audit = [], gp_claimed = {}, gp_attempted = {}, gp_runs = [] \<rparr>))) \<le> 2"
  using scheduler_pass_bounded [of "[sched_task]"
      "\<lparr> pv_rounds = (\<lambda>_. sched_round), pv_envs = (\<lambda>_. (demo_env, demo_env)), pv_error_text = (\<lambda>_. []), pv_cache_read = (\<lambda>_. None),
       pv_quarantine = True, pv_load_now = 100 \<rparr>" sched_px "live_agent ''b'' ''@b:x''"
      "\<lparr> gp_room = sched_room, gp_replay = demo_store, gp_queue = [], gp_audit = [], gp_claimed = {}, gp_attempted = {}, gp_runs = [] \<rparr>"]
  by (simp add: task_states live_agent_def demo_hb_agent_def)


definition sched_orphan :: TaskState where
  "sched_orphan = sched_task \<lparr> tk_state := ''executing'', tk_invocation_id := Some ''i0'' \<rparr>"

theorem executing_task_recovered_witness:
  "\<exists>st. read_task_state (fst (ps_store (snd (reconcile_one (pass_orchestrator sched_px ''b'') sched_round sched_store {} [] sched_orphan
       (sched_pass (sched_room \<lparr> rm_tasks := [(''t1'', (Parsed sched_orphan, Some ''$1''))] \<rparr>)))))) ''t1'' = Inr (Some (st, Some ''$2'')) \<and>
     tk_state st = ''failed'' \<and> tk_state_rev st = 4"
proof -
  let ?rm = "sched_room \<lparr> rm_tasks := [(''t1'', (Parsed sched_orphan, Some ''$1''))] \<rparr>"
  have f: "tk_task_id sched_orphan = ''t1''" "tk_state sched_orphan = STATE_EXECUTING" "tk_state_rev sched_orphan = 3"
    "\<not> left_executing ''b'' {} [] sched_orphan" "recovered_state [] sched_orphan = ''failed''"
    by (simp_all add: sched_orphan_def task_states left_executing_def recovered_state_def bm_get_def) (simp add: sched_defs)
  have r: "read_task_state ?rm (tk_task_id sched_orphan) = Inr (Some (sched_orphan, Some ''$1''))"
    by (simp add: read_task_state_def bm_get_def f)
  from executing_task_recovered [OF r f(2), of "[]" "sched_pass ?rm" "(demo_env, demo_env)" "''$2''", OF _ _ _ refl,
      of sched_px "''b''" sched_round "\<lambda>_. []" "''!r:x''" "{}" "[]"]
  show ?thesis using f by (auto simp: bm_get_def sched_env)
qed

subsection \<open>Two replay caches over one file\<close>



end
