(* ===== verification/Seccomp.thy ===== *)
theory Seccomp
  imports Child_Env Canonical_Json
begin

text \<open>
  The curated seccomp profile, \<open>crates/mx-agent-sandbox/src/seccomp.rs\<close>: the table of allowed system calls, the
  filter compiled from it for processes on the host and under bubblewrap, its byte layout, and the profile for
  containers. The numbers \<open>libc::SYS_*\<close> of the target are the function \<open>sys\<close> from names, \<open>arch\<close> is the
  name of the target architecture, and the compiler of filters is the record \<open>seccompiler\<close>.
\<close>

unbundle bit_operations_syntax

subsection \<open>The table\<close>

definition allow_io :: "string list" where
  "allow_io = [
    ''read'', ''write'', ''close'', ''close_range'', ''openat'', ''openat2'', ''lseek'', ''pread64'',
    ''pwrite64'', ''readv'', ''writev'', ''preadv'', ''pwritev'', ''preadv2'', ''pwritev2'', ''pipe2'',
    ''dup'', ''dup3'', ''fcntl'', ''flock'', ''fsync'', ''fdatasync'', ''ftruncate'', ''truncate'',
    ''getdents64'', ''splice'', ''tee'', ''ioctl'', ''readahead'', ''fadvise64'', ''copy_file_range'',
    ''fallocate'']"

definition allow_fs :: "string list" where
  "allow_fs = [
    ''getcwd'', ''chdir'', ''fchdir'', ''renameat2'', ''mkdirat'', ''unlinkat'', ''symlinkat'', ''linkat'',
    ''readlinkat'', ''fchmodat'', ''fchmod'', ''fchownat'', ''fchown'', ''faccessat'', ''faccessat2'',
    ''newfstatat'', ''fstat'', ''statx'', ''statfs'', ''fstatfs'', ''utimensat'', ''umask'', ''mknodat'']"

definition allow_memory :: "string list" where
  "allow_memory = [
    ''mmap'', ''munmap'', ''mremap'', ''mprotect'', ''madvise'', ''msync'', ''mlock'', ''munlock'', ''mlock2'',
    ''mlockall'', ''munlockall'', ''mincore'', ''brk'']"

definition allow_signals :: "string list" where
  "allow_signals = [
    ''rt_sigaction'', ''rt_sigprocmask'', ''rt_sigreturn'', ''rt_sigpending'', ''rt_sigtimedwait'',
    ''rt_sigsuspend'', ''rt_sigqueueinfo'', ''sigaltstack'']"

definition allow_process :: "string list" where
  "allow_process = [
    ''clone'', ''clone3'', ''execve'', ''execveat'', ''exit'', ''exit_group'', ''wait4'', ''waitid'', ''kill'',
    ''tkill'', ''tgkill'', ''set_tid_address'', ''set_robust_list'', ''get_robust_list'', ''futex'',
    ''futex_waitv'', ''rseq'', ''membarrier'', ''restart_syscall'']"

definition allow_time :: "string list" where
  "allow_time = [
    ''nanosleep'', ''clock_nanosleep'', ''clock_gettime'', ''clock_getres'', ''gettimeofday'', ''getrandom'',
    ''setitimer'', ''getitimer'', ''timer_create'', ''timer_settime'', ''timer_gettime'', ''timer_getoverrun'',
    ''timer_delete'']"

definition allow_introspection :: "string list" where
  "allow_introspection = [
    ''uname'', ''sysinfo'', ''getpid'', ''getppid'', ''gettid'', ''getuid'', ''geteuid'', ''getgid'',
    ''getegid'', ''getgroups'', ''setgroups'', ''getpgid'', ''setpgid'', ''getsid'', ''setsid'',
    ''getpriority'', ''setpriority'', ''sched_getaffinity'', ''sched_setaffinity'', ''sched_yield'',
    ''sched_getparam'', ''sched_getscheduler'', ''prctl'', ''prlimit64'', ''getrusage'', ''times'', ''capget'',
    ''capset'', ''getresuid'', ''getresgid'', ''setuid'', ''setgid'', ''setreuid'', ''setregid'',
    ''setresuid'', ''setresgid'', ''setfsuid'', ''setfsgid'', ''sched_setparam'', ''sched_setscheduler'',
    ''sched_get_priority_max'', ''sched_get_priority_min'', ''sched_rr_get_interval'', ''sched_getattr'',
    ''sched_setattr'', ''rt_tgsigqueueinfo'', ''getcpu'']"

definition allow_poll :: "string list" where
  "allow_poll = [
    ''epoll_create1'', ''epoll_ctl'', ''epoll_pwait'', ''epoll_pwait2'', ''ppoll'', ''pselect6'', ''eventfd2'',
    ''signalfd4'', ''timerfd_create'', ''timerfd_settime'', ''timerfd_gettime'', ''inotify_init1'',
    ''inotify_add_watch'', ''inotify_rm_watch'', ''memfd_create'', ''pidfd_open'', ''pidfd_send_signal'',
    ''pidfd_getfd'']"

definition allow_xattr :: "string list" where
  "allow_xattr = [
    ''getxattr'', ''lgetxattr'', ''fgetxattr'', ''listxattr'', ''llistxattr'', ''flistxattr'', ''setxattr'',
    ''lsetxattr'', ''fsetxattr'', ''removexattr'', ''lremovexattr'', ''fremovexattr'']"

definition allow_sysv :: "string list" where
  "allow_sysv = [
    ''semget'', ''semop'', ''semtimedop'', ''semctl'', ''shmget'', ''shmat'', ''shmdt'', ''shmctl'',
    ''msgget'', ''msgsnd'', ''msgrcv'', ''msgctl'']"

definition allow_io_uring :: "string list" where
  "allow_io_uring = [
    ''io_uring_setup'', ''io_uring_enter'', ''io_uring_register'']"

definition allow_misc :: "string list" where
  "allow_misc = [
    ''personality'', ''process_vm_readv'', ''process_vm_writev'']"

definition allow_sockets :: "string list" where
  "allow_sockets = [
    ''socket'', ''socketpair'', ''connect'', ''bind'', ''listen'', ''accept'', ''accept4'', ''getsockname'',
    ''getpeername'', ''getsockopt'', ''setsockopt'', ''sendto'', ''recvfrom'', ''sendmsg'', ''recvmsg'',
    ''sendmmsg'', ''recvmmsg'', ''shutdown'']"

definition allow_legacy :: "string list" where
  "allow_legacy = [
    ''fork'', ''vfork'', ''open'', ''stat'', ''lstat'', ''poll'', ''select'', ''access'', ''pipe'', ''dup2'',
    ''rename'', ''renameat'', ''mkdir'', ''rmdir'', ''unlink'', ''symlink'', ''link'', ''readlink'', ''chmod'',
    ''chown'', ''creat'', ''getdents'', ''epoll_create'', ''epoll_wait'', ''eventfd'', ''signalfd'',
    ''inotify_init'', ''alarm'', ''pause'', ''time'', ''getpgrp'', ''utimes'', ''futimesat'', ''arch_prctl'',
    ''sendfile'', ''lchown'', ''utime'', ''getrlimit'', ''mknod'']"

record Allowed =
  sy_name :: string
  sy_number :: int

definition allow_names :: "string \<Rightarrow> string list" where
  "allow_names arch = allow_io @ allow_fs @ allow_memory @ allow_signals @ allow_process @ allow_time @ allow_introspection @
     allow_poll @ allow_xattr @ allow_sysv @ allow_io_uring @ allow_misc @ allow_sockets @ (if arch = ''x86_64'' then allow_legacy else [])"

definition allowlist :: "string \<Rightarrow> (string \<Rightarrow> int) \<Rightarrow> Allowed list" where
  "allowlist arch sys = map (\<lambda>n. \<lparr> sy_name = n, sy_number = sys n \<rparr>) (allow_names arch)"

subsection \<open>The compiled filter\<close>

typedecl SeccompRule

datatype SeccompAction = Errno u32 | AllowCall

record sock_filter =
  sf_code :: "16 word"
  sf_jt :: "8 word"
  sf_jf :: "8 word"
  sf_k :: u32

record ('e, 'arch, 'f) seccompiler =
  sc_arch :: "string \<Rightarrow> 'arch option"
  sc_filter :: "(int \<rightharpoonup> SeccompRule list) \<Rightarrow> SeccompAction \<Rightarrow> SeccompAction \<Rightarrow> 'arch \<Rightarrow> ('e, 'f) result"
  sc_compile :: "'f \<Rightarrow> ('e, sock_filter list) result"

datatype 'e SeccompError = UnsupportedArch string | BuildError 'e | WriteError io_kind

definition target_arch :: "('e, 'arch, 'f) seccompiler \<Rightarrow> string \<Rightarrow> ('e SeccompError, 'arch) result" where
  "target_arch sc arch = ok_or (sc_arch sc arch) (UnsupportedArch arch)"

definition default_errno :: u32 where "default_errno = 1"

definition default_bpf_program ::
  "('e, 'arch, 'f) seccompiler \<Rightarrow> string \<Rightarrow> (string \<Rightarrow> int) \<Rightarrow> ('e SeccompError, sock_filter list) result" where
  "default_bpf_program sc arch sys =
     and_then (target_arch sc arch) (\<lambda>target.
     let rules = fold (\<lambda>s m. m(sy_number s \<mapsto> [])) (allowlist arch sys) Map.empty
     in and_then (map_err BuildError (sc_filter sc rules (Errno default_errno) AllowCall target)) (\<lambda>filter.
        map_err BuildError (sc_compile sc filter)))"

definition le_bytes16 :: "16 word \<Rightarrow> 8 word list" where
  "le_bytes16 w = [ucast w, ucast (drop_bit 8 w)]"

definition le_bytes32 :: "u32 \<Rightarrow> 8 word list" where
  "le_bytes32 w = [ucast w, ucast (drop_bit 8 w), ucast (drop_bit 16 w), ucast (drop_bit 24 w)]"

text \<open>\<open>to_ne_bytes\<close> on the little-endian targets the compiler supports.\<close>

definition serialize_bpf_program :: "sock_filter list \<Rightarrow> 8 word list" where
  "serialize_bpf_program program =
     concat (map (\<lambda>insn. le_bytes16 (sf_code insn) @ [sf_jt insn, sf_jf insn] @ le_bytes32 (sf_k insn)) program)"

subsection \<open>The profile for containers\<close>

definition oci_architectures :: "string \<Rightarrow> string list" where
  "oci_architectures arch =
     (if arch = ''x86_64'' then [''SCMP_ARCH_X86_64'', ''SCMP_ARCH_X86'', ''SCMP_ARCH_X32'']
      else if arch = ''aarch64'' then [''SCMP_ARCH_AARCH64'', ''SCMP_ARCH_ARM''] else [])"

definition default_profile_json :: "string \<Rightarrow> (string \<Rightarrow> int) \<Rightarrow> json" where
  "default_profile_json arch sys =
     (let names = map sy_name (allowlist arch sys)
      in JObject [(''defaultAction'', JString ''SCMP_ACT_ERRNO''), (''defaultErrnoRet'', JNum (PosInt (ucast default_errno))),
        (''architectures'', JArray (map JString (oci_architectures arch))),
        (''syscalls'', JArray [JObject [(''names'', JArray (map JString names)), (''action'', JString ''SCMP_ACT_ALLOW'')]])])"

subsection \<open>Lemmas\<close>

text \<open>How the kernel reads the bytes of a program.\<close>

fun read_program :: "8 word list \<Rightarrow> sock_filter list option" where
  "read_program [] = Some []"
| "read_program (c0 # c1 # jt # jf # k0 # k1 # k2 # k3 # bs) =
     map_option (Cons \<lparr> sf_code = ucast c0 OR push_bit 8 (ucast c1), sf_jt = jt, sf_jf = jf,
       sf_k = ucast k0 OR push_bit 8 (ucast k1) OR push_bit 16 (ucast k2) OR push_bit 24 (ucast k3) \<rparr>) (read_program bs)"
| "read_program _ = None"

lemma le16: "(ucast (ucast w :: 8 word) :: 16 word) OR push_bit 8 (ucast (ucast (drop_bit 8 w) :: 8 word)) = w"
  by (rule bit_eqI) (auto simp: bit_simps not_less dest: bit_imp_le_length)

lemma le32: "(ucast (ucast w :: 8 word) :: u32) OR push_bit 8 (ucast (ucast (drop_bit 8 w) :: 8 word)) OR
   push_bit 16 (ucast (ucast (drop_bit 16 w) :: 8 word)) OR push_bit 24 (ucast (ucast (drop_bit 24 w) :: 8 word)) = w"
  (is "?v = w")
proof (rule bit_eqI)
  fix n :: nat
  consider "n < 8" | "8 \<le> n" "n < 16" | "16 \<le> n" "n < 24" | "24 \<le> n" by linarith
  then show "bit ?v n = bit w n"
    by cases (auto simp: bit_simps dest: bit_imp_le_length)
qed

lemma read_serialized: "read_program (serialize_bpf_program program) = Some program"
  by (induction program) (auto simp: serialize_bpf_program_def le_bytes16_def le_bytes32_def le16 le32)

lemma table_rules: "(fold (\<lambda>s m. m(sy_number s \<mapsto> [])) (allowlist arch sys) m) nr =
    (if nr \<in> sys ` set (allow_names arch) then Some [] else m nr)"
proof -
  have "(fold (\<lambda>s m. m(sy_number s \<mapsto> [])) (map (\<lambda>n. \<lparr> sy_name = n, sy_number = sys n \<rparr>) ns) m) nr =
      (if nr \<in> sys ` set ns then Some [] else m nr)" for ns
    by (induction ns arbitrary: m) auto
  then show ?thesis by (simp add: allowlist_def)
qed

text \<open>System calls that let a process leave or weaken its confinement, and those a program needs to start.\<close>

definition escape_calls :: "string list" where
  "escape_calls = [''mount'', ''umount2'', ''pivot_root'', ''chroot'', ''unshare'', ''setns'', ''ptrace'', ''bpf'', ''init_module'',
     ''kexec_load'', ''reboot'', ''keyctl'', ''userfaultfd'', ''open_by_handle_at'']"

definition startup_calls :: "string list" where
  "startup_calls = [''execve'', ''execveat'', ''mmap'', ''mprotect'', ''munmap'', ''brk'', ''clone'', ''clone3'', ''futex'',
     ''rt_sigaction'', ''rt_sigprocmask'', ''exit'', ''exit_group'', ''openat'', ''read'', ''write'', ''close'']"

lemmas allow_defs = allow_names_def allow_io_def allow_fs_def allow_memory_def allow_signals_def allow_process_def allow_time_def
  allow_introspection_def allow_poll_def allow_xattr_def allow_sysv_def allow_io_uring_def allow_misc_def allow_sockets_def allow_legacy_def

lemma escape_denied: "list_all (\<lambda>n. n \<notin> set (allow_names ''x86_64'')) escape_calls"
  by (simp add: allow_defs escape_calls_def)

lemma startup_allowed: "list_all (\<lambda>n. n \<in> set (allow_names ''aarch64'')) startup_calls"
  by (simp add: allow_defs startup_calls_def)

lemma allow_names_mono: "set (allow_names ''aarch64'') \<subseteq> set (allow_names arch) \<and> set (allow_names arch) \<subseteq> set (allow_names ''x86_64'')"
  by (auto simp: allow_names_def)

text \<open>What a compiled filter does with a system call: \<open>run\<close> is the decision of the kernel for a program and a
  number. An empty list of rules matches every argument.\<close>

definition compiler_law :: "('e, 'arch, 'f) seccompiler \<Rightarrow> (sock_filter list \<Rightarrow> int \<Rightarrow> SeccompAction) \<Rightarrow> bool" where
  "compiler_law sc run \<longleftrightarrow> (\<forall>rules mismatch matched arch f prog nr.
     sc_filter sc rules mismatch matched arch = Inr f \<and> sc_compile sc f = Inr prog \<and> 0 \<le> nr \<and> nr < 2 ^ 32 \<longrightarrow>
       (rules nr = Some [] \<longrightarrow> run prog nr = matched) \<and> (rules nr = None \<longrightarrow> run prog nr = mismatch))"

text \<open>What a container runtime reads from a profile: the action of a block that lists the name, else the default.\<close>

fun oci_act :: "string \<Rightarrow> json \<Rightarrow> SeccompAction" where
  "oci_act act errno = (if act = ''SCMP_ACT_ALLOW'' then AllowCall
     else (case errno of JNum (PosInt n) \<Rightarrow> Errno (ucast n) | _ \<Rightarrow> Errno 1))"

fun oci_block :: "string \<Rightarrow> json \<Rightarrow> json \<Rightarrow> SeccompAction option" where
  "oci_block name errno (JObject b) = (case (map_of b ''names'', map_of b ''action'') of
       (Some (JArray names), Some (JString act)) \<Rightarrow> if JString name \<in> set names then Some (oci_act act errno) else None
     | _ \<Rightarrow> None)"
| "oci_block _ _ _ = None"

fun oci_action :: "json \<Rightarrow> string \<Rightarrow> SeccompAction option" where
  "oci_action (JObject p) name = (case (map_of p ''defaultAction'', map_of p ''defaultErrnoRet'', map_of p ''syscalls'') of
       (Some (JString act), Some errno, Some (JArray blocks)) \<Rightarrow>
         (case List.map_filter (oci_block name errno) blocks of a # _ \<Rightarrow> Some a | [] \<Rightarrow> Some (oci_act act errno))
     | _ \<Rightarrow> None)"
| "oci_action _ _ = None"


text \<open>For the witness: a compiler that keeps the numbers of the table, one instruction each, and system calls
  numbered by their place in the table.\<close>

definition demo_compiler :: "(unit, unit, int \<rightharpoonup> SeccompRule list) seccompiler" where
  "demo_compiler = \<lparr> sc_arch = (\<lambda>_. Some ()),
     sc_filter = (\<lambda>rules mismatch matched _. if finite (dom rules) \<and> dom rules \<subseteq> {0..<2 ^ 32} \<and> mismatch = Errno 1 \<and> matched = AllowCall
       then Inr rules else Inl ()),
     sc_compile = (\<lambda>rules. Inr (map (\<lambda>nr. \<lparr> sf_code = 21, sf_jt = 0, sf_jf = 1, sf_k = of_int nr \<rparr>) (sorted_list_of_set (dom rules)))) \<rparr>"

definition demo_kernel :: "sock_filter list \<Rightarrow> int \<Rightarrow> SeccompAction" where
  "demo_kernel prog nr = (if of_int nr \<in> sf_k ` set prog then AllowCall else Errno 1)"

fun place :: "string list \<Rightarrow> string \<Rightarrow> int" where
  "place [] n = 0"
| "place (x # xs) n = (if n = x then 0 else 1 + place xs n)"

lemma place_bounds: "0 \<le> place xs n \<and> place xs n \<le> int (length xs)"
  by (induction xs) auto

lemma place_inj: "place xs m = place xs n \<Longrightarrow> m \<in> set xs \<Longrightarrow> m = n"
proof (induction xs)
  case (Cons x xs)
  then show ?case using place_bounds [of xs m] place_bounds [of xs n] by (auto split: if_splits)
qed simp

lemma demo_compiler_law: "compiler_law demo_compiler demo_kernel"
proof -
  have "demo_kernel (map (\<lambda>nr. \<lparr> sf_code = 21, sf_jt = 0, sf_jf = 1, sf_k = of_int nr \<rparr>) (sorted_list_of_set (dom rules))) nr =
      (if nr \<in> dom rules then AllowCall else Errno 1)"
    if d: "finite (dom rules)" "dom rules \<subseteq> {0..<2 ^ 32}" and nr: "0 \<le> nr" "nr < 2 ^ 32" for rules :: "int \<rightharpoonup> SeccompRule list" and nr
  proof -
    have "(of_int nr :: u32) = of_int m \<Longrightarrow> m \<in> dom rules \<Longrightarrow> nr = m" for m
      using d(2) nr by (auto simp: word_of_int_eq_iff take_bit_int_eq_self subset_iff)
    then show ?thesis using d(1) by (auto simp: demo_kernel_def image_iff)
  qed
  then show ?thesis by (auto simp: compiler_law_def demo_compiler_def split: if_splits)
qed


end
