(* ===== verification/Confinement.thy ===== *)
theory Confinement
  imports Seccomp Task_Dispatch
begin

text \<open>
  How a command is confined: the sandbox back ends of \<open>crates/mx-agent-sandbox/src/lib.rs\<close>, which rewrite a command
  line, the launcher process of \<open>launcher.rs\<close>, which applies limits and the filter to itself before it becomes the
  command, and the part of \<open>crates/mx-agent-daemon/src/runner.rs\<close> that builds, starts and supervises a command.
  Paths are text. What the operating system answers is the record \<open>RunnerOs\<close> for building a command and \<open>ChildOs\<close>
  for running it, \<open>dbg\<close> is the quoting of \<open>{:?}\<close>; the target is Linux.
\<close>

subsection \<open>Back ends\<close>

record Restrictions =
  rx_cwd :: string
  rx_env :: "string bmap"
  rx_timeout_ms :: "u64 option"
  rx_max_output_bytes :: "u64 option"
  rx_network :: Network
  rx_read_only_paths :: "string list"
  rx_writable_paths :: "string list"
  rx_interactive :: bool
  rx_resources :: ResourceLimits
  rx_seccomp :: SeccompMode
  rx_seccomp_profile_path :: "string option"
  rx_run_uid :: "u32 option"
  rx_run_gid :: "u32 option"

record Prepared =
  pp_backend :: Backend
  pp_argv :: "string list"
  pp_restrictions :: Restrictions

datatype SandboxImpl = NoneSandbox | BubblewrapSandbox | ContainerSandbox Runtime string

definition no_limits :: ResourceLimits where
  "no_limits = \<lparr> rl_max_processes = None, rl_max_memory_bytes = None, rl_max_cpu_seconds = None \<rparr>"

definition is_unset :: "ResourceLimits \<Rightarrow> bool" where
  "is_unset r \<longleftrightarrow> r = no_limits"

fun seccomp_is_on :: "SeccompMode \<Rightarrow> bool" where
  "seccomp_is_on ModeDefault = True"
| "seccomp_is_on ModeOff = False"

fun mode_name :: "SeccompMode \<Rightarrow> string" where
  "mode_name ModeOff = ''off''"
| "mode_name ModeDefault = ''default''"

fun backend_name :: "Backend \<Rightarrow> string" where
  "backend_name BackendNone = ''none''"
| "backend_name BackendBubblewrap = ''bubblewrap''"
| "backend_name BackendContainer = ''container''"

fun runtime_program :: "Runtime \<Rightarrow> string" where
  "runtime_program RuntimeDocker = ''docker''"
| "runtime_program RuntimePodman = ''podman''"

definition bubblewrap_prepare :: "string list \<Rightarrow> Restrictions \<Rightarrow> Prepared" where
  "bubblewrap_prepare argv r = \<lparr> pp_backend = BackendBubblewrap,
     pp_argv = [''bwrap'', ''--die-with-parent'', ''--unshare-pid'', ''--unshare-uts'', ''--unshare-ipc'', ''--unshare-user'',
         ''--cap-drop'', ''ALL''] @
       (if rx_interactive r then [] else [''--new-session'']) @
       (if rx_network r = NetworkDeny then [''--unshare-net''] else []) @
       [''--proc'', ''/proc'', ''--dev'', ''/dev'', ''--tmpfs'', ''/tmp''] @
       concat (map (\<lambda>p. [''--ro-bind'', p, p]) (rx_read_only_paths r)) @
       concat (map (\<lambda>p. [''--bind'', p, p]) (rx_writable_paths r)) @
       [''--chdir'', rx_cwd r, ''--''] @ argv,
     pp_restrictions = r \<rparr>"

fun seccomp_fd_args :: "string list \<Rightarrow> string list \<Rightarrow> string list" where
  "seccomp_fd_args ins [] = ins"
| "seccomp_fd_args ins (a # argv) = (if a = ''--'' then ins @ a # argv else a # seccomp_fd_args ins argv)"

definition bubblewrap_with_seccomp_fd :: "string list \<Rightarrow> nat \<Rightarrow> string list" where
  "bubblewrap_with_seccomp_fd argv fd = seccomp_fd_args [''--seccomp'', dec fd] argv"

definition container_identity :: "Runtime \<Rightarrow> Restrictions \<Rightarrow> string list" where
  "container_identity runtime r = (case rx_run_uid r of
       None \<Rightarrow> []
     | Some uid \<Rightarrow>
        (case runtime of
           RuntimeDocker \<Rightarrow> [''--user'', dec (unat uid) @ '':'' @ dec (unat (unwrap_or (rx_run_gid r) uid))]
         | RuntimePodman \<Rightarrow> [''--userns=keep-id'']) @
        [''--cap-drop'', ''ALL''])"

definition container_limits :: "ResourceLimits \<Rightarrow> string list" where
  "container_limits l =
     (case rl_max_processes l of Some n \<Rightarrow> [''--pids-limit'', dec (unat n)] | None \<Rightarrow> []) @
     (case rl_max_memory_bytes l of Some n \<Rightarrow> [''--memory'', dec (unat n)] | None \<Rightarrow> []) @
     (case rl_max_cpu_seconds l of Some n \<Rightarrow> [''--ulimit'', ''cpu='' @ dec (unat n) @ '':'' @ dec (unat n)] | None \<Rightarrow> [])"

definition container_prepare :: "Runtime \<Rightarrow> string \<Rightarrow> string list \<Rightarrow> Restrictions \<Rightarrow> Prepared" where
  "container_prepare runtime img argv r = \<lparr> pp_backend = BackendContainer,
     pp_argv = [runtime_program runtime, ''run'', ''--rm'', ''--read-only'', ''--security-opt'', ''no-new-privileges''] @
       (if seccomp_is_on (rx_seccomp r)
        then (case rx_seccomp_profile_path r of Some path \<Rightarrow> [''--security-opt'', ''seccomp='' @ path] | None \<Rightarrow> [])
        else []) @
       container_identity runtime r @ container_limits (rx_resources r) @
       (if rx_interactive r then [''-i'', ''-t''] else []) @
       (if rx_network r = NetworkDeny then [''--network'', ''none''] else []) @
       concat (map (\<lambda>kv. [''--env'', fst kv]) (rx_env r)) @
       concat (map (\<lambda>p. [''--volume'', p @ '':'' @ p @ '':ro'']) (rx_read_only_paths r)) @
       concat (map (\<lambda>p. [''--volume'', p @ '':'' @ p]) (rx_writable_paths r)) @
       [''--workdir'', rx_cwd r, img] @ argv,
     pp_restrictions = r \<rparr>"

fun prepare :: "SandboxImpl \<Rightarrow> string list \<Rightarrow> Restrictions \<Rightarrow> Prepared" where
  "prepare NoneSandbox argv r = \<lparr> pp_backend = BackendNone, pp_argv = argv, pp_restrictions = r \<rparr>"
| "prepare BubblewrapSandbox argv r = bubblewrap_prepare argv r"
| "prepare (ContainerSandbox runtime img) argv r = container_prepare runtime img argv r"

definition DEFAULT_IMAGE :: string where "DEFAULT_IMAGE = ''debian:stable-slim''"

fun sandbox_for :: "Backend \<Rightarrow> SandboxImpl" where
  "sandbox_for BackendNone = NoneSandbox"
| "sandbox_for BackendBubblewrap = BubblewrapSandbox"
| "sandbox_for BackendContainer = ContainerSandbox RuntimeDocker DEFAULT_IMAGE"

definition sandbox_for_container :: "Runtime \<Rightarrow> string option \<Rightarrow> SandboxImpl" where
  "sandbox_for_container runtime img = ContainerSandbox runtime (unwrap_or img DEFAULT_IMAGE)"

fun backend_program :: "Backend \<Rightarrow> Runtime \<Rightarrow> string option" where
  "backend_program BackendNone _ = None"
| "backend_program BackendBubblewrap _ = Some ''bwrap''"
| "backend_program BackendContainer runtime = Some (runtime_program runtime)"

definition find_in_path :: "(string \<Rightarrow> bool) \<Rightarrow> string \<Rightarrow> string \<Rightarrow> string option" where
  "find_in_path exists program path =
     find exists (map (\<lambda>dir. path_join dir program) (filter (\<lambda>dir. dir \<noteq> []) (split_on CHR '':'' path)))"

definition preflight_backend_in :: "(string \<Rightarrow> string) \<Rightarrow> (string \<Rightarrow> bool) \<Rightarrow> Backend \<Rightarrow> Runtime \<Rightarrow> string \<Rightarrow> (string, unit) result" where
  "preflight_backend_in dbg exists backend runtime path = (case backend_program backend runtime of
       None \<Rightarrow> Inr ()
     | Some program \<Rightarrow>
        if find_in_path exists program path \<noteq> None then Inr ()
        else Inl (''sandbox backend '' @ dbg (backend_name backend) @ '' selected but its launcher `'' @ program @
          ''` was not found on PATH''))"

subsection \<open>The launcher\<close>

definition LAUNCHER_SUBCOMMAND :: string where "LAUNCHER_SUBCOMMAND = ''__sandbox-exec''"

record LauncherArgs =
  la_resources :: ResourceLimits
  la_seccomp :: SeccompMode
  la_command :: "string list"

definition launcher_is_needed :: "ResourceLimits \<Rightarrow> SeccompMode \<Rightarrow> bool \<Rightarrow> bool" where
  "launcher_is_needed resources seccomp is_none_backend \<longleftrightarrow>
     \<not> is_unset resources \<or> (is_none_backend \<and> seccomp_is_on seccomp)"

definition to_args :: "LauncherArgs \<Rightarrow> string list" where
  "to_args a =
     (case rl_max_processes (la_resources a) of Some n \<Rightarrow> [''--nproc'', dec (unat n)] | None \<Rightarrow> []) @
     (case rl_max_memory_bytes (la_resources a) of Some n \<Rightarrow> [''--as'', dec (unat n)] | None \<Rightarrow> []) @
     (case rl_max_cpu_seconds (la_resources a) of Some n \<Rightarrow> [''--cpu'', dec (unat n)] | None \<Rightarrow> []) @
     (if seccomp_is_on (la_seccomp a) then [''--seccomp'', mode_name (la_seccomp a)] else []) @
     ''--'' # la_command a"

definition launcher_u64 :: "(string \<Rightarrow> string) \<Rightarrow> string \<Rightarrow> string \<Rightarrow> (string, u64) result" where
  "launcher_u64 dbg flag value =
     ok_or (parse_u64 value) (flag @ '' expects a non-negative integer, got '' @ dbg value)"

definition launcher_mode :: "(string \<Rightarrow> string) \<Rightarrow> string \<Rightarrow> (string, SeccompMode) result" where
  "launcher_mode dbg value =
     (if value = ''off'' then Inr ModeOff else if value = ''default'' then Inr ModeDefault
      else Inl (''--seccomp expects \"off\" or \"default\", got Some('' @ dbg value @ '')''))"

fun parse_from :: "(string \<Rightarrow> string) \<Rightarrow> ResourceLimits \<Rightarrow> SeccompMode \<Rightarrow> string list \<Rightarrow> (string, LauncherArgs) result" where
  "parse_from dbg resources seccomp [] = Inl ''missing `--` before the launcher command''"
| "parse_from dbg resources seccomp (arg # args) =
     (if arg = ''--'' then
        (if args = [] then Inl ''launcher command argv is empty''
         else Inr \<lparr> la_resources = resources, la_seccomp = seccomp, la_command = args \<rparr>)
      else if arg = ''--nproc'' then
        (case args of [] \<Rightarrow> Inl ''--nproc expects a value'' | v # args' \<Rightarrow>
           and_then (launcher_u64 dbg arg v) (\<lambda>n. parse_from dbg (resources \<lparr> rl_max_processes := Some n \<rparr>) seccomp args'))
      else if arg = ''--as'' then
        (case args of [] \<Rightarrow> Inl ''--as expects a value'' | v # args' \<Rightarrow>
           and_then (launcher_u64 dbg arg v) (\<lambda>n. parse_from dbg (resources \<lparr> rl_max_memory_bytes := Some n \<rparr>) seccomp args'))
      else if arg = ''--cpu'' then
        (case args of [] \<Rightarrow> Inl ''--cpu expects a value'' | v # args' \<Rightarrow>
           and_then (launcher_u64 dbg arg v) (\<lambda>n. parse_from dbg (resources \<lparr> rl_max_cpu_seconds := Some n \<rparr>) seccomp args'))
      else if arg = ''--seccomp'' then
        (case args of [] \<Rightarrow> Inl ''--seccomp expects \"off\" or \"default\", got None'' | v # args' \<Rightarrow>
           and_then (launcher_mode dbg v) (\<lambda>m. parse_from dbg resources m args'))
      else Inl (''unknown launcher flag '' @ dbg arg))"

definition launcher_parse :: "(string \<Rightarrow> string) \<Rightarrow> string list \<Rightarrow> (string, LauncherArgs) result" where
  "launcher_parse dbg args = parse_from dbg no_limits ModeOff args"

text \<open>The operating system of the launcher: the outcome of each limit and of the filter. What becomes of the process
  is an error, or the command with the limits and the filter that are in force.\<close>

record LauncherOs =
  lo_setrlimit :: "string \<Rightarrow> u64 \<Rightarrow> io_error option"
  lo_filter :: "io_error option"

datatype Launched = LaunchRefused io_error | LaunchExec "(string \<times> u64) list" bool "string list"

definition apply_resource_limits :: "LauncherOs \<Rightarrow> ResourceLimits \<Rightarrow> (io_error, (string \<times> u64) list) result" where
  "apply_resource_limits os l =
     (let caps = (case rl_max_processes l of Some n \<Rightarrow> [(''RLIMIT_NPROC'', n)] | None \<Rightarrow> []) @
        (case rl_max_memory_bytes l of Some n \<Rightarrow> [(''RLIMIT_AS'', n)] | None \<Rightarrow> []) @
        (case rl_max_cpu_seconds l of Some n \<Rightarrow> [(''RLIMIT_CPU'', n)] | None \<Rightarrow> [])
      in case List.map_filter (\<lambda>(res, n). lo_setrlimit os res n) caps of
           err # _ \<Rightarrow> Inl err
         | [] \<Rightarrow> Inr caps)"

definition run_launcher :: "LauncherOs \<Rightarrow> LauncherArgs \<Rightarrow> Launched" where
  "run_launcher os args = (case apply_resource_limits os (la_resources args) of
       Inl e \<Rightarrow> LaunchRefused e
     | Inr limits \<Rightarrow>
        (case (if seccomp_is_on (la_seccomp args) then lo_filter os else None) of
           Some e \<Rightarrow> LaunchRefused e
         | None \<Rightarrow>
            (case la_command args of
               [] \<Rightarrow> LaunchRefused (IoError OtherKind ''launcher command argv is empty'')
             | _ \<Rightarrow> LaunchExec limits (seccomp_is_on (la_seccomp args)) (la_command args))))"

subsection \<open>Building a command\<close>

record RunSpec =
  sp_command :: "string list"
  sp_cwd :: string
  sp_env :: "string bmap"
  sp_env_allowlist :: "string list"
  sp_stdin :: "string option"
  sp_timeout_ms :: "u64 option"
  sp_grace_ms :: u64
  sp_sandbox :: Backend
  sp_network :: Network
  sp_read_only_paths :: "string list"
  sp_writable_paths :: "string list"
  sp_container_runtime :: Runtime
  sp_container_image :: "string option"
  sp_resources :: ResourceLimits
  sp_seccomp :: SeccompMode
  sp_run_uid :: "u32 option"
  sp_run_gid :: "u32 option"

datatype RunError = EmptyCommand | MissingCwd string | SpawnError io_error

definition run_error_text :: "(string \<Rightarrow> string) \<Rightarrow> RunError \<Rightarrow> string" where
  "run_error_text dbg e = (case e of
       EmptyCommand \<Rightarrow> ''command argv is empty''
     | MissingCwd path \<Rightarrow> ''working directory '' @ dbg path @ '' does not exist''
     | SpawnError err \<Rightarrow> ''could not run command: '' @ io_text err)"

definition restrictions_for :: "RunSpec \<Rightarrow> string bmap \<Rightarrow> Restrictions" where
  "restrictions_for spec env = \<lparr> rx_cwd = sp_cwd spec, rx_env = env, rx_timeout_ms = sp_timeout_ms spec,
     rx_max_output_bytes = None, rx_network = sp_network spec, rx_read_only_paths = sp_read_only_paths spec,
     rx_writable_paths = sp_writable_paths spec, rx_interactive = False, rx_resources = sp_resources spec,
     rx_seccomp = sp_seccomp spec, rx_seccomp_profile_path = None, rx_run_uid = sp_run_uid spec, rx_run_gid = sp_run_gid spec \<rparr>"

definition resolve_sandbox :: "RunSpec \<Rightarrow> SandboxImpl" where
  "resolve_sandbox spec = (case sp_sandbox spec of
       BackendContainer \<Rightarrow> sandbox_for_container (sp_container_runtime spec) (sp_container_image spec)
     | other \<Rightarrow> sandbox_for other)"

text \<open>\<open>ro_data_dir\<close> is the data directory or the error of creating it, \<open>ro_profile\<close> the path of the written profile,
  \<open>ro_program\<close> the compiled filter and \<open>ro_memfd\<close> the file that holds its bytes.\<close>

record RunnerOs =
  ro_is_dir :: "string \<Rightarrow> bool"
  ro_exists :: "string \<Rightarrow> bool"
  ro_path_var :: string
  ro_vars :: "(string \<times> string) list"
  ro_current_exe :: "(io_error, string) result"
  ro_data_dir :: "(io_error, string) result"
  ro_profile :: "string \<Rightarrow> (string, string) result"
  ro_program :: "(string, sock_filter list) result"
  ro_memfd :: "8 word list \<Rightarrow> (io_error, nat) result"

definition launcher_wrap :: "RunnerOs \<Rightarrow> RunSpec \<Rightarrow> string list \<Rightarrow> (RunError, string list) result" where
  "launcher_wrap os spec prepared_argv =
     (if sp_sandbox spec = BackendContainer then Inr prepared_argv
      else
        (let is_none = (sp_sandbox spec = BackendNone)
         in if \<not> launcher_is_needed (sp_resources spec) (sp_seccomp spec) is_none then Inr prepared_argv
            else case ro_current_exe os of
              Inl e \<Rightarrow> Inl (SpawnError (IoError (io_kind e)
                (''could not resolve the daemon binary to apply sandbox resource limits: '' @ io_text e)))
            | Inr exe \<Rightarrow> Inr (exe # LAUNCHER_SUBCOMMAND # to_args \<lparr> la_resources = sp_resources spec,
                la_seccomp = (if is_none then sp_seccomp spec else ModeOff), la_command = prepared_argv \<rparr>)))"

definition container_seccomp_profile_path :: "RunnerOs \<Rightarrow> RunSpec \<Rightarrow> (RunError, string option) result" where
  "container_seccomp_profile_path os spec =
     (if sp_sandbox spec \<noteq> BackendContainer \<or> \<not> seccomp_is_on (sp_seccomp spec) then Inr None
      else and_then (map_err SpawnError (ro_data_dir os)) (\<lambda>dir.
           case ro_profile os dir of
             Inl e \<Rightarrow> Inl (SpawnError (IoError OtherKind e))
           | Inr path \<Rightarrow> Inr (Some path)))"

definition inject_bubblewrap_seccomp :: "RunnerOs \<Rightarrow> RunSpec \<Rightarrow> string list \<Rightarrow> (RunError, string list \<times> nat option) result" where
  "inject_bubblewrap_seccomp os spec argv =
     (if sp_sandbox spec \<noteq> BackendBubblewrap \<or> \<not> seccomp_is_on (sp_seccomp spec) then Inr (argv, None)
      else case ro_program os of
        Inl e \<Rightarrow> Inl (SpawnError (IoError OtherKind e))
      | Inr program \<Rightarrow>
         and_then (map_err SpawnError (ro_memfd os (serialize_bpf_program program))) (\<lambda>fd.
           Inr (bubblewrap_with_seccomp_fd argv fd, Some fd)))"

record BuiltCommand =
  bc_program :: string
  bc_args :: "string list"
  bc_cwd :: string
  bc_env :: "string bmap"
  bc_stdin_piped :: bool
  bc_seccomp_fd :: "nat option"

definition build_command :: "(string \<Rightarrow> string) \<Rightarrow> RunnerOs \<Rightarrow> RunSpec \<Rightarrow> (RunError, BuiltCommand) result" where
  "build_command dbg os spec =
     (if sp_command spec = [] then Inl EmptyCommand
      else if \<not> ro_is_dir os (sp_cwd spec) then Inl (MissingCwd (sp_cwd spec))
      else and_then (map_err (\<lambda>m. SpawnError (IoError NotFound m))
          (preflight_backend_in dbg (ro_exists os) (sp_sandbox spec) (sp_container_runtime spec) (ro_path_var os))) (\<lambda>_.
        let env = sanitize_env (ro_vars os) (sp_env spec) (sp_env_allowlist spec)
        in and_then (container_seccomp_profile_path os spec) (\<lambda>profile.
        let prepared = prepare (resolve_sandbox spec) (sp_command spec)
              ((restrictions_for spec env) \<lparr> rx_seccomp_profile_path := profile \<rparr>)
        in and_then (inject_bubblewrap_seccomp os spec (pp_argv prepared)) (\<lambda>(prepared_argv, seccomp_fd).
        and_then (launcher_wrap os spec prepared_argv) (\<lambda>argv.
          case argv of
            [] \<Rightarrow> Inl EmptyCommand
          | program # args \<Rightarrow> Inr \<lparr> bc_program = program, bc_args = args, bc_cwd = rx_cwd (pp_restrictions prepared),
              bc_env = rx_env (pp_restrictions prepared), bc_stdin_piped = (sp_stdin spec \<noteq> None),
              bc_seccomp_fd = seccomp_fd \<rparr>)))))"

subsection \<open>Running a command\<close>

text \<open>A child: whether it can be started and fed, how it ends after the signals sent so far, within a limit
  (\<open>None\<close>: the limit passed) or without one, and its output.\<close>

type_synonym exit_status = "int option \<times> int option"

record ChildOs =
  co_spawn :: "BuiltCommand \<Rightarrow> io_error option"
  co_feed :: "string \<Rightarrow> io_error option"
  co_wait :: "string list \<Rightarrow> (io_error, exit_status) result"
  co_wait_for :: "string list \<Rightarrow> u64 \<Rightarrow> (io_error, exit_status) result option"
  co_stdout :: string
  co_stderr :: string

definition wait_child :: "ChildOs \<Rightarrow> RunSpec \<Rightarrow> string list \<times> (io_error, exit_status) result" where
  "wait_child co spec = (case sp_timeout_ms spec of
       None \<Rightarrow> ([], co_wait co [])
     | Some limit \<Rightarrow>
        (case co_wait_for co [] limit of
           Some r \<Rightarrow> ([], r)
         | None \<Rightarrow>
            (case co_wait_for co [''SIGTERM''] (sp_grace_ms spec) of
               Some r \<Rightarrow> ([''SIGTERM''], r)
             | None \<Rightarrow> ([''SIGTERM'', ''SIGKILL''], co_wait co [''SIGTERM'', ''SIGKILL'']))))"

definition run_spec :: "(string \<Rightarrow> string) \<Rightarrow> RunnerOs \<Rightarrow> ChildOs \<Rightarrow> RunSpec \<Rightarrow> (RunError, RunOutput) result" where
  "run_spec dbg os co spec =
     and_then (build_command dbg os spec) (\<lambda>command.
     case co_spawn co command of
       Some e \<Rightarrow> Inl (SpawnError e)
     | None \<Rightarrow>
        (case (case sp_stdin spec of None \<Rightarrow> None | Some input \<Rightarrow> co_feed co input) of
           Some e \<Rightarrow> Inl (SpawnError e)
         | None \<Rightarrow>
            (case wait_child co spec of (signals, r) \<Rightarrow>
               and_then (map_err SpawnError r) (\<lambda>(code, signal).
                 Inr \<lparr> rn_exit_code = code, rn_signal = signal, rn_stdout = co_stdout co, rn_stderr = co_stderr co,
                   rn_timed_out = (signals \<noteq> []) \<rparr>))))"

definition DEFAULT_GRACE_MS :: u64 where "DEFAULT_GRACE_MS = 5000"

definition request_spec :: "ExecRunRequest \<Rightarrow> RunSpec" where
  "request_spec request = \<lparr> sp_command = er_command request, sp_cwd = er_cwd request, sp_env = er_env request,
     sp_env_allowlist = er_env_allowlist request, sp_stdin = None, sp_timeout_ms = er_timeout_ms request,
     sp_grace_ms = DEFAULT_GRACE_MS, sp_sandbox = er_sandbox request, sp_network = er_network request,
     sp_read_only_paths = er_read_only_paths request, sp_writable_paths = er_writable_paths request,
     sp_container_runtime = er_container_runtime request, sp_container_image = er_container_image request,
     sp_resources = er_resources request, sp_seccomp = er_seccomp request, sp_run_uid = er_run_uid request,
     sp_run_gid = er_run_gid request \<rparr>"

definition default_command_runner ::
  "(string \<Rightarrow> string) \<Rightarrow> RunnerOs \<Rightarrow> ChildOs \<Rightarrow> ExecRunRequest \<Rightarrow> (string, RunOutput) result" where
  "default_command_runner dbg os co request = map_err (run_error_text dbg) (run_spec dbg os co (request_spec request))"

subsection \<open>What a command line asks for\<close>

text \<open>For the statements: how a command line is read by the programs it starts, as their manuals describe their
  options. A started process is the launcher, which reads its own options, or the command itself; then
  \<open>bwrap\<close> and \<open>docker run\<close> or \<open>podman run\<close> read theirs.\<close>

record Confined =
  cf_limits :: ResourceLimits
  cf_filtered :: bool
  cf_net_denied :: bool
  cf_caps_dropped :: bool
  cf_mounts :: "string list list"
  cf_cwd :: "string option"
  cf_command :: "string list"

fun bwrap_read :: "Confined \<Rightarrow> string list \<Rightarrow> Confined option" where
  "bwrap_read v [] = None"
| "bwrap_read v (a # as) =
     (if a = ''--'' then Some (v \<lparr> cf_command := as \<rparr>)
      else if a \<in> set [''--die-with-parent'', ''--unshare-pid'', ''--unshare-uts'', ''--unshare-ipc'', ''--unshare-user'', ''--new-session'']
      then bwrap_read v as
      else if a = ''--unshare-net'' then bwrap_read (v \<lparr> cf_net_denied := True \<rparr>) as
      else case as of
        [] \<Rightarrow> None
      | x # as' \<Rightarrow>
         if a = ''--cap-drop'' then bwrap_read (v \<lparr> cf_caps_dropped := (cf_caps_dropped v \<or> x = ''ALL'') \<rparr>) as'
         else if a \<in> set [''--proc'', ''--dev'', ''--tmpfs''] then bwrap_read v as'
         else if a = ''--chdir'' then bwrap_read (v \<lparr> cf_cwd := Some x \<rparr>) as'
         else if a = ''--seccomp'' then bwrap_read (v \<lparr> cf_filtered := True \<rparr>) as'
         else if a = ''--ro-bind'' \<or> a = ''--bind'' then
           (case as' of [] \<Rightarrow> None | y # as'' \<Rightarrow> bwrap_read (v \<lparr> cf_mounts := cf_mounts v @ [[a, x, y]] \<rparr>) as'')
         else None)"

definition ulimit_cpu :: "string \<Rightarrow> u64 option" where
  "ulimit_cpu x = (if starts_with_str x ''cpu='' then parse_u64 (takeWhile (\<lambda>c. c \<noteq> CHR '':'') (drop 4 x)) else None)"

fun container_read :: "Confined \<Rightarrow> string list \<Rightarrow> Confined option" where
  "container_read v [] = None"
| "container_read v (a # as) =
     (if \<not> starts_with_str a ''-'' then Some (v \<lparr> cf_command := as \<rparr>)
      else if a \<in> set [''--rm'', ''--read-only'', ''-i'', ''-t'', ''--userns=keep-id''] then container_read v as
      else case as of
        [] \<Rightarrow> None
      | x # as' \<Rightarrow>
         if a = ''--security-opt'' then container_read (v \<lparr> cf_filtered := (cf_filtered v \<or> starts_with_str x ''seccomp='') \<rparr>) as'
         else if a = ''--cap-drop'' then container_read (v \<lparr> cf_caps_dropped := (cf_caps_dropped v \<or> x = ''ALL'') \<rparr>) as'
         else if a = ''--user'' \<or> a = ''--env'' then container_read v as'
         else if a = ''--pids-limit'' then
           container_read (v \<lparr> cf_limits := (cf_limits v) \<lparr> rl_max_processes := parse_u64 x \<rparr> \<rparr>) as'
         else if a = ''--memory'' then
           container_read (v \<lparr> cf_limits := (cf_limits v) \<lparr> rl_max_memory_bytes := parse_u64 x \<rparr> \<rparr>) as'
         else if a = ''--ulimit'' then
           container_read (v \<lparr> cf_limits := (cf_limits v) \<lparr> rl_max_cpu_seconds := ulimit_cpu x \<rparr> \<rparr>) as'
         else if a = ''--network'' then container_read (v \<lparr> cf_net_denied := (x = ''none'') \<rparr>) as'
         else if a = ''--volume'' then container_read (v \<lparr> cf_mounts := cf_mounts v @ [[a, x]] \<rparr>) as'
         else if a = ''--workdir'' then container_read (v \<lparr> cf_cwd := Some x \<rparr>) as'
         else None)"

definition started :: "(string \<Rightarrow> string) \<Rightarrow> string \<Rightarrow> string list \<Rightarrow> (ResourceLimits \<times> bool \<times> string list) option" where
  "started dbg exe argv = (case argv of
       p # s # args \<Rightarrow>
         if p = exe \<and> s = LAUNCHER_SUBCOMMAND then
           (case launcher_parse dbg args of
              Inr a \<Rightarrow> Some (la_resources a, seccomp_is_on (la_seccomp a), la_command a)
            | Inl _ \<Rightarrow> None)
         else Some (no_limits, False, argv)
     | _ \<Rightarrow> Some (no_limits, False, argv))"

definition confinement :: "(string \<Rightarrow> string) \<Rightarrow> string \<Rightarrow> Backend \<Rightarrow> string list \<Rightarrow> Confined option" where
  "confinement dbg exe backend argv = (case started dbg exe argv of
       None \<Rightarrow> None
     | Some (limits, filtered, command) \<Rightarrow>
        (let v = \<lparr> cf_limits = limits, cf_filtered = filtered, cf_net_denied = False, cf_caps_dropped = False, cf_mounts = [],
               cf_cwd = None, cf_command = command \<rparr>
         in case backend of
              BackendNone \<Rightarrow> Some v
            | BackendBubblewrap \<Rightarrow> (case command of
                p # args \<Rightarrow> if p = ''bwrap'' then bwrap_read v args else None | [] \<Rightarrow> None)
            | BackendContainer \<Rightarrow> (case command of
                p # r # args \<Rightarrow> if r = ''run'' then container_read v args else None | _ \<Rightarrow> None)))"

definition requested :: "RunSpec \<Rightarrow> Confined" where
  "requested spec = \<lparr> cf_limits = sp_resources spec, cf_filtered = seccomp_is_on (sp_seccomp spec),
     cf_net_denied = (sp_sandbox spec \<noteq> BackendNone \<and> sp_network spec = NetworkDeny),
     cf_caps_dropped = (sp_sandbox spec = BackendBubblewrap \<or> sp_sandbox spec = BackendContainer \<and> sp_run_uid spec \<noteq> None),
     cf_mounts = (case sp_sandbox spec of
         BackendNone \<Rightarrow> []
       | BackendBubblewrap \<Rightarrow> map (\<lambda>p. [''--ro-bind'', p, p]) (sp_read_only_paths spec) @ map (\<lambda>p. [''--bind'', p, p]) (sp_writable_paths spec)
       | BackendContainer \<Rightarrow> map (\<lambda>p. [''--volume'', p @ '':'' @ p @ '':ro'']) (sp_read_only_paths spec) @
           map (\<lambda>p. [''--volume'', p @ '':'' @ p]) (sp_writable_paths spec)),
     cf_cwd = (if sp_sandbox spec = BackendNone then None else Some (sp_cwd spec)), cf_command = sp_command spec \<rparr>"

subsection \<open>Lemmas\<close>

lemma plus_case: "c \<noteq> CHR ''+'' \<Longrightarrow> (case c # t of CHR ''+'' # r \<Rightarrow> r | _ \<Rightarrow> c # t) = c # t"
proof (cases c)
  case (Char b1 b2 b3 b4 b5 b6 b7 b8)
  assume "c \<noteq> CHR ''+''"
  then show ?thesis unfolding Char
    by (cases b1; cases b2; cases b3; cases b4; cases b5; cases b6; cases b7; cases b8; simp)
qed

lemma parse_dec [simp]: "parse_u64 (dec (unat n)) = Some n"
proof -
  obtain c t where d: "dec (unat n) = c # t" "is_digit c" using dec_head by blast
  have "c \<noteq> CHR ''+''" using d(2) digit_not_sign by blast
  then have p: "(case dec (unat n) of CHR ''+'' # r \<Rightarrow> r | _ \<Rightarrow> dec (unat n)) = dec (unat n)"
    unfolding d(1) by (rule plus_case)
  have "unat n < 2 ^ 64" using unsigned_less [of n] by simp
  then show ?thesis
    unfolding parse_u64_def Let_def p using dec_digits [of "unat n"] dec_value [of "unat n"] by simp
qed

lemma ulimit_dec [simp]: "ulimit_cpu (''cpu='' @ dec (unat n) @ '':'' @ dec (unat n)) = Some n"
proof -
  have "CHR '':'' \<notin> set (dec (unat n))" using dec_digits [of "unat n"] by (auto simp: list_all_iff is_digit_def)
  then have "takeWhile (\<lambda>c. c \<noteq> CHR '':'') (dec (unat n) @ '':'' @ dec (unat n)) = dec (unat n)"
    by (simp add: takeWhile_append)
  then show ?thesis by (simp add: ulimit_cpu_def starts_with_str_def)
qed

lemmas ulimit_dec_simp [simp] = ulimit_dec [simplified]

lemma parse_to_args:
  assumes "la_command a \<noteq> []"
  shows "launcher_parse dbg (to_args a) = Inr a"
  using assms
  by (cases a, cases "la_resources a", cases "la_seccomp a")
    (auto simp: launcher_parse_def to_args_def launcher_u64_def launcher_mode_def no_limits_def split: option.splits)

lemma parsed_suffix:
  assumes "parse_from dbg r m args = Inr a"
  shows "la_command a \<noteq> [] \<and> suffix (''--'' # la_command a) args"
  using assms
  by (induction dbg r m args rule: parse_from.induct)
    (auto simp: and_then_eq_Inr split: if_splits list.splits intro: suffix_ConsI)

text \<open>C18. The launcher reads what the runner writes: every set of limits, mode and non-empty command comes back
  from its command line, and whatever it accepts ends in the command it runs, taken verbatim.\<close>

theorem launcher_round_trip:
  "((la_command a \<noteq> []) \<le> (launcher_parse dbg (to_args a) = Inr a)) \<and>
   (case launcher_parse dbg args of
      Inl _ \<Rightarrow> True
    | Inr a' \<Rightarrow> la_command a' \<noteq> [] \<and> suffix (''--'' # la_command a') args)"
  using parse_to_args [of a dbg] parsed_suffix [of dbg no_limits ModeOff args]
  by (auto simp: launcher_parse_def split: sum.splits)

lemma seccomp_fd_split: "''--'' \<notin> set xs \<Longrightarrow> seccomp_fd_args ins (xs @ ''--'' # ys) = xs @ ins @ ''--'' # ys"
  by (induction xs) auto

declare bwrap_read.simps(2) [simp del] container_read.simps(2) [simp del]

lemma bwrap_read_ro: "bwrap_read v (''--ro-bind'' # x # y # as) = bwrap_read (v \<lparr> cf_mounts := cf_mounts v @ [[''--ro-bind'', x, y]] \<rparr>) as"
  by (subst bwrap_read.simps) simp

lemma bwrap_read_rw: "bwrap_read v (''--bind'' # x # y # as) = bwrap_read (v \<lparr> cf_mounts := cf_mounts v @ [[''--bind'', x, y]] \<rparr>) as"
  by (subst bwrap_read.simps) simp

lemma bwrap_read_ros:
  "bwrap_read v (concat (map (\<lambda>p. [''--ro-bind'', p, p]) ps) @ as) =
   bwrap_read (v \<lparr> cf_mounts := cf_mounts v @ map (\<lambda>p. [''--ro-bind'', p, p]) ps \<rparr>) as"
  by (induction ps arbitrary: v) (simp_all add: bwrap_read_ro)

lemma bwrap_read_rws:
  "bwrap_read v (concat (map (\<lambda>p. [''--bind'', p, p]) ps) @ as) =
   bwrap_read (v \<lparr> cf_mounts := cf_mounts v @ map (\<lambda>p. [''--bind'', p, p]) ps \<rparr>) as"
  by (induction ps arbitrary: v) (simp_all add: bwrap_read_rw)

lemma bwrap_read_flags:
  "bwrap_read v (''--die-with-parent'' # as) = bwrap_read v as" "bwrap_read v (''--unshare-pid'' # as) = bwrap_read v as"
  "bwrap_read v (''--unshare-uts'' # as) = bwrap_read v as" "bwrap_read v (''--unshare-ipc'' # as) = bwrap_read v as"
  "bwrap_read v (''--unshare-user'' # as) = bwrap_read v as" "bwrap_read v (''--new-session'' # as) = bwrap_read v as"
  "bwrap_read v (''--unshare-net'' # as) = bwrap_read (v \<lparr> cf_net_denied := True \<rparr>) as"
  "bwrap_read v (''--cap-drop'' # x # as) = bwrap_read (v \<lparr> cf_caps_dropped := (cf_caps_dropped v \<or> x = ''ALL'') \<rparr>) as"
  "bwrap_read v (''--proc'' # x # as) = bwrap_read v as" "bwrap_read v (''--dev'' # x # as) = bwrap_read v as"
  "bwrap_read v (''--tmpfs'' # x # as) = bwrap_read v as"
  "bwrap_read v (''--chdir'' # x # as) = bwrap_read (v \<lparr> cf_cwd := Some x \<rparr>) as"
  "bwrap_read v (''--seccomp'' # x # as) = bwrap_read (v \<lparr> cf_filtered := True \<rparr>) as"
  "bwrap_read v (''--'' # as) = Some (v \<lparr> cf_command := as \<rparr>)"
  by (subst bwrap_read.simps, simp)+

lemma container_read_flags:
  "container_read v (''--rm'' # as) = container_read v as" "container_read v (''--read-only'' # as) = container_read v as"
  "container_read v (''--userns=keep-id'' # as) = container_read v as"
  "container_read v (''--security-opt'' # x # as) = container_read (v \<lparr> cf_filtered := (cf_filtered v \<or> starts_with_str x ''seccomp='') \<rparr>) as"
  "container_read v (''--cap-drop'' # x # as) = container_read (v \<lparr> cf_caps_dropped := (cf_caps_dropped v \<or> x = ''ALL'') \<rparr>) as"
  "container_read v (''--user'' # x # as) = container_read v as" "container_read v (''--env'' # x # as) = container_read v as"
  "container_read v (''--pids-limit'' # x # as) = container_read (v \<lparr> cf_limits := (cf_limits v) \<lparr> rl_max_processes := parse_u64 x \<rparr> \<rparr>) as"
  "container_read v (''--memory'' # x # as) = container_read (v \<lparr> cf_limits := (cf_limits v) \<lparr> rl_max_memory_bytes := parse_u64 x \<rparr> \<rparr>) as"
  "container_read v (''--ulimit'' # x # as) = container_read (v \<lparr> cf_limits := (cf_limits v) \<lparr> rl_max_cpu_seconds := ulimit_cpu x \<rparr> \<rparr>) as"
  "container_read v (''--network'' # x # as) = container_read (v \<lparr> cf_net_denied := (x = ''none'') \<rparr>) as"
  "container_read v (''--volume'' # x # as) = container_read (v \<lparr> cf_mounts := cf_mounts v @ [[''--volume'', x]] \<rparr>) as"
  "container_read v (''--workdir'' # x # as) = container_read (v \<lparr> cf_cwd := Some x \<rparr>) as"
  by (subst container_read.simps, simp add: starts_with_str_def)+

lemma container_read_image: "\<not> starts_with_str img ''-'' \<Longrightarrow> container_read v (img # as) = Some (v \<lparr> cf_command := as \<rparr>)"
  by (subst container_read.simps) simp

lemma container_read_volumes:
  "container_read v (concat (map (\<lambda>p. [''--volume'', f p]) ps) @ as) =
   container_read (v \<lparr> cf_mounts := cf_mounts v @ map (\<lambda>p. [''--volume'', f p]) ps \<rparr>) as"
  by (induction ps arbitrary: v) (simp_all add: container_read_flags)

lemma container_read_env: "container_read v (concat (map (\<lambda>kv. [''--env'', fst kv]) env) @ as) = container_read v as"
  by (induction env) (simp_all add: container_read_flags)

definition bwrap_flags :: "Restrictions \<Rightarrow> string list" where
  "bwrap_flags r = [''--die-with-parent'', ''--unshare-pid'', ''--unshare-uts'', ''--unshare-ipc'', ''--unshare-user'', ''--cap-drop'', ''ALL''] @
     (if rx_interactive r then [] else [''--new-session'']) @ (if rx_network r = NetworkDeny then [''--unshare-net''] else []) @
     [''--proc'', ''/proc'', ''--dev'', ''/dev'', ''--tmpfs'', ''/tmp''] @
     concat (map (\<lambda>p. [''--ro-bind'', p, p]) (rx_read_only_paths r)) @
     concat (map (\<lambda>p. [''--bind'', p, p]) (rx_writable_paths r)) @ [''--chdir'', rx_cwd r]"

lemma bwrap_argv: "pp_argv (bubblewrap_prepare argv r) = ''bwrap'' # bwrap_flags r @ ''--'' # argv"
  by (simp add: bubblewrap_prepare_def bwrap_flags_def)

lemma bwrap_read_all:
  "bwrap_read v (bwrap_flags r @ as) = bwrap_read (v \<lparr> cf_net_denied := (cf_net_denied v \<or> rx_network r = NetworkDeny), cf_caps_dropped := True,
     cf_mounts := cf_mounts v @ map (\<lambda>p. [''--ro-bind'', p, p]) (rx_read_only_paths r) @ map (\<lambda>p. [''--bind'', p, p]) (rx_writable_paths r),
     cf_cwd := Some (rx_cwd r) \<rparr>) as"
  by (cases v) (simp add: bwrap_flags_def bwrap_read_flags bwrap_read_ros bwrap_read_rws)

lemma bwrap_flags_separator:
  "''--'' \<notin> set (rx_read_only_paths r @ rx_writable_paths r @ [rx_cwd r]) \<Longrightarrow> ''--'' \<notin> set (''bwrap'' # bwrap_flags r)"
  by (auto simp: bwrap_flags_def)

lemma container_read_limits:
  "cf_limits v = no_limits \<Longrightarrow> container_read v (container_limits l @ as) = container_read (v \<lparr> cf_limits := l \<rparr>) as"
  by (cases l, cases v)
    (auto simp: container_limits_def container_read_flags no_limits_def split: option.splits)

lemma container_read_identity:
  "container_read v (container_identity runtime r @ as) =
   container_read (v \<lparr> cf_caps_dropped := (cf_caps_dropped v \<or> rx_run_uid r \<noteq> None) \<rparr>) as"
  by (cases runtime; cases v) (auto simp: container_identity_def container_read_flags split: option.splits)

lemma container_read_all:
  assumes "\<not> starts_with_str img ''-''" "cf_limits v = no_limits" "\<not> rx_interactive r"
  shows "container_read v (drop 2 (pp_argv (container_prepare runtime img argv r))) = Some (v \<lparr> cf_limits := rx_resources r,
     cf_filtered := (cf_filtered v \<or> seccomp_is_on (rx_seccomp r) \<and> rx_seccomp_profile_path r \<noteq> None),
     cf_net_denied := (cf_net_denied v \<or> rx_network r = NetworkDeny),
     cf_caps_dropped := (cf_caps_dropped v \<or> rx_run_uid r \<noteq> None),
     cf_mounts := cf_mounts v @ map (\<lambda>p. [''--volume'', p @ '':'' @ p @ '':ro'']) (rx_read_only_paths r) @
       map (\<lambda>p. [''--volume'', p @ '':'' @ p]) (rx_writable_paths r),
     cf_cwd := Some (rx_cwd r), cf_command := argv \<rparr>)"
  using assms
  by (cases v) (auto simp: container_prepare_def container_read_flags container_read_identity container_read_limits container_read_env
      container_read_volumes container_read_image starts_with_str_def split: option.splits)

lemma started_plain: "p \<noteq> exe \<Longrightarrow> started dbg exe (p # as) = Some (no_limits, False, p # as)"
  by (auto simp: started_def split: list.splits)

lemma started_launcher:
  assumes "la_command a \<noteq> []"
  shows "started dbg exe (exe # LAUNCHER_SUBCOMMAND # to_args a) = Some (la_resources a, seccomp_is_on (la_seccomp a), la_command a)"
  by (simp add: started_def parse_to_args [OF assms])

lemma build_command_ok:
  assumes "build_command dbg os spec = Inr c"
  obtains profile prepared prepared_argv where
    "prepared = prepare (resolve_sandbox spec) (sp_command spec)
       ((restrictions_for spec (sanitize_env (ro_vars os) (sp_env spec) (sp_env_allowlist spec))) \<lparr> rx_seccomp_profile_path := profile \<rparr>)"
    "container_seccomp_profile_path os spec = Inr profile"
    "inject_bubblewrap_seccomp os spec (pp_argv prepared) = Inr (prepared_argv, bc_seccomp_fd c)"
    "launcher_wrap os spec prepared_argv = Inr (bc_program c # bc_args c)" "sp_command spec \<noteq> []"
    "bc_cwd c = rx_cwd (pp_restrictions prepared)" "bc_env c = rx_env (pp_restrictions prepared)"
proof -
  let ?prepared = "\<lambda>profile. prepare (resolve_sandbox spec) (sp_command spec)
       ((restrictions_for spec (sanitize_env (ro_vars os) (sp_env spec) (sp_env_allowlist spec))) \<lparr> rx_seccomp_profile_path := profile \<rparr>)"
  note unf = build_command_def and_then_eq_Inr Let_def
  obtain profile where pr: "container_seccomp_profile_path os spec = Inr profile"
    using assms by (cases "container_seccomp_profile_path os spec") (auto simp: unf split: if_splits)
  obtain pa fd where ij: "inject_bubblewrap_seccomp os spec (pp_argv (?prepared profile)) = Inr (pa, fd)"
    using assms pr by (cases "inject_bubblewrap_seccomp os spec (pp_argv (?prepared profile))") (auto simp: unf split: if_splits)
  obtain argv where lw: "launcher_wrap os spec pa = Inr argv"
    using assms pr ij by (cases "launcher_wrap os spec pa") (auto simp: unf split: if_splits)
  obtain p args where "argv = p # args" using assms pr ij lw by (cases argv) (auto simp: unf split: if_splits)
  then show thesis
    using assms pr ij lw by (intro that [OF refl pr]) (auto simp: unf split: if_splits)
qed

lemma pp_restrictions_prepare [simp]: "pp_restrictions (prepare b argv r) = r"
  by (cases b) (simp_all add: bubblewrap_prepare_def container_prepare_def)

lemma wrapped_started:
  assumes "launcher_wrap os spec as = Inr (p # args)" "ro_current_exe os = Inr exe" "hd as \<noteq> exe" "as \<noteq> []"
    and "sp_sandbox spec \<noteq> BackendContainer"
  shows "started dbg exe (p # args) = Some (sp_resources spec, sp_sandbox spec = BackendNone \<and> seccomp_is_on (sp_seccomp spec), as)"
proof (cases "launcher_is_needed (sp_resources spec) (sp_seccomp spec) (sp_sandbox spec = BackendNone)")
  case True
  then have w: "p # args = exe # LAUNCHER_SUBCOMMAND # to_args \<lparr> la_resources = sp_resources spec,
      la_seccomp = (if sp_sandbox spec = BackendNone then sp_seccomp spec else ModeOff), la_command = as \<rparr>"
    using assms by (simp add: launcher_wrap_def Let_def)
  show ?thesis unfolding w by (subst started_launcher) (simp_all add: assms(4))
next
  case False
  then have "p # args = as" using assms by (simp add: launcher_wrap_def Let_def)
  moreover have "started dbg exe as = Some (no_limits, False, as)"
    using assms(3,4) started_plain by (cases as) auto
  ultimately show ?thesis using False by (auto simp: launcher_is_needed_def is_unset_def)
qed

text \<open>Commands run as confined as requested. When the runner builds a command, the process it starts leads,
  through the launcher and the sandbox program, to exactly the requested command, under the requested limits,
  with the system call filter when it is on, without network when it is denied, with exactly the requested
  mounts, in the requested directory and with the sanitized environment.\<close>

lemma spawned_confined:
  assumes "build_command dbg os spec = Inr c" "ro_current_exe os = Inr exe" "is_absolute exe" "hd (sp_command spec) \<noteq> exe"
    and "''--'' \<notin> set (sp_read_only_paths spec @ sp_writable_paths spec @ [sp_cwd spec])"
    and "\<not> starts_with_str (unwrap_or (sp_container_image spec) DEFAULT_IMAGE) ''-''"
  shows "confinement dbg exe (sp_sandbox spec) (bc_program c # bc_args c) = Some (requested spec) \<and> bc_cwd c = sp_cwd spec \<and>
    bc_env c = sanitize_env (ro_vars os) (sp_env spec) (sp_env_allowlist spec)"
  using assms(1)
proof (rule build_command_ok)
  fix profile prepared prepared_argv
  let ?r = "(restrictions_for spec (sanitize_env (ro_vars os) (sp_env spec) (sp_env_allowlist spec))) \<lparr> rx_seccomp_profile_path := profile \<rparr>"
  assume b: "prepared = prepare (resolve_sandbox spec) (sp_command spec) ?r" "container_seccomp_profile_path os spec = Inr profile"
    "inject_bubblewrap_seccomp os spec (pp_argv prepared) = Inr (prepared_argv, bc_seccomp_fd c)"
    "launcher_wrap os spec prepared_argv = Inr (bc_program c # bc_args c)" "sp_command spec \<noteq> []"
    "bc_cwd c = rx_cwd (pp_restrictions prepared)" "bc_env c = rx_env (pp_restrictions prepared)"
  have rest: "bc_cwd c = sp_cwd spec" "bc_env c = sanitize_env (ro_vars os) (sp_env spec) (sp_env_allowlist spec)"
    using b(6,7) by (simp_all add: b(1) restrictions_for_def)
  have exe: "exe \<noteq> ''bwrap''" "exe \<noteq> ''docker''" "exe \<noteq> ''podman''"
    using assms(3) by (auto simp: is_absolute_def slash_def)
  have r: "rx_network ?r = sp_network spec" "rx_cwd ?r = sp_cwd spec" "rx_read_only_paths ?r = sp_read_only_paths spec"
    "rx_writable_paths ?r = sp_writable_paths spec" "\<not> rx_interactive ?r" "rx_resources ?r = sp_resources spec"
    "rx_seccomp ?r = sp_seccomp spec" "rx_run_uid ?r = sp_run_uid spec" "rx_seccomp_profile_path ?r = profile"
    by (simp_all add: restrictions_for_def)
  have "confinement dbg exe (sp_sandbox spec) (bc_program c # bc_args c) = Some (requested spec)"
  proof (cases "sp_sandbox spec")
    case BackendNone
    then have "prepared_argv = sp_command spec"
      using b(1,3) by (simp add: inject_bubblewrap_seccomp_def resolve_sandbox_def)
    with wrapped_started [OF b(4) assms(2)] show ?thesis
      using assms(4) b(5) BackendNone by (simp add: confinement_def requested_def)
  next
    case BackendBubblewrap
    then have pre: "pp_argv prepared = ''bwrap'' # bwrap_flags ?r @ ''--'' # sp_command spec"
      by (simp add: b(1) resolve_sandbox_def bwrap_argv)
    have sep: "''--'' \<notin> set (''bwrap'' # bwrap_flags ?r)"
      by (rule bwrap_flags_separator) (use assms(5) r in simp)
    show ?thesis
    proof (cases "seccomp_is_on (sp_seccomp spec)")
      case True
      then obtain fd where "prepared_argv = ''bwrap'' # bwrap_flags ?r @ [''--seccomp'', dec fd, ''--''] @ sp_command spec"
        using b(3) BackendBubblewrap seccomp_fd_split [OF sep]
        by (auto simp: inject_bubblewrap_seccomp_def and_then_eq_Inr bubblewrap_with_seccomp_fd_def pre split: sum.splits)
      with wrapped_started [OF b(4) assms(2)] show ?thesis
        using exe BackendBubblewrap True r
        by (simp add: confinement_def requested_def bwrap_read_all bwrap_read_flags)
    next
      case False
      then have "prepared_argv = ''bwrap'' # bwrap_flags ?r @ ''--'' # sp_command spec"
        using b(3) by (simp add: inject_bubblewrap_seccomp_def pre)
      with wrapped_started [OF b(4) assms(2)] show ?thesis
        using exe BackendBubblewrap False r
        by (simp add: confinement_def requested_def bwrap_read_all bwrap_read_flags)
    qed
  next
    case BackendContainer
    let ?img = "unwrap_or (sp_container_image spec) DEFAULT_IMAGE"
    let ?rt = "sp_container_runtime spec"
    have pre: "prepared = container_prepare ?rt ?img (sp_command spec) ?r"
      using BackendContainer by (simp add: b(1) resolve_sandbox_def sandbox_for_container_def)
    have argv: "bc_program c # bc_args c = pp_argv prepared"
      using b(3,4) BackendContainer by (simp add: inject_bubblewrap_seccomp_def launcher_wrap_def)
    define args where "args = drop 2 (pp_argv (container_prepare ?rt ?img (sp_command spec) ?r))"
    have two: "bc_program c # bc_args c = runtime_program ?rt # ''run'' # args"
      unfolding argv pre args_def by (simp add: container_prepare_def)
    have "runtime_program ?rt \<noteq> exe" using exe by (cases ?rt) auto
    note st = started_plain [OF this]
    have on: "profile \<noteq> None" if "seccomp_is_on (sp_seccomp spec)"
      using b(2) that BackendContainer
      by (cases "ro_data_dir os"; cases "ro_profile os (projr (ro_data_dir os))") (auto simp: container_seccomp_profile_path_def)
    have "container_read v args = Some (v \<lparr> cf_limits := sp_resources spec, cf_filtered := (cf_filtered v \<or> seccomp_is_on (sp_seccomp spec)),
        cf_net_denied := (cf_net_denied v \<or> sp_network spec = NetworkDeny),
        cf_caps_dropped := (cf_caps_dropped v \<or> sp_run_uid spec \<noteq> None),
        cf_mounts := cf_mounts v @ map (\<lambda>p. [''--volume'', p @ '':'' @ p @ '':ro'']) (sp_read_only_paths spec) @
          map (\<lambda>p. [''--volume'', p @ '':'' @ p]) (sp_writable_paths spec),
        cf_cwd := Some (sp_cwd spec), cf_command := sp_command spec \<rparr>)" if "cf_limits v = no_limits" for v
      using container_read_all [OF assms(6) that r(5), of ?rt "sp_command spec"] on unfolding r args_def
      by (cases "seccomp_is_on (sp_seccomp spec)") simp_all
    then show ?thesis
      unfolding two confinement_def st by (simp add: BackendContainer requested_def)
  qed
  with rest show ?thesis by blast
qed

lemma run_spec_built:
  assumes "run_spec dbg os co spec = Inr output"
  obtains c where "build_command dbg os spec = Inr c" "co_spawn co c = None"
  using assms by (auto simp: run_spec_def and_then_eq_Inr split: option.splits)


subsection \<open>The launcher and the supervision of a child\<close>

lemma launcher_fails_closed:
  assumes "run_launcher os a = LaunchExec limits filtered command"
  shows "command = la_command a \<and> command \<noteq> [] \<and> filtered = seccomp_is_on (la_seccomp a) \<and> (filtered \<longrightarrow> lo_filter os = None) \<and>
    (\<forall>n. rl_max_processes (la_resources a) = Some n \<longrightarrow> (''RLIMIT_NPROC'', n) \<in> set limits) \<and>
    (\<forall>n. rl_max_memory_bytes (la_resources a) = Some n \<longrightarrow> (''RLIMIT_AS'', n) \<in> set limits) \<and>
    (\<forall>n. rl_max_cpu_seconds (la_resources a) = Some n \<longrightarrow> (''RLIMIT_CPU'', n) \<in> set limits) \<and>
    list_all (\<lambda>(res, n). lo_setrlimit os res n = None) limits"
proof -
  have none: "List.map_filter f xs = [] \<longleftrightarrow> list_all (\<lambda>x. f x = None) xs" for f :: "'x \<Rightarrow> 'y option" and xs
    by (induction xs) (auto simp: map_filter_simps split: option.splits)
  show ?thesis
    using assms
    by (auto simp: run_launcher_def apply_resource_limits_def Let_def none case_prod_unfold
        split: sum.splits option.splits list.splits if_splits)
qed

text \<open>A child is signalled only after its time is up, killed only when it survives the grace period as well, and
  reported as timed out exactly when it was signalled.\<close>

lemma wait_child_signals:
  "fst (wait_child co spec) =
     (case sp_timeout_ms spec of
        None \<Rightarrow> []
      | Some limit \<Rightarrow>
         if co_wait_for co [] limit \<noteq> None then []
         else ''SIGTERM'' # (if co_wait_for co [''SIGTERM''] (sp_grace_ms spec) \<noteq> None then [] else [''SIGKILL'']))"
  by (auto simp: wait_child_def split: option.splits)

lemma run_spec_timed_out:
  assumes "run_spec dbg os co spec = Inr r"
  shows "rn_timed_out r \<longleftrightarrow> fst (wait_child co spec) \<noteq> []"
  using assms by (auto simp: run_spec_def and_then_eq_Inr split: option.splits prod.splits)

subsection \<open>Values of the environment\<close>

lemma insert_keys_cong: "map fst m = map fst m' \<Longrightarrow> map fst (bm_insert k v m) = map fst (bm_insert k v' m')"
proof (induction m arbitrary: m')
  case (Cons x m)
  then obtain y n where m': "m' = y # n" "fst y = fst x" "map fst m = map fst n" by (cases m') auto
  then show ?case using Cons.IH [of n] by (cases x; cases y) auto
qed simp

lemma fold_insert_keys_cong:
  "map fst ovr = map fst ovr' \<Longrightarrow> map fst m = map fst m' \<Longrightarrow>
   map fst (fold (\<lambda>(k, v). bm_insert k v) ovr m) = map fst (fold (\<lambda>(k, v). bm_insert k v) ovr' m')"
proof (induction ovr arbitrary: ovr' m m')
  case (Cons x ovr)
  then obtain y n where o: "ovr' = y # n" "fst y = fst x" "map fst ovr = map fst n" by (cases ovr') auto
  show ?case
    using Cons.IH [OF o(3) insert_keys_cong [OF Cons.prems(2), of "fst x" "snd x" "snd y"]] o by (simp add: case_prod_unfold)
qed simp

lemma filter_keys_cong:
  "map fst xs = map fst ys \<Longrightarrow> map fst (filter (\<lambda>(k, _). P k) xs) = map fst (filter (\<lambda>(k, _). P k) ys)"
proof (induction xs arbitrary: ys)
  case (Cons x xs)
  then obtain y zs where "ys = y # zs" "fst y = fst x" "map fst xs = map fst zs" by (cases ys) auto
  then show ?case using Cons.IH [of zs] by (cases x; cases y) auto
qed simp

lemma sanitize_keys_cong:
  assumes "map fst vars = map fst vars'" "map fst env = map fst env'"
  shows "map fst (sanitize_env vars env extra) = map fst (sanitize_env vars' env' extra)"
  unfolding sanitize_env_def Let_def bm_of_list_def
  by (intro fold_insert_keys_cong filter_keys_cong assms refl)

lemma prepare_env_cong:
  assumes "map fst env = map fst env'"
  shows "pp_argv (prepare b argv (r \<lparr> rx_env := env \<rparr>)) = pp_argv (prepare b argv (r \<lparr> rx_env := env' \<rparr>))"
proof -
  have keys: "concat (map (\<lambda>kv. [''--env'', fst kv]) e) = concat (map (\<lambda>k. [''--env'', k]) (map fst e))" for e :: "string bmap"
    by (simp add: comp_def)
  show ?thesis
    by (cases b) (simp_all add: bubblewrap_prepare_def container_prepare_def container_identity_def keys assms split: option.split Runtime.split)
qed


subsection \<open>A host\<close>

definition run_os :: RunnerOs where
  "run_os = \<lparr> ro_is_dir = (\<lambda>p. p = ''/w''), ro_exists = (\<lambda>p. p = ''/bin/bwrap''), ro_path_var = ''/bin'',
     ro_vars = [(''PATH'', ''/bin''), (''MX_AGENT_TOKEN'', ''s'')], ro_current_exe = Inr ''/mx'', ro_data_dir = Inr ''/d'',
     ro_profile = (\<lambda>_. Inr ''/d/p''), ro_program = Inr [], ro_memfd = (\<lambda>_. Inr 7) \<rparr>"

definition run_child :: ChildOs where
  "run_child = \<lparr> co_spawn = (\<lambda>_. None), co_feed = (\<lambda>_. None), co_wait = (\<lambda>_. Inr (Some 0, None)),
     co_wait_for = (\<lambda>_ _. Some (Inr (Some 0, None))), co_stdout = [], co_stderr = [] \<rparr>"

definition run_limits :: Allowance where
  "run_limits = default_allowance \<lparr> al_sandbox := Some Bubblewrap, al_require_sandbox := True, al_read_only_paths := [''/usr''],
     al_seccomp := SeccompDefault, al_max_processes := Some 64 \<rparr>"

definition run_dispatch :: Dispatch where
  "run_dispatch = \<lparr> dp_task = demo_room_task, dp_action = ExecAction [''make''] ''/w'' [] None False None, dp_invocation_id = ''i'',
     dp_limits = run_limits \<rparr>"

definition run_request :: ExecRunRequest where
  "run_request = \<lparr> er_command = [''make''], er_cwd = ''/w'', er_env = [], er_timeout_ms = None, er_sandbox = BackendBubblewrap,
     er_network = NetworkDeny, er_read_only_paths = [''/usr''], er_writable_paths = [], er_env_allowlist = [],
     er_container_runtime = RuntimeDocker, er_container_image = None,
     er_resources = \<lparr> rl_max_processes = Some 64, rl_max_memory_bytes = None, rl_max_cpu_seconds = None \<rparr>,
     er_seccomp = ModeDefault, er_run_uid = None, er_run_gid = None \<rparr>"

lemma run_built: "\<exists>c. build_command (\<lambda>s. s) run_os (request_spec run_request) = Inr c"
proof -
  have "find_in_path (\<lambda>p. p = ''/bin/bwrap'') ''bwrap'' ''/bin'' \<noteq> None"
    by (simp add: find_in_path_def path_join_def is_absolute_def slash_def)
  then have "preflight_backend_in (\<lambda>s. s) (ro_exists run_os) BackendBubblewrap RuntimeDocker (ro_path_var run_os) = Inr ()"
    by (simp add: preflight_backend_in_def run_os_def)
  then show ?thesis
    by (simp add: build_command_def request_spec_def run_request_def container_seccomp_profile_path_def inject_bubblewrap_seccomp_def
        launcher_wrap_def launcher_is_needed_def is_unset_def no_limits_def Let_def) (simp add: run_os_def)
qed



end
