(* ===== verification/Spec2Isabelle.thy ===== *)
theory Spec2Isabelle
  imports Policy_Engine Replay_Cache Trust_Store Task_Lifecycle Task_Graph Scheduler Event_Router
    Approval Audit_Log Exec_Auth Live_Handlers Scheduler_Tick Confinement
begin

text \<open>
  A verification library for mx-agent, a daemon that lets agents run commands and tools for each
  other over Matrix rooms. A request arrives as a Matrix event; the router classifies and parses it and checks
  its nonce; the handlers check its signature, the trust in its key and the local policy, hold it for
  a human approval where the policy asks for one, and only then start work. Tasks are durable
  records in room state; a scheduler picks the runnable ones, verifies the signed action of each and
  runs it as an invocation.

  \<^bold>\<open>Theories and sources\<close> (paths under \<open>src/crates\<close>)

  \<^item> \<open>Mx_Prelude\<close>: the result type, ordered string maps (\<open>BTreeMap\<close>) with the locale
    \<open>string_map\<close>, string helpers of the Rust standard library, shared lemmas.
  \<^item> \<open>Rust_Path\<close>, \<open>Policy_File\<close>, \<open>Policy_Engine\<close>: \<open>mx-agent-policy/src/file.rs\<close> and
    \<open>engine.rs\<close>. The TOML and regular expression libraries are parameters.
  \<^item> \<open>Rfc3339\<close>, \<open>Replay_Cache\<close>: the timestamp reader and printer and the persistent nonce cache of
    \<open>mx-agent-daemon/src/replay.rs\<close> and \<open>approval.rs\<close>. The locale \<open>nonce_guard\<close> is what its
    clients rely on.
  \<^item> \<open>Trust_Store\<close>: \<open>trust.rs\<close> and \<open>trust_state.rs\<close>, with the locale \<open>key_trust\<close>.
  \<^item> \<open>Canonical_Json\<close>, \<open>Signing\<close>: the canonical encoder and the detached signatures of
    \<open>mx-agent-protocol\<close>. Ed25519 and base64 are the record of operations \<open>cr\<close>.
  \<^item> \<open>Task_Schema\<close>, \<open>Requests\<close>, \<open>Wire_Events\<close>, \<open>Event_Types\<close>: the records of
    \<open>mx-agent-protocol/src/schema.rs\<close> and \<open>events.rs\<close>, their JSON readers and writers, and the
    signing of task actions and approval decisions.
  \<^item> \<open>Room_State\<close>, \<open>Invocation\<close>, \<open>Task_Lifecycle\<close>: state events of a room, \<open>invocation.rs\<close> and
    \<open>task.rs\<close>. A room is the store of its state events and its timeline; the answers of the
    homeserver, the clock and fresh identifiers are fields of \<open>Env\<close>.
  \<^item> \<open>Task_Graph\<close>, \<open>Scheduler\<close>: \<open>task_graph.rs\<close> and \<open>scheduler.rs\<close>.
  \<^item> \<open>Event_Router\<close>: \<open>event_router.rs\<close>.
  \<^item> \<open>Approval\<close>: \<open>approval.rs\<close>, with the locale \<open>keyed_queue\<close> of the approval queue.
  \<^item> \<open>Child_Env\<close>, \<open>Audit_Log\<close>: the child environment of \<open>runner.rs\<close>, the sandbox choices of
    \<open>exec.rs\<close>, the redaction of \<open>mx-agent-telemetry\<close>, and \<open>audit.rs\<close>.
  \<^item> \<open>Agents\<close>, \<open>Policy_Resolution\<close>: \<open>agent.rs\<close>, \<open>heartbeat.rs\<close>, \<open>inflight.rs\<close>, the daemon key of
    \<open>mx-agent-daemon/src/signing.rs\<close>, and \<open>policy.rs\<close>.
  \<^item> \<open>Exec_Auth\<close>: the request plane of \<open>exec.rs\<close>; a daemon is the record \<open>Host\<close> of its keys, codecs,
    policy and trust.
  \<^item> \<open>Call_Auth\<close>: the request plane and the signed responses of \<open>call.rs\<close>, with \<open>result_verify.rs\<close>.
  \<^item> \<open>Live_Handlers\<close>: the handlers of routed events in \<open>exec.rs\<close>, \<open>call.rs\<close>, \<open>approval.rs\<close> and
    \<open>sync.rs\<close>, as state passing over the record \<open>Daemon\<close>; what they hand to child processes and tools
    is the list of effects.
\<close>

end
